theory Spec2Isabelle
  imports Complex_Main "HOL-Library.Word"
begin

unbundle bit_operations_syntax

section \<open>The RAT vertex-animation codec (\<^verbatim>\<open>rat_handler.c\<close>)\<close>

text \<open>
  The theory embeds \<^verbatim>\<open>Assets/CEngine/src/rat_handler.c\<close> and its header. Machine integers
  are words of their C width. Arrays are lists: a read or write outside the list is the fault
  \<open>OutOfBounds\<close>. An operation whose behaviour C leaves undefined returns a fault instead of a
  value, so that a result \<open>Inr v\<close> is what every conforming compilation computes; the one sum
  that is not checked in this way is described at \<open>add_delta\<close>.
\<close>

subsection \<open>C values and faults\<close>

type_synonym u8 = "8 word"
type_synonym u16 = "16 word"
type_synonym u32 = "32 word"
type_synonym u64 = "64 word"
type_synonym s32 = "32 word"  \<comment> \<open>\<^verbatim>\<open>int32_t\<close>: the two's-complement bits, read by \<open>sint\<close>\<close>

datatype fault =
    OutOfBounds            \<comment> \<open>an array element outside its allocation is read or written\<close>
  | ShiftOutOfRange        \<comment> \<open>a 32-bit value is shifted by 32 or more\<close>
  | DivisionByZero         \<comment> \<open>a float is divided by zero (the quotient is then cast to \<^verbatim>\<open>uint8_t\<close>)\<close>
  | FloatToIntOutOfRange   \<comment> \<open>a float whose integral part is no \<^verbatim>\<open>uint8_t\<close> is cast to one\<close>
  | NullPointer            \<comment> \<open>a null pointer is dereferenced\<close>

definition c_bind :: "'e + 'a \<Rightarrow> ('a \<Rightarrow> 'e + 'b) \<Rightarrow> 'e + 'b" where
  \<comment> \<open>sequencing: the first fault (or error return) ends the run\<close>
  "c_bind m k = (case m of Inl e \<Rightarrow> Inl e | Inr v \<Rightarrow> k v)"

definition shl32 :: "u32 \<Rightarrow> nat \<Rightarrow> fault + u32" where
  \<comment> \<open>\<^verbatim>\<open>x << n\<close> on \<^verbatim>\<open>uint32_t\<close>\<close>
  "shl32 v n = (if n < 32 then Inr (push_bit n v) else Inl ShiftOutOfRange)"

definition shr32 :: "u32 \<Rightarrow> nat \<Rightarrow> fault + u32" where
  \<comment> \<open>\<^verbatim>\<open>x >> n\<close> on \<^verbatim>\<open>uint32_t\<close>\<close>
  "shr32 v n = (if n < 32 then Inr (drop_bit n v) else Inl ShiftOutOfRange)"

definition read_at :: "'a list \<Rightarrow> nat \<Rightarrow> fault + 'a" where
  \<comment> \<open>\<^verbatim>\<open>a[i]\<close> as a value\<close>
  "read_at a i = (if i < length a then Inr (a ! i) else Inl OutOfBounds)"

definition update_at :: "'a list \<Rightarrow> nat \<Rightarrow> ('a \<Rightarrow> 'a) \<Rightarrow> fault + 'a list" where
  \<comment> \<open>an assignment to (a field of) \<^verbatim>\<open>a[i]\<close>\<close>
  "update_at a i g = (if i < length a then Inr (a[i := g (a ! i)]) else Inl OutOfBounds)"

definition memcpy_elems :: "'a list \<Rightarrow> 'a list \<Rightarrow> nat \<Rightarrow> fault + 'a list" where
  \<comment> \<open>\<^verbatim>\<open>memcpy(dst, src, sizeof(elem) * n)\<close>\<close>
  "memcpy_elems dst src n =
     (if n \<le> length src \<and> n \<le> length dst then Inr (take n src @ drop n dst)
      else Inl OutOfBounds)"

subsection \<open>Bitstream helpers\<close>

text \<open>
  \<^verbatim>\<open>get_bits\<close> returns the field and the advanced \<^verbatim>\<open>*bit_offset\<close>. Both shifts by a count
  taken from the data are checked: \<^verbatim>\<open>1U << num_bits\<close> with \<^verbatim>\<open>num_bits = 32\<close> has no defined
  value in C (x86 and AArch64 shift by the count modulo 32 and give 1, so that the mask is 0).
\<close>

definition get_bits :: "u32 list \<Rightarrow> u64 \<Rightarrow> u8 \<Rightarrow> fault + (u32 \<times> u64)" where
  "get_bits data bit_offset num_bits =
     (if num_bits = 0 then Inr (0, bit_offset)
      else
        let start_offset = bit_offset;
            word_index = (ucast (start_offset div 32) :: u32);
            bit_index = (ucast (start_offset mod 32) :: u32)
        in
        c_bind
          (if unat bit_index + unat num_bits \<le> 32 then
             c_bind (read_at data (unat word_index)) (\<lambda>w.
             c_bind (shr32 w (unat bit_index)) (\<lambda>low.
             c_bind (shl32 1 (unat num_bits)) (\<lambda>m.
               Inr (low AND (m - 1)))))
           else
             c_bind (read_at data (unat word_index)) (\<lambda>w.
             c_bind (shr32 w (unat bit_index)) (\<lambda>part1.
               let part1_len = (ucast (32 - bit_index) :: u8);
                   part2_len = num_bits - part1_len
               in
               c_bind (read_at data (unat (word_index + 1))) (\<lambda>w'.
               c_bind (shl32 1 (unat part2_len)) (\<lambda>m.
                 let part2 = w' AND (m - 1) in
                 c_bind (shl32 part2 (unat part1_len)) (\<lambda>high.
                   Inr (part1 OR high)))))))
          (\<lambda>val. Inr (val, bit_offset + ucast num_bits)))"

definition sign_extend :: "u32 \<Rightarrow> u8 \<Rightarrow> fault + s32" where
  "sign_extend val num_bits =
     (if num_bits = 0 then Inr 0
      else
        c_bind (shl32 1 (unat num_bits - 1)) (\<lambda>sign_bit.
          if val AND sign_bit \<noteq> 0 then
            c_bind (shl32 (NOT 0) (unat num_bits)) (\<lambda>high. Inr (val OR high))
          else Inr val))"

subsection \<open>Floating point\<close>

text \<open>
  The code computes in \<^verbatim>\<open>float\<close>. The embedding is generic in the float type \<open>'f\<close> and
  takes the operations the code applies to it as a record, so every theorem below holds for
  whatever these operations compute (IEEE-754 binary32 in particular). \<open>f_to_u8\<close> is the cast
  \<^verbatim>\<open>(uint8_t)\<close>, undefined (\<open>None\<close>) when the truncated value is not in \<open>0..255\<close>; \<open>f_of_u8\<close>
  converts a promoted \<^verbatim>\<open>uint8_t\<close>; \<open>f_of_bits\<close> reads a float from its four bytes.
\<close>

record 'f float_ops =
  f_add :: "'f \<Rightarrow> 'f \<Rightarrow> 'f"
  f_sub :: "'f \<Rightarrow> 'f \<Rightarrow> 'f"
  f_mul :: "'f \<Rightarrow> 'f \<Rightarrow> 'f"
  f_div :: "'f \<Rightarrow> 'f \<Rightarrow> 'f"
  f_255 :: "'f"
  f_is_zero :: "'f \<Rightarrow> bool"
  f_of_u8 :: "u8 \<Rightarrow> 'f"
  f_to_u8 :: "'f \<Rightarrow> u8 option"
  f_of_bits :: "u32 \<Rightarrow> 'f"

subsection \<open>Data structures (\<^verbatim>\<open>rat_handler.h\<close>)\<close>

record vertex_u8 =
  u8_x :: u8
  u8_y :: u8
  u8_z :: u8

record 'f vector3 =
  v3_x :: "'f"
  v3_y :: "'f"
  v3_z :: "'f"

record 'f vertex_uv =
  uv_u :: "'f"
  uv_v :: "'f"

record 'f vertex_color =
  col_r :: "'f"
  col_g :: "'f"
  col_b :: "'f"
  col_a :: "'f"

text \<open>
  A null array pointer is the empty list: every access to it is out of bounds. The two
  \<^verbatim>\<open>char[256]\<close> filename fields hold the C string they store (the bytes before the first
  terminator).
\<close>

record 'f rat_animation =
  num_vertices :: u32
  num_frames :: u32
  min_x :: "'f"
  min_y :: "'f"
  min_z :: "'f"
  max_x :: "'f"
  max_y :: "'f"
  max_z :: "'f"
  first_frame_quantized :: "vertex_u8 list"
  first_frame_raw :: "'f vector3 list"
  is_first_frame_raw :: bool
  bit_widths_x :: "u8 list"
  bit_widths_y :: "u8 list"
  bit_widths_z :: "u8 list"
  delta_stream :: "u32 list"
  delta_stream_word_count :: u32
  mesh_data_filename :: "u8 list"

record 'f rat_mesh_data =
  mesh_num_vertices :: u32
  mesh_num_indices :: u32
  uvs :: "'f vertex_uv list"
  colors :: "'f vertex_color list"
  indices :: "u16 list"
  texture_filename :: "u8 list"

text \<open>
  \<^verbatim>\<open>RatModel\<close>. The two record pointers are options (\<open>None\<close> is \<^verbatim>\<open>NULL\<close>); the four
  \<^verbatim>\<open>GLuint\<close> buffer names, which no function of the file touches, are left out.
\<close>

record 'f rat_model =
  animation :: "'f rat_animation option"
  mesh_data :: "'f rat_mesh_data option"
  decompressed_vertices_u8 :: "vertex_u8 list"
  current_frame_vertices :: "'f vector3 list"
  current_frame :: u32
  texture_id :: s32
  is_valid :: bool

subsection \<open>Frame reconstruction (\<^verbatim>\<open>decompress_frame\<close>)\<close>

definition quantize :: "'f float_ops \<Rightarrow> 'f \<Rightarrow> 'f \<Rightarrow> 'f \<Rightarrow> fault + u8" where
  \<comment> \<open>\<^verbatim>\<open>(uint8_t)(255.0f * (raw - min) / (max - min))\<close>: an IEEE division by zero gives an
      infinity or a NaN, and casting either to \<^verbatim>\<open>uint8_t\<close> is undefined\<close>
  "quantize ops raw mn mx =
     (let num = f_mul ops (f_255 ops) (f_sub ops raw mn);
          den = f_sub ops mx mn
      in if f_is_zero ops den then Inl DivisionByZero
         else (case f_to_u8 ops (f_div ops num den) of
                 None \<Rightarrow> Inl FloatToIntOutOfRange
               | Some q \<Rightarrow> Inr q))"

definition quantize_step ::
  "'f float_ops \<Rightarrow> 'f rat_animation \<Rightarrow> nat \<Rightarrow> vertex_u8 list \<Rightarrow> fault + vertex_u8 list" where
  \<comment> \<open>the body of the loops at lines 307 and 324\<close>
  "quantize_step ops anim i prev_frame =
     c_bind (read_at (first_frame_raw anim) i) (\<lambda>raw.
     c_bind (quantize ops (v3_x raw) (min_x anim) (max_x anim)) (\<lambda>qx.
     c_bind (update_at prev_frame i (\<lambda>v. v\<lparr>u8_x := qx\<rparr>)) (\<lambda>p1.
     c_bind (quantize ops (v3_y raw) (min_y anim) (max_y anim)) (\<lambda>qy.
     c_bind (update_at p1 i (\<lambda>v. v\<lparr>u8_y := qy\<rparr>)) (\<lambda>p2.
     c_bind (quantize ops (v3_z raw) (min_z anim) (max_z anim)) (\<lambda>qz.
       update_at p2 i (\<lambda>v. v\<lparr>u8_z := qz\<rparr>)))))))"

function quantize_loop ::
  "'f float_ops \<Rightarrow> 'f rat_animation \<Rightarrow> nat \<Rightarrow> vertex_u8 list \<Rightarrow> fault + vertex_u8 list" where
  "quantize_loop ops anim i prev_frame =
     (if i < unat (num_vertices anim) then
        (case quantize_step ops anim i prev_frame of
           Inl e \<Rightarrow> Inl e
         | Inr p \<Rightarrow> quantize_loop ops anim (Suc i) p)
      else Inr prev_frame)"
  by pat_completeness auto
termination
  by (relation "measure (\<lambda>(ops, anim, i, p). unat (num_vertices anim) - i)") auto

declare quantize_loop.simps [simp del]

definition first_frame ::
  "'f float_ops \<Rightarrow> 'f rat_animation \<Rightarrow> vertex_u8 list \<Rightarrow> fault + vertex_u8 list" where
  \<comment> \<open>lines 305--315, and again lines 323--331: frame 0 into \<^verbatim>\<open>prev_frame\<close>\<close>
  "first_frame ops anim prev_frame =
     (if is_first_frame_raw anim then quantize_loop ops anim 0 prev_frame
      else memcpy_elems prev_frame (first_frame_quantized anim) (unat (num_vertices anim)))"

definition add_delta :: "u8 \<Rightarrow> s32 \<Rightarrow> u8" where
  \<comment> \<open>\<^verbatim>\<open>c += d\<close> for a \<^verbatim>\<open>uint8_t c\<close> and an \<^verbatim>\<open>int32_t d\<close>: the sum is formed in \<^verbatim>\<open>int\<close> and
      converted back, which keeps its low eight bits. The \<^verbatim>\<open>int\<close> sum is in range for every delta
      of a field of at most 31 bits; a delta above \<^verbatim>\<open>INT_MAX - 255\<close>, which takes a field of 32
      bits, overflows it, and the low eight bits of the wrapped sum are taken there too\<close>
  "add_delta c d = (ucast ((ucast c :: s32) + d) :: u8)"

definition delta_step ::
  "'f rat_animation \<Rightarrow> nat \<Rightarrow> u64 \<times> vertex_u8 list \<Rightarrow> fault + (u64 \<times> vertex_u8 list)" where
  \<comment> \<open>the body of the loop at line 335\<close>
  "delta_step anim i st =
     (case st of (bit_offset, prev_frame) \<Rightarrow>
     c_bind (read_at (bit_widths_x anim) i) (\<lambda>wx.
     c_bind (get_bits (delta_stream anim) bit_offset wx) (\<lambda>(ux, off1).
     c_bind (sign_extend ux wx) (\<lambda>dx.
     c_bind (read_at (bit_widths_y anim) i) (\<lambda>wy.
     c_bind (get_bits (delta_stream anim) off1 wy) (\<lambda>(uy, off2).
     c_bind (sign_extend uy wy) (\<lambda>dy.
     c_bind (read_at (bit_widths_z anim) i) (\<lambda>wz.
     c_bind (get_bits (delta_stream anim) off2 wz) (\<lambda>(uz, off3).
     c_bind (sign_extend uz wz) (\<lambda>dz.
     c_bind (update_at prev_frame i (\<lambda>v. v\<lparr>u8_x := add_delta (u8_x v) dx\<rparr>)) (\<lambda>p1.
     c_bind (update_at p1 i (\<lambda>v. v\<lparr>u8_y := add_delta (u8_y v) dy\<rparr>)) (\<lambda>p2.
     c_bind (update_at p2 i (\<lambda>v. v\<lparr>u8_z := add_delta (u8_z v) dz\<rparr>)) (\<lambda>p3.
       Inr (off3, p3))))))))))))))"

function delta_loop ::
  "'f rat_animation \<Rightarrow> nat \<Rightarrow> u64 \<times> vertex_u8 list \<Rightarrow> fault + (u64 \<times> vertex_u8 list)" where
  "delta_loop anim i st =
     (if i < unat (num_vertices anim) then
        (case delta_step anim i st of
           Inl e \<Rightarrow> Inl e
         | Inr st' \<Rightarrow> delta_loop anim (Suc i) st')
      else Inr st)"
  by pat_completeness auto
termination
  by (relation "measure (\<lambda>(anim, i, st). unat (num_vertices anim) - i)") auto

declare delta_loop.simps [simp del]

text \<open>
  The loop over the frames counts in \<^verbatim>\<open>uint32_t\<close>: with \<^verbatim>\<open>frame_index = 0xFFFFFFFF\<close> the
  test \<^verbatim>\<open>f <= frame_index\<close> never fails, and the loop ends only by a fault. \<open>None\<close> is a run
  that does not return.
\<close>

partial_function (option) frame_loop ::
  "'f rat_animation \<Rightarrow> u32 \<Rightarrow> u32 \<Rightarrow> u64 \<times> vertex_u8 list
     \<Rightarrow> (fault + (u64 \<times> vertex_u8 list)) option" where
  "frame_loop anim frame_index f st =
     (if f \<le> frame_index then
        (case delta_loop anim 0 st of
           Inl e \<Rightarrow> Some (Inl e)
         | Inr st' \<Rightarrow> frame_loop anim frame_index (f + 1) st')
      else Some (Inr st))"

definition dequantize :: "'f float_ops \<Rightarrow> 'f \<Rightarrow> 'f \<Rightarrow> u8 \<Rightarrow> 'f" where
  \<comment> \<open>\<^verbatim>\<open>min + (q / 255.0f) * range\<close>\<close>
  "dequantize ops mn rng q = f_add ops mn (f_mul ops (f_div ops (f_of_u8 ops q) (f_255 ops)) rng)"

definition dequantize_step ::
  "'f float_ops \<Rightarrow> 'f rat_animation \<Rightarrow> vertex_u8 list \<Rightarrow> nat \<Rightarrow> 'f vector3 list
     \<Rightarrow> fault + 'f vector3 list" where
  \<comment> \<open>the body of the loop at line 352\<close>
  "dequantize_step ops anim prev_frame i cur =
     (let range_x = f_sub ops (max_x anim) (min_x anim);
          range_y = f_sub ops (max_y anim) (min_y anim);
          range_z = f_sub ops (max_z anim) (min_z anim)
      in
      c_bind (read_at prev_frame i) (\<lambda>q.
      c_bind (update_at cur i (\<lambda>v. v\<lparr>v3_x := dequantize ops (min_x anim) range_x (u8_x q)\<rparr>)) (\<lambda>c1.
      c_bind (update_at c1 i (\<lambda>v. v\<lparr>v3_y := dequantize ops (min_y anim) range_y (u8_y q)\<rparr>)) (\<lambda>c2.
        update_at c2 i (\<lambda>v. v\<lparr>v3_z := dequantize ops (min_z anim) range_z (u8_z q)\<rparr>)))))"

function dequantize_loop ::
  "'f float_ops \<Rightarrow> 'f rat_animation \<Rightarrow> vertex_u8 list \<Rightarrow> nat \<Rightarrow> 'f vector3 list
     \<Rightarrow> fault + 'f vector3 list" where
  "dequantize_loop ops anim prev_frame i cur =
     (if i < unat (num_vertices anim) then
        (case dequantize_step ops anim prev_frame i cur of
           Inl e \<Rightarrow> Inl e
         | Inr cur' \<Rightarrow> dequantize_loop ops anim prev_frame (Suc i) cur')
      else Inr cur)"
  by pat_completeness auto
termination
  by (relation "measure (\<lambda>(ops, anim, p, i, cur). unat (num_vertices anim) - i)") auto

declare dequantize_loop.simps [simp del]

definition decompress_frame ::
  "'f float_ops \<Rightarrow> 'f rat_model \<Rightarrow> u32 \<Rightarrow> (fault + 'f rat_model) option" where
  "decompress_frame ops model frame_index =
     (case animation model of
        None \<Rightarrow> Some (Inl NullPointer)
      | Some anim \<Rightarrow>
          (case (if frame_index = 0 then
                   Some (first_frame ops anim (decompressed_vertices_u8 model))
                 else
                   (case first_frame ops anim (decompressed_vertices_u8 model) of
                      Inl e \<Rightarrow> Some (Inl e)
                    | Inr p0 \<Rightarrow>
                        map_option (\<lambda>r. c_bind r (\<lambda>(bit_offset, p). Inr p))
                          (frame_loop anim frame_index 1 (0, p0))))
           of
             None \<Rightarrow> None
           | Some (Inl e) \<Rightarrow> Some (Inl e)
           | Some (Inr prev_frame) \<Rightarrow>
               Some (c_bind (dequantize_loop ops anim prev_frame 0 (current_frame_vertices model))
                      (\<lambda>cur. Inr (model\<lparr>decompressed_vertices_u8 := prev_frame,
                                          current_frame_vertices := cur\<rparr>)))))"

subsection \<open>Model lifecycle\<close>

definition rat_model_get_chunk_frame_count :: "'f rat_model option \<Rightarrow> u32" where
  "rat_model_get_chunk_frame_count model =
     (case model of
        None \<Rightarrow> 0
      | Some m \<Rightarrow>
          (case animation m of
             None \<Rightarrow> 0
           | Some anim \<Rightarrow> if num_vertices anim = 0 then 0 else num_frames anim))"

definition rat_model_update ::
  "'f float_ops \<Rightarrow> 'f rat_model option \<Rightarrow> u32 \<Rightarrow> (fault + 'f rat_model option) option" where
  "rat_model_update ops model local_frame =
     (case model of
        None \<Rightarrow> Some (Inr None)
      | Some m \<Rightarrow>
          if \<not> is_valid m \<or> local_frame = current_frame m then Some (Inr (Some m))
          else
            let frame_count = rat_model_get_chunk_frame_count model;
                local_frame = (if local_frame \<ge> frame_count
                               then (if frame_count > 0 then frame_count - 1 else 0)
                               else local_frame)
            in map_option (\<lambda>r. c_bind r (\<lambda>m'. Inr (Some (m'\<lparr>current_frame := local_frame\<rparr>))))
                 (decompress_frame ops m local_frame))"

subsection \<open>Loading (\<^verbatim>\<open>load_rat_animation\<close>, \<^verbatim>\<open>load_rat_mesh_data\<close>, \<^verbatim>\<open>rat_model_create_from_chunk\<close>)\<close>

text \<open>
  What the loaders take from outside is an environment: \<^verbatim>\<open>file_read_into_buffer\<close> of
  \<^verbatim>\<open>utils.h\<close>, which is not among the sources, as a function from a path to the bytes of the
  file (\<open>None\<close> when it returns \<^verbatim>\<open>NULL\<close>); which allocations fail; and what uninitialised memory
  from \<^verbatim>\<open>malloc\<close> holds. Paths and file contents are bytes; a C string is the list of its bytes
  before the terminator. \<^verbatim>\<open>size_t\<close> has 64 bits and the host is little-endian, as the file
  format is.
\<close>

datatype alloc_site =
    AllocModel | AllocAnimation | AllocFirstFrameRaw | AllocFirstFrameQuantized
  | AllocBitWidthsX | AllocBitWidthsY | AllocBitWidthsZ | AllocDeltaStream
  | AllocMesh | AllocUVs | AllocColors | AllocIndices
  | AllocScratchU8 | AllocScratchFloat

record 'f env =
  file_read_into_buffer :: "u8 list \<Rightarrow> u8 list option"
  alloc_fails :: "alloc_site \<Rightarrow> bool"
  fresh_u8 :: "nat \<Rightarrow> vertex_u8"
  fresh_float :: "nat \<Rightarrow> 'f vector3"

text \<open>
  Every failure of the C code is the return of \<^verbatim>\<open>NULL\<close> after a message on \<^verbatim>\<open>stderr\<close>. The
  constructors name the return paths: \<open>Truncated\<close> is \<^verbatim>\<open>"File %s is smaller than RatHeader."\<close>
  (or \<^verbatim>\<open>RatMeshHeader\<close>), \<open>BadMagic\<close> is \<^verbatim>\<open>"Invalid RAT3 magic number in %s."\<close> (or
  \<^verbatim>\<open>RATM\<close>), \<open>FileUnreadable\<close> and \<open>AllocationFailure\<close> the two silent ones. \<open>Undefined\<close> is no
  return at all: the run has left defined behaviour.
\<close>

datatype load_error = FileUnreadable | Truncated | BadMagic | AllocationFailure | Undefined fault

definition lift_fault :: "fault + 'a \<Rightarrow> load_error + 'a" where
  "lift_fault r = (case r of Inl e \<Rightarrow> Inl (Undefined e) | Inr v \<Rightarrow> Inr v)"

definition RAT3_MAGIC :: u32 where
  "RAT3_MAGIC = 0x33544152"

definition RATM_MAGIC :: u32 where
  "RATM_MAGIC = 0x4D544152"

definition sizeof_RatHeader :: nat where
  "sizeof_RatHeader = 64"

definition sizeof_RatMeshHeader :: nat where
  "sizeof_RatMeshHeader = 48"

definition le32_at :: "u8 list \<Rightarrow> nat \<Rightarrow> u32" where
  \<comment> \<open>the \<^verbatim>\<open>uint32_t\<close> at byte offset \<open>off\<close>, for \<open>off + 4 \<le> length buffer\<close>\<close>
  "le32_at buffer off =
     ucast (buffer ! off) OR push_bit 8 (ucast (buffer ! (off + 1))) OR
     push_bit 16 (ucast (buffer ! (off + 2))) OR push_bit 24 (ucast (buffer ! (off + 3)))"

definition le16_at :: "u8 list \<Rightarrow> nat \<Rightarrow> u16" where
  "le16_at buffer off = ucast (buffer ! off) OR push_bit 8 (ucast (buffer ! (off + 1)))"

definition memcpy_from :: "'f env \<Rightarrow> alloc_site \<Rightarrow> u8 list \<Rightarrow> nat \<Rightarrow> nat \<Rightarrow> fault + u8 list" where
  \<comment> \<open>\<^verbatim>\<open>memcpy(dst, buffer + off, n)\<close> into the block the unchecked \<^verbatim>\<open>malloc\<close> at \<open>site\<close>
      returned: the bytes copied\<close>
  "memcpy_from env site buffer off n =
     (if length buffer < off + n then Inl OutOfBounds
      else if alloc_fails env site then Inl NullPointer
      else Inr (take n (drop off buffer)))"

definition c_strncpy :: "u8 list \<Rightarrow> u8 list \<Rightarrow> nat \<Rightarrow> nat \<Rightarrow> fault + u8 list" where
  \<comment> \<open>\<^verbatim>\<open>strncpy(dest, (char*)(buffer + off), n)\<close>: the bytes up to a terminator or \<open>n\<close> of them
      are read and exactly \<open>n\<close> bytes of \<open>dest\<close> are written, zeros after the string\<close>
  "c_strncpy dest buffer off n =
     (let src = drop off buffer;
          s = takeWhile (\<lambda>b. b \<noteq> 0) (take n src)
      in if length buffer < off then Inl OutOfBounds
         else if length s < n \<and> length src \<le> length s then Inl OutOfBounds
         else if length dest < n then Inl OutOfBounds
         else Inr (s @ replicate (n - length s) 0 @ drop n dest))"

definition copy_filename :: "u8 list \<Rightarrow> nat \<Rightarrow> nat \<Rightarrow> fault + u8 list" where
  \<comment> \<open>lines 210--211 and 293--294: \<^verbatim>\<open>strncpy\<close> into the zeroed \<^verbatim>\<open>char[256]\<close> field, then
      \<^verbatim>\<open>field[length] = '\0'\<close>; the result is the C string the field holds\<close>
  "copy_filename buffer off n =
     c_bind (c_strncpy (replicate 256 0) buffer off n) (\<lambda>field.
     c_bind (update_at field n (\<lambda>c. 0)) (\<lambda>field'.
       Inr (takeWhile (\<lambda>b. b \<noteq> 0) field')))"

record rat_header =
  hdr_magic :: u32
  hdr_num_vertices :: u32
  hdr_num_frames :: u32
  hdr_num_indices :: u32
  hdr_delta_offset :: u32
  hdr_bit_widths_offset :: u32
  hdr_mesh_data_filename_offset :: u32
  hdr_mesh_data_filename_length :: u32
  hdr_min_x :: u32
  hdr_min_y :: u32
  hdr_min_z :: u32
  hdr_max_x :: u32
  hdr_max_y :: u32
  hdr_max_z :: u32
  hdr_is_first_frame_raw :: u8
  hdr_raw_first_frame_offset :: u32

definition rat_header_of :: "u8 list \<Rightarrow> rat_header" where
  \<comment> \<open>\<^verbatim>\<open>(RatHeader*)buffer\<close>, packed; the six floats as their bits\<close>
  "rat_header_of buffer =
     \<lparr>hdr_magic = le32_at buffer 0, hdr_num_vertices = le32_at buffer 4,
      hdr_num_frames = le32_at buffer 8, hdr_num_indices = le32_at buffer 12,
      hdr_delta_offset = le32_at buffer 16, hdr_bit_widths_offset = le32_at buffer 20,
      hdr_mesh_data_filename_offset = le32_at buffer 24,
      hdr_mesh_data_filename_length = le32_at buffer 28,
      hdr_min_x = le32_at buffer 32, hdr_min_y = le32_at buffer 36, hdr_min_z = le32_at buffer 40,
      hdr_max_x = le32_at buffer 44, hdr_max_y = le32_at buffer 48, hdr_max_z = le32_at buffer 52,
      hdr_is_first_frame_raw = buffer ! 56, hdr_raw_first_frame_offset = le32_at buffer 60\<rparr>"

record rat_mesh_header =
  mhdr_magic :: u32
  mhdr_num_vertices :: u32
  mhdr_num_indices :: u32
  mhdr_uv_offset :: u32
  mhdr_color_offset :: u32
  mhdr_indices_offset :: u32
  mhdr_texture_filename_offset :: u32
  mhdr_texture_filename_length :: u32

definition rat_mesh_header_of :: "u8 list \<Rightarrow> rat_mesh_header" where
  "rat_mesh_header_of buffer =
     \<lparr>mhdr_magic = le32_at buffer 0, mhdr_num_vertices = le32_at buffer 4,
      mhdr_num_indices = le32_at buffer 8, mhdr_uv_offset = le32_at buffer 12,
      mhdr_color_offset = le32_at buffer 16, mhdr_indices_offset = le32_at buffer 20,
      mhdr_texture_filename_offset = le32_at buffer 24,
      mhdr_texture_filename_length = le32_at buffer 28\<rparr>"

definition vertex_u8_at :: "u8 list \<Rightarrow> nat \<Rightarrow> vertex_u8" where
  "vertex_u8_at bs i = \<lparr>u8_x = bs ! (3 * i), u8_y = bs ! (3 * i + 1), u8_z = bs ! (3 * i + 2)\<rparr>"

definition vector3_at :: "'f float_ops \<Rightarrow> u8 list \<Rightarrow> nat \<Rightarrow> 'f vector3" where
  "vector3_at ops bs i =
     \<lparr>v3_x = f_of_bits ops (le32_at bs (12 * i)), v3_y = f_of_bits ops (le32_at bs (12 * i + 4)),
      v3_z = f_of_bits ops (le32_at bs (12 * i + 8))\<rparr>"

definition vertex_uv_at :: "'f float_ops \<Rightarrow> u8 list \<Rightarrow> nat \<Rightarrow> 'f vertex_uv" where
  "vertex_uv_at ops bs i =
     \<lparr>uv_u = f_of_bits ops (le32_at bs (8 * i)), uv_v = f_of_bits ops (le32_at bs (8 * i + 4))\<rparr>"

definition vertex_color_at :: "'f float_ops \<Rightarrow> u8 list \<Rightarrow> nat \<Rightarrow> 'f vertex_color" where
  "vertex_color_at ops bs i =
     \<lparr>col_r = f_of_bits ops (le32_at bs (16 * i)), col_g = f_of_bits ops (le32_at bs (16 * i + 4)),
      col_b = f_of_bits ops (le32_at bs (16 * i + 8)), col_a = f_of_bits ops (le32_at bs (16 * i + 12))\<rparr>"

definition load_rat_animation :: "'f float_ops \<Rightarrow> 'f env \<Rightarrow> u8 list \<Rightarrow> load_error + 'f rat_animation" where
  "load_rat_animation ops env path =
     (case file_read_into_buffer env path of
        None \<Rightarrow> Inl FileUnreadable
      | Some buffer \<Rightarrow>
          let buffer_size = length buffer in
          if buffer_size < sizeof_RatHeader then Inl Truncated
          else
            let header = rat_header_of buffer in
            if hdr_magic header \<noteq> RAT3_MAGIC then Inl BadMagic
            else if alloc_fails env AllocAnimation then Inl AllocationFailure
            else
              let n = unat (hdr_num_vertices header) in
              c_bind (lift_fault (copy_filename buffer
                        (unat (hdr_mesh_data_filename_offset header))
                        (unat (hdr_mesh_data_filename_length header)))) (\<lambda>name.
              c_bind (lift_fault
                        (if hdr_is_first_frame_raw header \<noteq> 0 then
                           c_bind (memcpy_from env AllocFirstFrameRaw buffer
                                     (unat (hdr_raw_first_frame_offset header)) (12 * n)) (\<lambda>bs.
                             Inr ([], map (vector3_at ops bs) [0..<n]))
                         else
                           c_bind (memcpy_from env AllocFirstFrameQuantized buffer
                                     sizeof_RatHeader (3 * n)) (\<lambda>bs.
                             Inr (map (vertex_u8_at bs) [0..<n], [])))) (\<lambda>(quantized, raw).
              let bw_size = n;
                  bw_data = unat (hdr_bit_widths_offset header)
              in
              c_bind (lift_fault (memcpy_from env AllocBitWidthsX buffer bw_data bw_size)) (\<lambda>bwx.
              c_bind (lift_fault (memcpy_from env AllocBitWidthsY buffer (bw_data + bw_size) bw_size)) (\<lambda>bwy.
              c_bind (lift_fault (memcpy_from env AllocBitWidthsZ buffer (bw_data + 2 * bw_size) bw_size)) (\<lambda>bwz.
              let delta_stream_byte_size = (word_of_nat buffer_size - hdr_delta_offset header :: u32) in
              c_bind (lift_fault (memcpy_from env AllocDeltaStream buffer
                        (unat (hdr_delta_offset header)) (unat delta_stream_byte_size))) (\<lambda>ds.
                Inr \<lparr>num_vertices = hdr_num_vertices header,
                     num_frames = hdr_num_frames header,
                     min_x = f_of_bits ops (hdr_min_x header),
                     min_y = f_of_bits ops (hdr_min_y header),
                     min_z = f_of_bits ops (hdr_min_z header),
                     max_x = f_of_bits ops (hdr_max_x header),
                     max_y = f_of_bits ops (hdr_max_y header),
                     max_z = f_of_bits ops (hdr_max_z header),
                     first_frame_quantized = quantized,
                     first_frame_raw = raw,
                     is_first_frame_raw = (hdr_is_first_frame_raw header \<noteq> 0),
                     bit_widths_x = bwx, bit_widths_y = bwy, bit_widths_z = bwz,
                     delta_stream = map (\<lambda>i. le32_at ds (4 * i)) [0..<length ds div 4],
                     delta_stream_word_count = delta_stream_byte_size div 4,
                     mesh_data_filename = name\<rparr>)))))))"

definition load_rat_mesh_data ::
  "'f float_ops \<Rightarrow> 'f env \<Rightarrow> u8 list \<Rightarrow> u8 list \<Rightarrow> load_error + 'f rat_mesh_data" where
  "load_rat_mesh_data ops env filename base_dir =
     (let full_path = take 511 (base_dir @ filename) in
      case file_read_into_buffer env full_path of
        None \<Rightarrow> Inl FileUnreadable
      | Some buffer \<Rightarrow>
          let buffer_size = length buffer in
          if buffer_size < sizeof_RatMeshHeader then Inl Truncated
          else
            let header = rat_mesh_header_of buffer in
            if mhdr_magic header \<noteq> RATM_MAGIC then Inl BadMagic
            else if alloc_fails env AllocMesh then Inl AllocationFailure
            else
              let nv = unat (mhdr_num_vertices header);
                  ni = unat (mhdr_num_indices header)
              in
              c_bind (lift_fault (memcpy_from env AllocUVs buffer
                        (unat (mhdr_uv_offset header)) (8 * nv))) (\<lambda>uv_bytes.
              c_bind (lift_fault (memcpy_from env AllocColors buffer
                        (unat (mhdr_color_offset header)) (16 * nv))) (\<lambda>color_bytes.
              c_bind (lift_fault (memcpy_from env AllocIndices buffer
                        (unat (mhdr_indices_offset header)) (2 * ni))) (\<lambda>index_bytes.
              c_bind (lift_fault (copy_filename buffer
                        (unat (mhdr_texture_filename_offset header))
                        (unat (mhdr_texture_filename_length header)))) (\<lambda>name.
                Inr \<lparr>mesh_num_vertices = mhdr_num_vertices header,
                     mesh_num_indices = mhdr_num_indices header,
                     uvs = map (vertex_uv_at ops uv_bytes) [0..<nv],
                     colors = map (vertex_color_at ops color_bytes) [0..<nv],
                     indices = map (\<lambda>i. le16_at index_bytes (2 * i)) [0..<ni],
                     texture_filename = name\<rparr>)))))"

definition base_dir_of :: "u8 list \<Rightarrow> fault + u8 list" where
  \<comment> \<open>lines 37--44: \<^verbatim>\<open>strncpy\<close> into \<^verbatim>\<open>char base_dir[256]\<close> leaves no terminator for a path
      of 256 bytes or more, and \<^verbatim>\<open>strrchr\<close> then reads past the array; \<open>0x2F\<close> is \<^verbatim>\<open>'/'\<close>\<close>
  "base_dir_of rat_chunk_path =
     (if 256 \<le> length rat_chunk_path then Inl OutOfBounds
      else if 0x2F \<in> set rat_chunk_path
           then Inr (rev (dropWhile (\<lambda>b. b \<noteq> 0x2F) (rev rat_chunk_path)))
           else Inr [])"

text \<open>
  \<^verbatim>\<open>rat_model_create_from_chunk\<close>. \<^verbatim>\<open>rat_model_destroy\<close> on the failure paths only frees
  memory, and the result is \<^verbatim>\<open>NULL\<close>: the error value. The final \<^verbatim>\<open>rat_model_update(model, 0)\<close>
  is called on a non-null model, so the case of a null model in its result is never taken.
\<close>

definition rat_model_create_from_chunk ::
  "'f float_ops \<Rightarrow> 'f env \<Rightarrow> u8 list \<Rightarrow> s32 \<Rightarrow> (load_error + 'f rat_model) option" where
  "rat_model_create_from_chunk ops env rat_chunk_path tex =
     (if alloc_fails env AllocModel then Some (Inl AllocationFailure)
      else
        case load_rat_animation ops env rat_chunk_path of
          Inl e \<Rightarrow> Some (Inl e)
        | Inr anim \<Rightarrow>
            (case base_dir_of rat_chunk_path of
               Inl e \<Rightarrow> Some (Inl (Undefined e))
             | Inr base_dir \<Rightarrow>
                 (case load_rat_mesh_data ops env (mesh_data_filename anim) base_dir of
                    Inl e \<Rightarrow> Some (Inl e)
                  | Inr mesh \<Rightarrow>
                      if alloc_fails env AllocScratchU8 \<or> alloc_fails env AllocScratchFloat
                      then Some (Inl AllocationFailure)
                      else
                        let model =
                              \<lparr>animation = Some anim, mesh_data = Some mesh,
                               decompressed_vertices_u8 =
                                 map (fresh_u8 env) [0..<unat (num_vertices anim)],
                               current_frame_vertices =
                                 map (fresh_float env) [0..<unat (num_vertices anim)],
                               current_frame = - 1, texture_id = tex, is_valid = True\<rparr>
                        in
                        (case rat_model_update ops (Some model) 0 of
                           None \<Rightarrow> None
                         | Some (Inl e) \<Rightarrow> Some (Inl (Undefined e))
                         | Some (Inr None) \<Rightarrow> Some (Inl (Undefined NullPointer))
                         | Some (Inr (Some model')) \<Rightarrow> Some (Inr model')))))"

subsection \<open>Well-formed inputs\<close>

text \<open>
  \<^verbatim>\<open>load_rat_animation\<close> allocates every per-vertex array with \<^verbatim>\<open>num_vertices\<close> elements,
  and \<^verbatim>\<open>rat_model_create_from_chunk\<close> both scratch buffers.
\<close>

definition loaded_chunk :: "'f rat_animation \<Rightarrow> bool" where
  "loaded_chunk anim =
     (length (bit_widths_x anim) = unat (num_vertices anim) \<and>
      length (bit_widths_y anim) = unat (num_vertices anim) \<and>
      length (bit_widths_z anim) = unat (num_vertices anim) \<and>
      (if is_first_frame_raw anim
       then length (first_frame_raw anim) = unat (num_vertices anim)
       else length (first_frame_quantized anim) = unat (num_vertices anim)))"

definition scratch_allocated :: "'f rat_model \<Rightarrow> 'f rat_animation \<Rightarrow> bool" where
  "scratch_allocated model anim =
     (length (decompressed_vertices_u8 model) = unat (num_vertices anim) \<and>
      length (current_frame_vertices model) = unat (num_vertices anim))"

subsection \<open>The loops as functions on lists\<close>

text \<open>
  The index loops of \<^verbatim>\<open>decompress_frame\<close> over the scratch buffers, written once more as maps
  and folds over lists. They are made of the same operations of the code (\<open>quantize\<close>,
  \<open>get_bits\<close>, \<open>sign_extend\<close>, \<open>dequantize\<close>) and are the form in which the loops are reasoned
  about: the first lemmas below show that the loops compute them. \<open>wrap_add\<close> is the sum modulo
  256 that \<open>add_delta\<close> computes.
\<close>

fun map_faulty :: "('a \<Rightarrow> fault + 'b) \<Rightarrow> 'a list \<Rightarrow> fault + 'b list" where
  "map_faulty g [] = Inr []"
| "map_faulty g (a # as) = c_bind (g a) (\<lambda>b. c_bind (map_faulty g as) (\<lambda>bs. Inr (b # bs)))"

definition quantize_vertex :: "'f float_ops \<Rightarrow> 'f rat_animation \<Rightarrow> 'f vector3 \<Rightarrow> fault + vertex_u8" where
  "quantize_vertex ops anim raw =
     c_bind (quantize ops (v3_x raw) (min_x anim) (max_x anim)) (\<lambda>qx.
     c_bind (quantize ops (v3_y raw) (min_y anim) (max_y anim)) (\<lambda>qy.
     c_bind (quantize ops (v3_z raw) (min_z anim) (max_z anim)) (\<lambda>qz.
       Inr \<lparr>u8_x = qx, u8_y = qy, u8_z = qz\<rparr>)))"

definition base_frame_of :: "'f float_ops \<Rightarrow> 'f rat_animation \<Rightarrow> fault + vertex_u8 list" where
  "base_frame_of ops anim =
     (if is_first_frame_raw anim
      then map_faulty (quantize_vertex ops anim) (first_frame_raw anim)
      else Inr (first_frame_quantized anim))"

definition read_delta :: "u32 list \<Rightarrow> u64 \<Rightarrow> u8 \<Rightarrow> fault + (s32 \<times> u64)" where
  "read_delta stream cursor w =
     c_bind (get_bits stream cursor w) (\<lambda>(v, cursor').
     c_bind (sign_extend v w) (\<lambda>d. Inr (d, cursor')))"

definition wrap_add :: "u8 \<Rightarrow> s32 \<Rightarrow> u8" where
  "wrap_add c d = word_of_int ((uint c + sint d) mod 256)"

definition vertex_deltas ::
  "u32 list \<Rightarrow> u64 \<Rightarrow> u8 \<times> u8 \<times> u8 \<Rightarrow> vertex_u8 \<Rightarrow> fault + (u64 \<times> vertex_u8)" where
  "vertex_deltas stream cursor w v =
     (case w of (wx, wy, wz) \<Rightarrow>
     c_bind (read_delta stream cursor wx) (\<lambda>(dx, c1).
     c_bind (read_delta stream c1 wy) (\<lambda>(dy, c2).
     c_bind (read_delta stream c2 wz) (\<lambda>(dz, c3).
       Inr (c3, \<lparr>u8_x = wrap_add (u8_x v) dx,
                  u8_y = wrap_add (u8_y v) dy,
                  u8_z = wrap_add (u8_z v) dz\<rparr>)))))"

fun replay_frame ::
  "u32 list \<Rightarrow> u64 \<Rightarrow> ((u8 \<times> u8 \<times> u8) \<times> vertex_u8) list \<Rightarrow> fault + (u64 \<times> vertex_u8 list)" where
  "replay_frame stream cursor [] = Inr (cursor, [])"
| "replay_frame stream cursor ((w, v) # rest) =
     c_bind (vertex_deltas stream cursor w v) (\<lambda>(cursor', v').
     c_bind (replay_frame stream cursor' rest) (\<lambda>(cursor'', vs'). Inr (cursor'', v' # vs')))"

fun replay_frames ::
  "u32 list \<Rightarrow> (u8 \<times> u8 \<times> u8) list \<Rightarrow> nat \<Rightarrow> u64 \<times> vertex_u8 list \<Rightarrow> fault + (u64 \<times> vertex_u8 list)" where
  "replay_frames stream ws 0 st = Inr st"
| "replay_frames stream ws (Suc k) st =
     c_bind (replay_frame stream (fst st) (zip ws (snd st))) (replay_frames stream ws k)"

definition vertex_widths :: "'f rat_animation \<Rightarrow> (u8 \<times> u8 \<times> u8) list" where
  "vertex_widths anim = zip (bit_widths_x anim) (zip (bit_widths_y anim) (bit_widths_z anim))"

definition replay_from_base :: "'f float_ops \<Rightarrow> 'f rat_animation \<Rightarrow> u32 \<Rightarrow> fault + vertex_u8 list" where
  "replay_from_base ops anim target_frame =
     c_bind (base_frame_of ops anim) (\<lambda>base.
     c_bind (replay_frames (delta_stream anim) (vertex_widths anim) (unat target_frame) (0, base))
       (\<lambda>(cursor, vs). Inr vs))"

definition dequantize_vertex :: "'f float_ops \<Rightarrow> 'f rat_animation \<Rightarrow> vertex_u8 \<Rightarrow> 'f vector3" where
  "dequantize_vertex ops anim q =
     \<lparr>v3_x = dequantize ops (min_x anim) (f_sub ops (max_x anim) (min_x anim)) (u8_x q),
      v3_y = dequantize ops (min_y anim) (f_sub ops (max_y anim) (min_y anim)) (u8_y q),
      v3_z = dequantize ops (min_z anim) (f_sub ops (max_z anim) (min_z anim)) (u8_z q)\<rparr>"

subsection \<open>A concrete instance for examples\<close>

text \<open>
  \<open>exact_ops\<close> computes every float operation exactly, on the reals. On the values of the
  examples below (small integers and their quotients by 255) it is only used where binary32
  arithmetic is exact too, or where the result does not enter the statement. \<open>binary32_value\<close>
  is the value of a finite binary32 bit pattern (exponent field below 255).
\<close>

definition binary32_value :: "u32 \<Rightarrow> real" where
  "binary32_value w =
     (let sgn = (if bit w 31 then - 1 else 1);
          e = unat (drop_bit 23 w AND 0xFF);
          m = unat (w AND 0x7FFFFF)
      in if e = 0 then sgn * real m / 2 ^ 149
         else sgn * real (2 ^ 23 + m) * 2 ^ e / 2 ^ 150)"

definition exact_ops :: "real float_ops" where
  "exact_ops =
     \<lparr>f_add = (\<lambda>a b. a + b), f_sub = (\<lambda>a b. a - b), f_mul = (\<lambda>a b. a * b),
      f_div = (\<lambda>a b. a / b), f_255 = 255, f_is_zero = (\<lambda>a. a = 0),
      f_of_u8 = (\<lambda>q. real (unat q)),
      f_to_u8 = (\<lambda>a. if - 1 < a \<and> a < 256
                        then Some (word_of_int (if a < 0 then \<lceil>a\<rceil> else \<lfloor>a\<rfloor>))
                        else None),
      f_of_bits = binary32_value\<rparr>"

text \<open>
  The two-vertex, two-frame animation of the specification's end-to-end scenario: base frame
  \<open>(0,0,0)\<close> and \<open>(10,10,10)\<close>, four bits per delta, frame 1 adds \<open>(+1,+1,+1)\<close> to vertex 0 and
  \<open>(-1,-1,-1)\<close> to vertex 1. The six fields \<open>1,1,1,15,15,15\<close> fill the low 24 bits of one word.
\<close>

definition example_anim :: "real rat_animation" where
  "example_anim =
     \<lparr>num_vertices = 2, num_frames = 2,
      min_x = 0, min_y = 0, min_z = 0, max_x = 255, max_y = 255, max_z = 255,
      first_frame_quantized = [\<lparr>u8_x = 0, u8_y = 0, u8_z = 0\<rparr>, \<lparr>u8_x = 10, u8_y = 10, u8_z = 10\<rparr>],
      first_frame_raw = [], is_first_frame_raw = False,
      bit_widths_x = [4, 4], bit_widths_y = [4, 4], bit_widths_z = [4, 4],
      delta_stream = [0xFFF111], delta_stream_word_count = 1,
      mesh_data_filename = []\<rparr>"

definition example_model :: "real rat_model" where
  "example_model =
     \<lparr>animation = Some example_anim, mesh_data = None,
      decompressed_vertices_u8 = [\<lparr>u8_x = 7, u8_y = 7, u8_z = 7\<rparr>, \<lparr>u8_x = 8, u8_y = 8, u8_z = 8\<rparr>],
      current_frame_vertices = [\<lparr>v3_x = 1, v3_y = 2, v3_z = 3\<rparr>, \<lparr>v3_x = 4, v3_y = 5, v3_z = 6\<rparr>],
      current_frame = 0xFFFFFFFF, texture_id = 0, is_valid = True\<rparr>"

subsection \<open>Observations of a run\<close>

text \<open>
  \<open>decompressed_u8\<close> is the quantized vertex state \<^verbatim>\<open>decompress_frame\<close> leaves behind, and
  \<open>scratch_output\<close> both scratch buffers. \<open>one_more_frame\<close> runs the body of the loop over the
  frames once (the loop over the vertices at line 335) from a given cursor. \<open>frame_bits\<close> is the
  number of stream bits one frame takes, \<open>cursor_after anim k\<close> the cursor after \<open>k\<close> frames.
\<close>

definition frame_bits :: "'f rat_animation \<Rightarrow> nat" where
  "frame_bits anim =
     sum_list (map unat (bit_widths_x anim)) + sum_list (map unat (bit_widths_y anim)) +
     sum_list (map unat (bit_widths_z anim))"

definition cursor_after :: "'f rat_animation \<Rightarrow> nat \<Rightarrow> u64" where
  "cursor_after anim k = word_of_nat (k * frame_bits anim)"

definition decompressed_u8 :: "'f float_ops \<Rightarrow> 'f rat_model \<Rightarrow> u32 \<Rightarrow> (fault + vertex_u8 list) option" where
  "decompressed_u8 ops model frame_index =
     map_option (map_sum id decompressed_vertices_u8) (decompress_frame ops model frame_index)"

definition one_more_frame :: "'f rat_animation \<Rightarrow> u64 \<Rightarrow> vertex_u8 list \<Rightarrow> fault + vertex_u8 list" where
  "one_more_frame anim cursor vs = c_bind (delta_loop anim 0 (cursor, vs)) (\<lambda>(cursor', vs'). Inr vs')"

definition scratch_output :: "'f rat_model \<Rightarrow> vertex_u8 list \<times> 'f vector3 list" where
  "scratch_output model = (decompressed_vertices_u8 model, current_frame_vertices model)"

definition example_model_b :: "real rat_model" where
  "example_model_b =
     example_model
       \<lparr>decompressed_vertices_u8 := [\<lparr>u8_x = 200, u8_y = 0, u8_z = 255\<rparr>, \<lparr>u8_x = 1, u8_y = 2, u8_z = 3\<rparr>],
        current_frame_vertices := [\<lparr>v3_x = - 5, v3_y = 0, v3_z = 9\<rparr>, \<lparr>v3_x = 0, v3_y = 0, v3_z = 0\<rparr>],
        current_frame := 0\<rparr>"

text \<open>An animation with no vertex that records seven frames, loaded into a model.\<close>

definition no_vertex_anim :: "real rat_animation" where
  "no_vertex_anim =
     example_anim\<lparr>num_vertices := 0, num_frames := 7, first_frame_quantized := [],
                  bit_widths_x := [], bit_widths_y := [], bit_widths_z := [], delta_stream := [],
                  delta_stream_word_count := 0\<rparr>"

definition no_vertex_model :: "real rat_model" where
  "no_vertex_model =
     \<lparr>animation = Some no_vertex_anim, mesh_data = None, decompressed_vertices_u8 = [],
      current_frame_vertices = [], current_frame = 0, texture_id = 0, is_valid = True\<rparr>"

definition unloaded_model :: "real rat_model" where
  "unloaded_model = no_vertex_model\<lparr>animation := None, is_valid := False\<rparr>"

text \<open>
  A bounding box is degenerate when \<^verbatim>\<open>max - min\<close>, as the code computes it, is zero on some
  axis (for finite IEEE values: when \<^verbatim>\<open>max == min\<close>). \<open>flat_anim\<close> is a one-vertex animation
  with a raw base frame whose box has \<^verbatim>\<open>min_x == max_x\<close>.
\<close>

definition degenerate_box :: "'f float_ops \<Rightarrow> 'f rat_animation \<Rightarrow> bool" where
  "degenerate_box ops anim =
     (f_is_zero ops (f_sub ops (max_x anim) (min_x anim)) \<or>
      f_is_zero ops (f_sub ops (max_y anim) (min_y anim)) \<or>
      f_is_zero ops (f_sub ops (max_z anim) (min_z anim)))"

definition flat_anim :: "real rat_animation" where
  "flat_anim =
     \<lparr>num_vertices = 1, num_frames = 1,
      min_x = 3, min_y = 0, min_z = 0, max_x = 3, max_y = 255, max_z = 255,
      first_frame_quantized = [],
      first_frame_raw = [\<lparr>v3_x = 3, v3_y = 10, v3_z = 20\<rparr>], is_first_frame_raw = True,
      bit_widths_x = [0], bit_widths_y = [0], bit_widths_z = [0],
      delta_stream = [], delta_stream_word_count = 0,
      mesh_data_filename = []\<rparr>"

definition flat_model :: "real rat_model" where
  "flat_model =
     \<lparr>animation = Some flat_anim, mesh_data = None,
      decompressed_vertices_u8 = [\<lparr>u8_x = 0, u8_y = 0, u8_z = 0\<rparr>],
      current_frame_vertices = [\<lparr>v3_x = 0, v3_y = 0, v3_z = 0\<rparr>],
      current_frame = 0xFFFFFFFF, texture_id = 0, is_valid = True\<rparr>"

subsection \<open>The state of a model between calls\<close>

text \<open>
  What \<^verbatim>\<open>rat_model_create_from_chunk\<close> returns and \<^verbatim>\<open>rat_model_update\<close> keeps: the model is
  valid, its animation is loaded with scratch buffers of \<^verbatim>\<open>num_vertices\<close> elements, the stored
  frame index is below the frame count (or 0 when there is no frame), and the buffers hold the
  stored frame, that is, decompressing it once more changes nothing.
\<close>

definition materialized :: "'f float_ops \<Rightarrow> 'f rat_model \<Rightarrow> bool" where
  "materialized ops model =
     (is_valid model \<and>
      (case animation model of
         None \<Rightarrow> False
       | Some anim \<Rightarrow> loaded_chunk anim \<and> scratch_allocated model anim) \<and>
      (let frame_count = rat_model_get_chunk_frame_count (Some model)
       in current_frame model < frame_count \<or> (frame_count = 0 \<and> current_frame model = 0)) \<and>
      decompress_frame ops model (current_frame model) = Some (Inr model))"

subsection \<open>Files and models for the loader examples\<close>

text \<open>
  An environment whose every path reads the same file and whose allocations succeed; two
  64-byte animation files and a 48-byte mesh file with a correct magic number whose declared
  filename does not fit (a length of 256; an offset of 63 with a length of 5 and no terminator
  before the end of the file); a file shorter than both headers and a header-sized file with a
  foreign magic number; the example animation and a mesh as files.
\<close>

definition file_env :: "u8 list \<Rightarrow> real env" where
  "file_env contents =
     \<lparr>file_read_into_buffer = (\<lambda>p. Some contents), alloc_fails = (\<lambda>a. False),
      fresh_u8 = (\<lambda>i. \<lparr>u8_x = 0, u8_y = 0, u8_z = 0\<rparr>),
      fresh_float = (\<lambda>i. \<lparr>v3_x = 0, v3_y = 0, v3_z = 0\<rparr>)\<rparr>"

definition rat3_bytes :: "u8 list" where
  "rat3_bytes = [0x52, 0x41, 0x54, 0x33]"

definition ratm_bytes :: "u8 list" where
  "ratm_bytes = [0x52, 0x41, 0x54, 0x4D]"

definition overlong_name_file :: "u8 list" where
  "overlong_name_file = rat3_bytes @ replicate 24 0 @ [0, 1, 0, 0] @ replicate 32 0"

definition name_past_end_file :: "u8 list" where
  "name_past_end_file = rat3_bytes @ replicate 20 0 @ [63, 0, 0, 0] @ [5, 0, 0, 0] @ replicate 31 0 @ [1]"

definition example_rat_file :: "u8 list" where
  "example_rat_file =
    [
     0x52, 0x41, 0x54, 0x33, 0x02, 0x00, 0x00, 0x00, 0x02, 0x00, 0x00, 0x00, 0x00, 0x00, 0x00, 0x00,
     0x58, 0x00, 0x00, 0x00, 0x46, 0x00, 0x00, 0x00, 0x4C, 0x00, 0x00, 0x00, 0x09, 0x00, 0x00, 0x00,
     0x00, 0x00, 0x00, 0x00, 0x00, 0x00, 0x00, 0x00, 0x00, 0x00, 0x00, 0x00, 0x00, 0x00, 0x7F, 0x43,
     0x00, 0x00, 0x7F, 0x43, 0x00, 0x00, 0x7F, 0x43, 0x00, 0x00, 0x00, 0x00, 0x00, 0x00, 0x00, 0x00,
     0x00, 0x00, 0x00, 0x0A, 0x0A, 0x0A, 0x04, 0x04, 0x04, 0x04, 0x04, 0x04, 0x6D, 0x2E, 0x72, 0x61,
     0x74, 0x6D, 0x65, 0x73, 0x68, 0x00, 0x00, 0x00, 0x11, 0xF1, 0xFF, 0x00]"

definition example_mesh_file :: "u8 list" where
  "example_mesh_file =
    [
     0x52, 0x41, 0x54, 0x4D, 0x02, 0x00, 0x00, 0x00, 0x00, 0x00, 0x00, 0x00, 0x30, 0x00, 0x00, 0x00,
     0x40, 0x00, 0x00, 0x00, 0x60, 0x00, 0x00, 0x00, 0x60, 0x00, 0x00, 0x00, 0x05, 0x00, 0x00, 0x00,
     0x00, 0x00, 0x00, 0x00, 0x00, 0x00, 0x00, 0x00, 0x00, 0x00, 0x00, 0x00, 0x00, 0x00, 0x00, 0x00,
     0x00, 0x00, 0x00, 0x00, 0x00, 0x00, 0x00, 0x00, 0x00, 0x00, 0x00, 0x00, 0x00, 0x00, 0x00, 0x00,
     0x00, 0x00, 0x00, 0x00, 0x00, 0x00, 0x00, 0x00, 0x00, 0x00, 0x00, 0x00, 0x00, 0x00, 0x00, 0x00,
     0x00, 0x00, 0x00, 0x00, 0x00, 0x00, 0x00, 0x00, 0x00, 0x00, 0x00, 0x00, 0x00, 0x00, 0x00, 0x00,
     0x74, 0x2E, 0x70, 0x6E, 0x67]"

definition example_env :: "real env" where
  "example_env =
     \<lparr>file_read_into_buffer =
        (\<lambda>p. if p = [0x61, 0x2F, 0x62, 0x2E, 0x72, 0x61, 0x74] then Some example_rat_file
             else if p = [0x61, 0x2F, 0x6D, 0x2E, 0x72, 0x61, 0x74, 0x6D, 0x65, 0x73, 0x68]
             then Some example_mesh_file
             else None),
      alloc_fails = (\<lambda>a. False),
      fresh_u8 = (\<lambda>i. \<lparr>u8_x = 7, u8_y = 7, u8_z = 7\<rparr>),
      fresh_float = (\<lambda>i. \<lparr>v3_x = 1, v3_y = 2, v3_z = 3\<rparr>)\<rparr>"

definition example_path :: "u8 list" where
  "example_path = [0x61, 0x2F, 0x62, 0x2E, 0x72, 0x61, 0x74]"

definition example_mesh :: "real rat_mesh_data" where
  "example_mesh =
     \<lparr>mesh_num_vertices = 2, mesh_num_indices = 0,
      uvs = [\<lparr>uv_u = 0, uv_v = 0\<rparr>, \<lparr>uv_u = 0, uv_v = 0\<rparr>],
      colors = [\<lparr>col_r = 0, col_g = 0, col_b = 0, col_a = 0\<rparr>,
                \<lparr>col_r = 0, col_g = 0, col_b = 0, col_a = 0\<rparr>],
      indices = [], texture_filename = [0x74, 0x2E, 0x70, 0x6E, 0x67]\<rparr>"

definition example_loaded_anim :: "real rat_animation" where
  "example_loaded_anim =
     example_anim\<lparr>mesh_data_filename := [0x6D, 0x2E, 0x72, 0x61, 0x74, 0x6D, 0x65, 0x73, 0x68]\<rparr>"

definition example_created :: "real rat_model" where
  "example_created =
     \<lparr>animation = Some example_loaded_anim, mesh_data = Some example_mesh,
      decompressed_vertices_u8 = [\<lparr>u8_x = 0, u8_y = 0, u8_z = 0\<rparr>, \<lparr>u8_x = 10, u8_y = 10, u8_z = 10\<rparr>],
      current_frame_vertices = [\<lparr>v3_x = 0, v3_y = 0, v3_z = 0\<rparr>, \<lparr>v3_x = 10, v3_y = 10, v3_z = 10\<rparr>],
      current_frame = 0, texture_id = 3, is_valid = True\<rparr>"

definition example_last :: "real rat_model" where
  "example_last =
     example_created
       \<lparr>decompressed_vertices_u8 := [\<lparr>u8_x = 1, u8_y = 1, u8_z = 1\<rparr>, \<lparr>u8_x = 9, u8_y = 9, u8_z = 9\<rparr>],
        current_frame_vertices := [\<lparr>v3_x = 1, v3_y = 1, v3_z = 1\<rparr>, \<lparr>v3_x = 9, v3_y = 9, v3_z = 9\<rparr>],
        current_frame := 1\<rparr>"

definition overlong_texture_file :: "u8 list" where
  "overlong_texture_file = ratm_bytes @ replicate 24 0 @ [0, 1, 0, 0] @ replicate 16 0"

definition short_file :: "u8 list" where
  "short_file = rat3_bytes @ [2, 0, 0, 0]"

definition foreign_file :: "u8 list" where
  "foreign_file = [0x45, 0x4D, 0x55, 0x20] @ replicate 60 0"

subsection \<open>The reconstruction as the specification words it\<close>

text \<open>
  The definitions named \<open>spec_\<dots>\<close> follow sections 4.1 and 4.3 of the specification and use
  no function of the code. The delta stream is a sequence of bits, bit 0 being the least
  significant bit of word 0, with no bit set past its last word. The field of \<open>w\<close> bits at cursor \<open>c\<close> is the number whose bit \<open>i\<close> is
  bit \<open>c + i\<close> of the stream; read as \<open>w\<close>-bit two's complement it is a delta (0 for a width of 0),
  and a delta is added to a component modulo 256. A frame takes the vertices in index order, x
  then y then z, from one cursor that advances by the width of every field; reconstruction
  applies the frames to the base frame with the cursor starting at 0.
\<close>

definition spec_stream_bit :: "u32 list \<Rightarrow> nat \<Rightarrow> bool" where
  "spec_stream_bit ws k = (k div 32 < length ws \<and> bit (ws ! (k div 32)) (k mod 32))"

definition spec_read_bits :: "u32 list \<Rightarrow> nat \<Rightarrow> nat \<Rightarrow> nat" where
  "spec_read_bits ws c w = (\<Sum>i \<leftarrow> [0..<w]. of_bool (spec_stream_bit ws (c + i)) * 2 ^ i)"

definition spec_sign_extend :: "nat \<Rightarrow> nat \<Rightarrow> int" where
  "spec_sign_extend w v = (if w = 0 then 0 else if 2 ^ (w - 1) \<le> v then int v - 2 ^ w else int v)"

definition spec_delta :: "u32 list \<Rightarrow> nat \<Rightarrow> nat \<Rightarrow> int" where
  "spec_delta ws c w = spec_sign_extend w (spec_read_bits ws c w)"

definition spec_add_wrapping :: "u8 \<Rightarrow> int \<Rightarrow> u8" where
  "spec_add_wrapping q d = word_of_int ((uint q + d) mod 256)"

definition spec_vertex :: "u32 list \<Rightarrow> nat \<Rightarrow> nat \<times> nat \<times> nat \<Rightarrow> vertex_u8 \<Rightarrow> nat \<times> vertex_u8" where
  "spec_vertex ws c w v =
     (case w of (wx, wy, wz) \<Rightarrow>
        (c + wx + wy + wz,
         \<lparr>u8_x = spec_add_wrapping (u8_x v) (spec_delta ws c wx),
          u8_y = spec_add_wrapping (u8_y v) (spec_delta ws (c + wx) wy),
          u8_z = spec_add_wrapping (u8_z v) (spec_delta ws (c + wx + wy) wz)\<rparr>))"

fun spec_frame ::
  "u32 list \<Rightarrow> nat \<Rightarrow> ((nat \<times> nat \<times> nat) \<times> vertex_u8) list \<Rightarrow> nat \<times> vertex_u8 list" where
  "spec_frame ws c [] = (c, [])"
| "spec_frame ws c ((w, v) # rest) =
     (let (c', v') = spec_vertex ws c w v;
          (c'', vs') = spec_frame ws c' rest
      in (c'', v' # vs'))"

fun spec_frames ::
  "u32 list \<Rightarrow> (nat \<times> nat \<times> nat) list \<Rightarrow> nat \<Rightarrow> nat \<times> vertex_u8 list \<Rightarrow> nat \<times> vertex_u8 list" where
  "spec_frames ws widths 0 st = st"
| "spec_frames ws widths (Suc k) st =
     spec_frames ws widths k (spec_frame ws (fst st) (zip widths (snd st)))"

definition spec_widths :: "'f rat_animation \<Rightarrow> (nat \<times> nat \<times> nat) list" where
  "spec_widths anim =
     zip (map unat (bit_widths_x anim))
       (zip (map unat (bit_widths_y anim)) (map unat (bit_widths_z anim)))"

text \<open>
  For a raw base frame the specification writes \<^verbatim>\<open>round(255 * (raw - min) / (max - min))\<close>,
  truncated to eight bits: \<open>spec_quantize_rounded\<close>, on the reals, and with it the base frame and
  the reconstruction of the specification. \<open>amended_quantize\<close> has the conversion of the code in
  the place of the rounding: the cast \<^verbatim>\<open>(uint8_t)\<close> of the same quotient, which truncates toward
  zero. It has no value when the box is degenerate on the axis or the truncated quotient is
  not in \<open>0..255\<close>. \<open>amended_base\<close> is the base frame with this quantization: the pre-quantized
  array, or every raw vertex quantized, when each of its components has a value.
\<close>

definition spec_quantize_rounded :: "real \<Rightarrow> real \<Rightarrow> real \<Rightarrow> u8" where
  "spec_quantize_rounded raw mn mx = word_of_int (round (255 * (raw - mn) / (mx - mn)))"

definition spec_base_rounded :: "real rat_animation \<Rightarrow> vertex_u8 list" where
  "spec_base_rounded anim =
     (if is_first_frame_raw anim
      then map (\<lambda>raw. \<lparr>u8_x = spec_quantize_rounded (v3_x raw) (min_x anim) (max_x anim),
                        u8_y = spec_quantize_rounded (v3_y raw) (min_y anim) (max_y anim),
                        u8_z = spec_quantize_rounded (v3_z raw) (min_z anim) (max_z anim)\<rparr>)
             (first_frame_raw anim)
      else first_frame_quantized anim)"

definition spec_reconstruct_rounded :: "real rat_animation \<Rightarrow> nat \<Rightarrow> vertex_u8 list" where
  "spec_reconstruct_rounded anim target_frame =
     snd (spec_frames (delta_stream anim) (spec_widths anim) target_frame (0, spec_base_rounded anim))"

definition amended_quantize :: "'f float_ops \<Rightarrow> 'f \<Rightarrow> 'f \<Rightarrow> 'f \<Rightarrow> u8 option" where
  "amended_quantize ops raw mn mx =
     (if f_is_zero ops (f_sub ops mx mn) then None
      else f_to_u8 ops (f_div ops (f_mul ops (f_255 ops) (f_sub ops raw mn)) (f_sub ops mx mn)))"

definition amended_quantize_vertex :: "'f float_ops \<Rightarrow> 'f rat_animation \<Rightarrow> 'f vector3 \<Rightarrow> vertex_u8 option" where
  "amended_quantize_vertex ops anim raw =
     (case (amended_quantize ops (v3_x raw) (min_x anim) (max_x anim),
            amended_quantize ops (v3_y raw) (min_y anim) (max_y anim),
            amended_quantize ops (v3_z raw) (min_z anim) (max_z anim)) of
        (Some qx, Some qy, Some qz) \<Rightarrow> Some \<lparr>u8_x = qx, u8_y = qy, u8_z = qz\<rparr>
      | _ \<Rightarrow> None)"

definition amended_base :: "'f float_ops \<Rightarrow> 'f rat_animation \<Rightarrow> vertex_u8 list option" where
  "amended_base ops anim =
     (if is_first_frame_raw anim
      then those (map (amended_quantize_vertex ops anim) (first_frame_raw anim))
      else Some (first_frame_quantized anim))"

text \<open>
  \<open>raw_anim\<close> is the animation of the end-to-end scenario with a raw base frame in the box
  \<open>[0, 256]\<close>: every product and quotient of its quantization is exact in binary32, and
  \<open>255 * 1 / 256\<close> is 0 when truncated and 1 when rounded. \<open>wide_anim\<close> is the example animation
  with a field of 32 bits for the x delta of vertex 0, which starts on a word boundary.
\<close>

definition raw_anim :: "real rat_animation" where
  "raw_anim =
     \<lparr>num_vertices = 2, num_frames = 2,
      min_x = 0, min_y = 0, min_z = 0, max_x = 256, max_y = 256, max_z = 256,
      first_frame_quantized = [],
      first_frame_raw = [\<lparr>v3_x = 1, v3_y = 128, v3_z = 200\<rparr>, \<lparr>v3_x = 64, v3_y = 2, v3_z = 256\<rparr>],
      is_first_frame_raw = True,
      bit_widths_x = [4, 4], bit_widths_y = [4, 4], bit_widths_z = [4, 4],
      delta_stream = [0xFFF111], delta_stream_word_count = 1,
      mesh_data_filename = []\<rparr>"

definition raw_model :: "real rat_model" where
  "raw_model =
     \<lparr>animation = Some raw_anim, mesh_data = None,
      decompressed_vertices_u8 = [\<lparr>u8_x = 7, u8_y = 7, u8_z = 7\<rparr>, \<lparr>u8_x = 8, u8_y = 8, u8_z = 8\<rparr>],
      current_frame_vertices = [\<lparr>v3_x = 1, v3_y = 2, v3_z = 3\<rparr>, \<lparr>v3_x = 4, v3_y = 5, v3_z = 6\<rparr>],
      current_frame = 0xFFFFFFFF, texture_id = 0, is_valid = True\<rparr>"

definition wide_anim :: "real rat_animation" where
  "wide_anim = example_anim\<lparr>bit_widths_x := [32, 4], delta_stream := [0x11, 0xFFF11],
                             delta_stream_word_count := 2\<rparr>"

definition wide_model :: "real rat_model" where
  "wide_model = example_model\<lparr>animation := Some wide_anim\<rparr>"

section \<open>Proofs\<close>

subsection \<open>The loops in closed form\<close>

lemma c_bind_Inl [simp]: "c_bind (Inl e) k = Inl e"
  by (simp add: c_bind_def)

lemma c_bind_Inr [simp]: "c_bind (Inr v) k = k v"
  by (simp add: c_bind_def)

lemma c_bind_assoc: "c_bind (c_bind m g) h = c_bind m (\<lambda>v. c_bind (g v) h)"
  by (cases m) simp_all

lemma c_bind_eq_Inr: "c_bind m k = Inr r \<longleftrightarrow> (\<exists>v. m = Inr v \<and> k v = Inr r)"
  by (cases m) simp_all

lemma update_at_in [simp]: "i < length a \<Longrightarrow> update_at a i g = Inr (a[i := g (a ! i)])"
  by (simp add: update_at_def)

lemma read_at_in [simp]: "i < length a \<Longrightarrow> read_at a i = Inr (a ! i)"
  by (simp add: read_at_def)

lemma vertex_u8_updates [simp]:
  "(v :: vertex_u8)\<lparr>u8_x := a, u8_y := b, u8_z := c\<rparr> = \<lparr>u8_x = a, u8_y = b, u8_z = c\<rparr>"
  by (cases v) simp

lemma quantize_step_eq:
  assumes "i < length (first_frame_raw anim)" "i < length prev"
  shows "quantize_step ops anim i prev =
           c_bind (quantize_vertex ops anim (first_frame_raw anim ! i)) (\<lambda>q. Inr (prev[i := q]))"
proof (cases "quantize ops (v3_x (first_frame_raw anim ! i)) (min_x anim) (max_x anim)")
  case (Inl e)
  with assms show ?thesis
    by (simp add: quantize_step_def quantize_vertex_def)
next
  case qx: (Inr qx)
  show ?thesis
  proof (cases "quantize ops (v3_y (first_frame_raw anim ! i)) (min_y anim) (max_y anim)")
    case (Inl e)
    with assms qx show ?thesis
      by (simp add: quantize_step_def quantize_vertex_def)
  next
    case qy: (Inr qy)
    show ?thesis
    proof (cases "quantize ops (v3_z (first_frame_raw anim ! i)) (min_z anim) (max_z anim)")
      case (Inl e)
      with assms qx qy show ?thesis
        by (simp add: quantize_step_def quantize_vertex_def)
    next
      case (Inr qz)
      with assms qx qy show ?thesis
        by (simp add: quantize_step_def quantize_vertex_def)
    qed
  qed
qed

lemma quantize_loop_eq:
  assumes "length (first_frame_raw anim) = unat (num_vertices anim)"
      and "length prev = unat (num_vertices anim)"
      and "i \<le> unat (num_vertices anim)"
  shows "quantize_loop ops anim i prev =
           c_bind (map_faulty (quantize_vertex ops anim) (drop i (first_frame_raw anim)))
             (\<lambda>qs. Inr (take i prev @ qs))"
  using assms
proof (induction ops anim i prev rule: quantize_loop.induct)
  case (1 ops anim i prev)
  show ?case
  proof (cases "i < unat (num_vertices anim)")
    case False
    with 1 show ?thesis
      by (subst quantize_loop.simps) simp
  next
    case True
    let ?raw = "first_frame_raw anim"
    have d: "drop i ?raw = ?raw ! i # drop (Suc i) ?raw"
      using True 1 by (simp add: Cons_nth_drop_Suc)
    show ?thesis
    proof (cases "quantize_vertex ops anim (?raw ! i)")
      case (Inl e)
      with True 1 show ?thesis
        by (subst quantize_loop.simps) (simp add: quantize_step_eq d)
    next
      case (Inr q)
      have step: "quantize_step ops anim i prev = Inr (prev[i := q])"
        using True 1 Inr by (simp add: quantize_step_eq)
      have "quantize_loop ops anim (Suc i) (prev[i := q]) =
              c_bind (map_faulty (quantize_vertex ops anim) (drop (Suc i) ?raw))
                (\<lambda>qs. Inr (take (Suc i) (prev[i := q]) @ qs))"
        using True 1 step by (intro "1.IH") simp_all
      moreover have "take (Suc i) (prev[i := q]) = take i prev @ [q]"
        using True 1 by (simp add: take_Suc_conv_app_nth)
      ultimately show ?thesis
        using True Inr step
        by (subst quantize_loop.simps) (simp add: d c_bind_assoc)
    qed
  qed
qed

lemma sint_low8: "take_bit 8 (sint (d :: 32 word)) = take_bit 8 (uint d)"
  by (simp add: sint_uint take_bit_signed_take_bit)

lemma add_delta_wraps: "add_delta c d = wrap_add c d"
proof -
  have "take_bit 8 (uint c + sint d) = take_bit 8 (uint c + uint d)"
    using sint_low8 [of d] by (metis take_bit_add)
  then have r: "(uint c + sint d) mod 256 = (uint c + uint d) mod 256"
    by (simp add: take_bit_eq_mod)
  have "uint (ucast ((ucast c :: 32 word) + d) :: 8 word) = ((uint c + uint d) mod 2 ^ 32) mod 2 ^ 8"
    by (simp add: unsigned_ucast_eq uint_word_ariths take_bit_eq_mod mod_add_left_eq)
  then have "uint (ucast ((ucast c :: 32 word) + d) :: 8 word) = (uint c + uint d) mod 256"
    by (simp add: mod_mod_cancel)
  moreover have "uint (word_of_int ((uint c + sint d) mod 256) :: 8 word) = (uint c + uint d) mod 256"
    by (simp add: uint_word_of_int r)
  ultimately show ?thesis
    by (simp add: word_uint_eq_iff add_delta_def wrap_add_def)
qed

lemma delta_step_eq:
  assumes "i < length (bit_widths_x anim)" "i < length (bit_widths_y anim)"
      and "i < length (bit_widths_z anim)" "i < length prev"
  shows "delta_step anim i (off, prev) =
           c_bind (vertex_deltas (delta_stream anim) off (vertex_widths anim ! i) (prev ! i))
             (\<lambda>(off', v'). Inr (off', prev[i := v']))"
proof -
  let ?s = "delta_stream anim"
  have w: "vertex_widths anim ! i = (bit_widths_x anim ! i, bit_widths_y anim ! i, bit_widths_z anim ! i)"
    using assms by (simp add: vertex_widths_def)
  show ?thesis
  proof (cases "read_delta ?s off (bit_widths_x anim ! i)")
    case (Inl e)
    then show ?thesis
      using assms
      by (auto simp: delta_step_def vertex_deltas_def w read_delta_def c_bind_def
               split: sum.splits prod.splits)
  next
    case x: (Inr rx)
    obtain dx c1 where rx: "rx = (dx, c1)" by (cases rx)
    show ?thesis
    proof (cases "read_delta ?s c1 (bit_widths_y anim ! i)")
      case (Inl e)
      then show ?thesis
        using assms x rx
        by (auto simp: delta_step_def vertex_deltas_def w read_delta_def c_bind_def
                 split: sum.splits prod.splits)
    next
      case y: (Inr ry)
      obtain dy c2 where ry: "ry = (dy, c2)" by (cases ry)
      show ?thesis
      proof (cases "read_delta ?s c2 (bit_widths_z anim ! i)")
        case (Inl e)
        then show ?thesis
          using assms x rx y ry
          by (auto simp: delta_step_def vertex_deltas_def w read_delta_def c_bind_def
                   split: sum.splits prod.splits)
      next
        case z: (Inr rz)
        obtain dz c3 where rz: "rz = (dz, c3)" by (cases rz)
        show ?thesis
          using assms x rx y ry z rz
          by (auto simp: delta_step_def vertex_deltas_def w read_delta_def c_bind_def
                   add_delta_wraps split: sum.splits prod.splits)
      qed
    qed
  qed
qed

lemma loaded_chunk_widths:
  "loaded_chunk anim \<Longrightarrow> length (vertex_widths anim) = unat (num_vertices anim)"
  by (simp add: loaded_chunk_def vertex_widths_def)

lemma replay_frame_length:
  "replay_frame stream off wvs = Inr (off', vs') \<Longrightarrow> length vs' = length wvs"
proof (induction wvs arbitrary: off off' vs')
  case Nil
  then show ?case by simp
next
  case (Cons a wvs)
  obtain w v where a: "a = (w, v)" by (cases a)
  from Cons.prems a obtain c1 v1 c2 vs2 where
    "replay_frame stream c1 wvs = Inr (c2, vs2)" "vs' = v1 # vs2"
    by (auto simp: c_bind_eq_Inr)
  with Cons.IH show ?case by auto
qed

lemma delta_loop_eq:
  assumes "loaded_chunk anim" "length prev = unat (num_vertices anim)"
      and "i \<le> unat (num_vertices anim)"
  shows "delta_loop anim i (off, prev) =
           c_bind (replay_frame (delta_stream anim) off (drop i (zip (vertex_widths anim) prev)))
             (\<lambda>(off', vs'). Inr (off', take i prev @ vs'))"
  using assms
proof (induction "unat (num_vertices anim) - i" arbitrary: i off prev)
  case 0
  then have "i = unat (num_vertices anim)" by simp
  with 0 show ?case
    by (subst delta_loop.simps) (simp add: loaded_chunk_widths)
next
  case (Suc k)
  let ?ws = "vertex_widths anim"
  let ?s = "delta_stream anim"
  from Suc have lt: "i < unat (num_vertices anim)" by simp
  have lw: "length ?ws = unat (num_vertices anim)"
    using Suc.prems by (simp add: loaded_chunk_widths)
  have d: "drop i (zip ?ws prev) = (?ws ! i, prev ! i) # drop (Suc i) (zip ?ws prev)"
    using lt lw Suc.prems by (simp add: Cons_nth_drop_Suc [symmetric])
  have step: "delta_step anim i (off, prev) =
                c_bind (vertex_deltas ?s off (?ws ! i) (prev ! i)) (\<lambda>(off', v'). Inr (off', prev[i := v']))"
    using lt Suc.prems by (intro delta_step_eq) (simp_all add: loaded_chunk_def)
  show ?case
  proof (cases "vertex_deltas ?s off (?ws ! i) (prev ! i)")
    case (Inl e)
    with lt step show ?thesis
      by (subst delta_loop.simps) (simp add: d)
  next
    case (Inr r)
    obtain off1 v1 where r: "r = (off1, v1)" by (cases r)
    have "delta_loop anim (Suc i) (off1, prev[i := v1]) =
            c_bind (replay_frame ?s off1 (drop (Suc i) (zip ?ws (prev[i := v1]))))
              (\<lambda>(off', vs'). Inr (off', take (Suc i) (prev[i := v1]) @ vs'))"
      using Suc.hyps(2) Suc.prems lt by (intro Suc.hyps(1)) simp_all
    moreover have "drop (Suc i) (zip ?ws (prev[i := v1])) = drop (Suc i) (zip ?ws prev)"
      by (simp add: drop_zip)
    moreover have "take (Suc i) (prev[i := v1]) = take i prev @ [v1]"
      using lt Suc.prems by (simp add: take_Suc_conv_app_nth)
    ultimately show ?thesis
      using lt step Inr r
      by (subst delta_loop.simps) (simp add: d c_bind_assoc split_def)
  qed
qed

lemma delta_loop_frame:
  assumes "loaded_chunk anim" "length prev = unat (num_vertices anim)"
  shows "delta_loop anim 0 (off, prev) = replay_frame (delta_stream anim) off (zip (vertex_widths anim) prev)"
proof -
  have "c_bind m (\<lambda>(off', vs'). Inr (off', vs')) = m" for m :: "fault + (u64 \<times> vertex_u8 list)"
    by (cases m) auto
  then show ?thesis
    using delta_loop_eq [OF assms, of 0 off] by simp
qed

lemma replay_frame_keeps_length:
  assumes "loaded_chunk anim" "length vs = unat (num_vertices anim)"
      and "replay_frame stream off (zip (vertex_widths anim) vs) = Inr (off', vs')"
  shows "length vs' = unat (num_vertices anim)"
  using replay_frame_length [OF assms(3)] assms(1,2) by (simp add: loaded_chunk_widths)

lemma frame_loop_eq:
  assumes "loaded_chunk anim" "length vs = unat (num_vertices anim)"
      and "unat frame_index < 2 ^ 32 - 1" "unat f \<le> unat frame_index + 1"
  shows "frame_loop anim frame_index f (off, vs) =
           Some (replay_frames (delta_stream anim) (vertex_widths anim) (unat frame_index + 1 - unat f) (off, vs))"
  using assms
proof (induction "unat frame_index + 1 - unat f" arbitrary: f off vs)
  case 0
  then have "\<not> f \<le> frame_index"
    by (simp add: word_le_nat_alt)
  with 0 show ?case
    by (subst frame_loop.simps) simp
next
  case (Suc k)
  let ?ws = "vertex_widths anim"
  let ?s = "delta_stream anim"
  from Suc have le: "f \<le> frame_index"
    by (simp add: word_le_nat_alt)
  have f1: "unat (f + 1) = unat f + 1"
    using Suc.prems Suc.hyps(2) by (simp add: unat_word_ariths)
  have k: "unat frame_index + 1 - unat (f + 1) = k"
    using Suc.hyps(2) f1 by simp
  have unf: "replay_frames ?s ?ws (unat frame_index + 1 - unat f) (off, vs) =
               c_bind (replay_frame ?s off (zip ?ws vs)) (replay_frames ?s ?ws k)"
    by (simp only: Suc.hyps(2) [symmetric] replay_frames.simps fst_conv snd_conv)
  have dl: "delta_loop anim 0 (off, vs) = replay_frame ?s off (zip ?ws vs)"
    using Suc.prems by (simp add: delta_loop_frame)
  show ?case
  proof (cases "replay_frame ?s off (zip ?ws vs)")
    case (Inl e)
    with le show ?thesis
      unfolding unf by (subst frame_loop.simps) (simp add: dl)
  next
    case (Inr r)
    obtain off1 vs1 where r: "r = (off1, vs1)" by (cases r)
    have l1: "length vs1 = unat (num_vertices anim)"
      using replay_frame_keeps_length Suc.prems Inr r by blast
    have "frame_loop anim frame_index (f + 1) (off1, vs1) =
            Some (replay_frames ?s ?ws (unat frame_index + 1 - unat (f + 1)) (off1, vs1))"
      using Suc.hyps(2) Suc.prems l1 f1 by (intro Suc.hyps(1)) simp_all
    with le Inr r show ?thesis
      unfolding unf k by (subst frame_loop.simps) (simp add: dl)
  qed
qed

lemma vector3_updates [simp]:
  "(v :: 'f vector3)\<lparr>v3_x := a, v3_y := b, v3_z := c\<rparr> = \<lparr>v3_x = a, v3_y = b, v3_z = c\<rparr>"
  by (cases v) simp

lemma dequantize_step_eq:
  assumes "i < length prev" "i < length cur"
  shows "dequantize_step ops anim prev i cur = Inr (cur[i := dequantize_vertex ops anim (prev ! i)])"
  using assms by (simp add: dequantize_step_def dequantize_vertex_def Let_def)

lemma dequantize_loop_eq:
  assumes "length prev = unat (num_vertices anim)" "length cur = unat (num_vertices anim)"
      and "i \<le> unat (num_vertices anim)"
  shows "dequantize_loop ops anim prev i cur =
           Inr (take i cur @ map (dequantize_vertex ops anim) (drop i prev))"
  using assms
proof (induction "unat (num_vertices anim) - i" arbitrary: i cur)
  case 0
  then show ?case
    by (subst dequantize_loop.simps) simp
next
  case (Suc k)
  from Suc have lt: "i < unat (num_vertices anim)" by simp
  let ?v = "dequantize_vertex ops anim (prev ! i)"
  have "dequantize_loop ops anim prev (Suc i) (cur[i := ?v]) =
          Inr (take (Suc i) (cur[i := ?v]) @ map (dequantize_vertex ops anim) (drop (Suc i) prev))"
    using Suc.hyps(2) Suc.prems lt by (intro Suc.hyps(1)) simp_all
  moreover have "take (Suc i) (cur[i := ?v]) = take i cur @ [?v]"
    using lt Suc.prems by (simp add: take_Suc_conv_app_nth)
  moreover have "drop i prev = prev ! i # drop (Suc i) prev"
    using lt Suc.prems by (simp add: Cons_nth_drop_Suc)
  ultimately show ?case
    using lt Suc.prems
    by (subst dequantize_loop.simps) (simp add: dequantize_step_eq)
qed

lemma map_faulty_length: "map_faulty g as = Inr bs \<Longrightarrow> length bs = length as"
proof (induction as arbitrary: bs)
  case Nil
  then show ?case by simp
next
  case (Cons a as)
  then obtain b bs' where "map_faulty g as = Inr bs'" "bs = b # bs'"
    by (auto simp: c_bind_eq_Inr)
  with Cons.IH show ?case by auto
qed

lemma first_frame_eq:
  assumes "loaded_chunk anim" "length prev = unat (num_vertices anim)"
  shows "first_frame ops anim prev = base_frame_of ops anim"
proof (cases "is_first_frame_raw anim")
  case True
  with assms have l: "length (first_frame_raw anim) = unat (num_vertices anim)"
    by (simp add: loaded_chunk_def)
  have "c_bind m (\<lambda>qs. Inr qs) = m" for m :: "fault + vertex_u8 list"
    by (cases m) auto
  with True show ?thesis
    using quantize_loop_eq [OF l assms(2), of 0 ops]
    by (simp add: first_frame_def base_frame_of_def)
next
  case False
  with assms show ?thesis
    by (simp add: first_frame_def base_frame_of_def memcpy_elems_def loaded_chunk_def)
qed

lemma base_frame_of_length:
  assumes "loaded_chunk anim" "base_frame_of ops anim = Inr base"
  shows "length base = unat (num_vertices anim)"
  using assms
  by (auto simp: base_frame_of_def loaded_chunk_def split: if_splits dest: map_faulty_length)

lemma replay_frames_length:
  assumes "loaded_chunk anim" "length vs = unat (num_vertices anim)"
      and "replay_frames stream (vertex_widths anim) k (off, vs) = Inr (off', vs')"
  shows "length vs' = unat (num_vertices anim)"
  using assms
proof (induction k arbitrary: off vs)
  case 0
  then show ?case by simp
next
  case (Suc k)
  from Suc.prems(3) obtain off1 vs1 where
    s1: "replay_frame stream off (zip (vertex_widths anim) vs) = Inr (off1, vs1)"
    and s2: "replay_frames stream (vertex_widths anim) k (off1, vs1) = Inr (off', vs')"
    by (auto simp: c_bind_eq_Inr)
  have "length vs1 = unat (num_vertices anim)"
    using replay_frame_keeps_length [OF Suc.prems(1,2) s1] .
  then show ?case
    using Suc.IH [OF Suc.prems(1) _ s2] by simp
qed

lemma decompress_frame_eq:
  assumes "animation model = Some anim" "loaded_chunk anim" "scratch_allocated model anim"
      and "unat frame_index < 2 ^ 32 - 1"
  shows "decompress_frame ops model frame_index =
           Some (c_bind (base_frame_of ops anim) (\<lambda>base.
                 c_bind (replay_frames (delta_stream anim) (vertex_widths anim) (unat frame_index) (0, base))
                   (\<lambda>(cursor, vs).
                      Inr (model\<lparr>decompressed_vertices_u8 := vs,
                                 current_frame_vertices := map (dequantize_vertex ops anim) vs\<rparr>))))"
proof -
  let ?prev = "decompressed_vertices_u8 model"
  let ?cur = "current_frame_vertices model"
  have lp: "length ?prev = unat (num_vertices anim)" and lc: "length ?cur = unat (num_vertices anim)"
    using assms(3) by (simp_all add: scratch_allocated_def)
  have ff: "first_frame ops anim ?prev = base_frame_of ops anim"
    using assms(2) lp by (rule first_frame_eq)
  have deq: "dequantize_loop ops anim vs 0 ?cur = Inr (map (dequantize_vertex ops anim) vs)"
    if "length vs = unat (num_vertices anim)" for vs
    using dequantize_loop_eq [OF that lc, of 0 ops] by simp
  show ?thesis
  proof (cases "base_frame_of ops anim")
    case (Inl e)
    with assms(1) ff show ?thesis
      by (simp add: decompress_frame_def)
  next
    case (Inr base)
    have lb: "length base = unat (num_vertices anim)"
      using assms(2) Inr by (rule base_frame_of_length)
    show ?thesis
    proof (cases "frame_index = 0")
      case True
      with assms(1) ff Inr lb show ?thesis
        by (simp add: decompress_frame_def deq)
    next
      case False
      have fl: "frame_loop anim frame_index 1 (0, base) =
                  Some (replay_frames (delta_stream anim) (vertex_widths anim) (unat frame_index) (0, base))"
        using frame_loop_eq [OF assms(2) lb assms(4), of 1 0] by simp
      show ?thesis
      proof (cases "replay_frames (delta_stream anim) (vertex_widths anim) (unat frame_index) (0, base)")
        case (Inl e)
        with assms(1) ff Inr False fl show ?thesis
          by (simp add: decompress_frame_def)
      next
        case r: (Inr r)
        obtain off vs where rr: "r = (off, vs)" by (cases r)
        have "length vs = unat (num_vertices anim)"
          using replay_frames_length [OF assms(2) lb] r rr by blast
        with assms(1) ff Inr False fl r rr show ?thesis
          by (simp add: decompress_frame_def deq)
      qed
    qed
  qed
qed

lemma map_sum_c_bind: "map_sum id g (c_bind m k) = c_bind m (\<lambda>v. map_sum id g (k v))"
  by (cases m) simp_all

subsection \<open>The example animation\<close>

lemma example_loaded: "loaded_chunk example_anim"
  by (simp add: loaded_chunk_def example_anim_def)

lemma example_allocated: "scratch_allocated example_model example_anim"
  by (simp add: scratch_allocated_def example_model_def example_anim_def)

lemma example_animation: "animation example_model = Some example_anim"
  by (simp add: example_model_def)

lemma example_frame1:
  "replay_from_base exact_ops example_anim 1 =
     Inr [\<lparr>u8_x = 1, u8_y = 1, u8_z = 1\<rparr>, \<lparr>u8_x = 9, u8_y = 9, u8_z = 9\<rparr>]"
  by code_simp

subsection \<open>Cursor positions, and runs from different scratch states\<close>

lemma get_bits_cursor: "get_bits data off w = Inr (v, off') \<Longrightarrow> off' = off + ucast w"
  by (auto simp: get_bits_def Let_def c_bind_eq_Inr split: if_splits)

lemma read_delta_cursor: "read_delta s off w = Inr (d, off') \<Longrightarrow> off' = off + ucast w"
  by (auto simp: read_delta_def c_bind_eq_Inr dest: get_bits_cursor)

lemma ucast_u8_u64: "(ucast (w :: u8) :: u64) = word_of_nat (unat w)"
  by simp

lemma vertex_deltas_cursor:
  assumes "vertex_deltas s off (wx, wy, wz) v = Inr (off', v')"
  shows "off' = off + word_of_nat (unat wx + unat wy + unat wz)"
proof -
  from assms obtain dx c1 dy c2 dz where
    "read_delta s off wx = Inr (dx, c1)" "read_delta s c1 wy = Inr (dy, c2)"
    "read_delta s c2 wz = Inr (dz, off')"
    by (auto simp: vertex_deltas_def c_bind_eq_Inr)
  then have "off' = off + ucast wx + ucast wy + ucast wz"
    by (auto dest!: read_delta_cursor)
  then show ?thesis by (simp add: add.assoc)
qed

lemma replay_frame_cursor:
  "replay_frame s off wvs = Inr (off', vs') \<Longrightarrow>
     off' = off + word_of_nat (sum_list (map (\<lambda>((wx, wy, wz), v). unat wx + unat wy + unat wz) wvs))"
proof (induction wvs arbitrary: off off' vs')
  case Nil
  then show ?case by simp
next
  case (Cons a wvs)
  obtain wx wy wz v where a: "a = ((wx, wy, wz), v)" by (cases a) auto
  from Cons.prems a obtain c1 v1 vs2 where
    s1: "vertex_deltas s off (wx, wy, wz) v = Inr (c1, v1)"
    and s2: "replay_frame s c1 wvs = Inr (off', vs2)"
    by (auto simp: c_bind_eq_Inr)
  from vertex_deltas_cursor [OF s1] Cons.IH [OF s2] a show ?case
    by (simp add: add.assoc)
qed

lemma sum_widths_zip:
  assumes "length xs = n" "length ys = n" "length zs = n" "length vs = n"
  shows "sum_list (map (\<lambda>((wx, wy, wz), v). unat wx + unat wy + unat wz) (zip (zip xs (zip ys zs)) vs))
           = sum_list (map unat xs) + sum_list (map unat ys) + sum_list (map unat (zs :: u8 list))"
  using assms
proof (induction xs arbitrary: n ys zs vs)
  case Nil
  then show ?case by simp
next
  case (Cons x xs)
  then obtain y ys' z zs' v vs' where "ys = y # ys'" "zs = z # zs'" "vs = v # vs'"
    by (cases ys; cases zs; cases vs) auto
  with Cons show ?case by auto
qed

lemma replay_frame_cursor_chunk:
  assumes "loaded_chunk anim" "length vs = unat (num_vertices anim)"
      and "replay_frame s off (zip (vertex_widths anim) vs) = Inr (off', vs')"
  shows "off' = off + word_of_nat (frame_bits anim)"
  using replay_frame_cursor [OF assms(3)] assms(1,2)
  by (simp add: vertex_widths_def frame_bits_def loaded_chunk_def sum_widths_zip)

lemma replay_frames_snoc:
  "replay_frames s ws (Suc k) st =
     c_bind (replay_frames s ws k st) (\<lambda>st'. replay_frame s (fst st') (zip ws (snd st')))"
proof (induction k arbitrary: st)
  case 0
  show ?case
    by (cases "replay_frame s (fst st) (zip ws (snd st))") simp_all
next
  case (Suc k)
  have ih: "replay_frames s ws (Suc k) =
              (\<lambda>st1. c_bind (replay_frames s ws k st1) (\<lambda>st'. replay_frame s (fst st') (zip ws (snd st'))))"
    by (rule ext) (rule Suc.IH)
  have "replay_frames s ws (Suc (Suc k)) st =
          c_bind (replay_frame s (fst st) (zip ws (snd st))) (replay_frames s ws (Suc k))"
    by simp
  also have "\<dots> = c_bind (replay_frame s (fst st) (zip ws (snd st)))
                      (\<lambda>st1. c_bind (replay_frames s ws k st1) (\<lambda>st'. replay_frame s (fst st') (zip ws (snd st'))))"
    by (simp only: ih)
  also have "\<dots> = c_bind (replay_frames s ws (Suc k) st) (\<lambda>st'. replay_frame s (fst st') (zip ws (snd st')))"
    by (simp add: c_bind_assoc)
  finally show ?case .
qed

lemma replay_frames_cursor:
  assumes "loaded_chunk anim" "length vs = unat (num_vertices anim)"
      and "replay_frames s (vertex_widths anim) k (off, vs) = Inr (off', vs')"
  shows "off' = off + word_of_nat (k * frame_bits anim)"
  using assms
proof (induction k arbitrary: off vs)
  case 0
  then show ?case by simp
next
  case (Suc k)
  from Suc.prems(3) obtain off1 vs1 where
    s1: "replay_frame s off (zip (vertex_widths anim) vs) = Inr (off1, vs1)"
    and s2: "replay_frames s (vertex_widths anim) k (off1, vs1) = Inr (off', vs')"
    by (auto simp: c_bind_eq_Inr)
  have l1: "length vs1 = unat (num_vertices anim)"
    using replay_frame_keeps_length [OF Suc.prems(1,2) s1] .
  have "off1 = off + word_of_nat (frame_bits anim)"
    using replay_frame_cursor_chunk [OF Suc.prems(1,2) s1] .
  moreover have "off' = off1 + word_of_nat (k * frame_bits anim)"
    using Suc.IH [OF Suc.prems(1) l1 s2] .
  ultimately show ?case
    by (simp add: add.assoc add.commute)
qed

lemma example_frame0: "decompressed_u8 exact_ops example_model 0 = Some (Inr (first_frame_quantized example_anim))"
  by code_simp

lemma example_step:
  "one_more_frame example_anim (cursor_after example_anim 0) (first_frame_quantized example_anim) =
     Inr [\<lparr>u8_x = 1, u8_y = 1, u8_z = 1\<rparr>, \<lparr>u8_x = 9, u8_y = 9, u8_z = 9\<rparr>]"
  by code_simp

lemma dequantize_loop_indep:
  assumes "length cur1 = unat (num_vertices anim)" "length cur2 = unat (num_vertices anim)"
      and "i \<le> unat (num_vertices anim)" "take i cur1 = take i cur2"
  shows "dequantize_loop ops anim vs i cur1 = dequantize_loop ops anim vs i cur2"
  using assms
proof (induction "unat (num_vertices anim) - i" arbitrary: i cur1 cur2)
  case 0
  then have "cur1 = cur2" by simp
  then show ?case by simp
next
  case (Suc k)
  from Suc have lt: "i < unat (num_vertices anim)" by simp
  show ?case
  proof (cases "i < length vs")
    case False
    with lt show ?thesis
      by (subst (1 2) dequantize_loop.simps) (simp add: dequantize_step_def read_at_def Let_def)
  next
    case True
    let ?v = "dequantize_vertex ops anim (vs ! i)"
    have "take (Suc i) (cur1[i := ?v]) = take (Suc i) (cur2[i := ?v])"
      using lt Suc.prems by (simp add: take_Suc_conv_app_nth)
    then have "dequantize_loop ops anim vs (Suc i) (cur1[i := ?v]) =
                 dequantize_loop ops anim vs (Suc i) (cur2[i := ?v])"
      using Suc.hyps(2) Suc.prems lt by (intro Suc.hyps(1)) simp_all
    with True lt Suc.prems show ?thesis
      by (subst (1 2) dequantize_loop.simps) (simp add: dequantize_step_eq)
  qed
qed

lemma decompress_frame_indep:
  assumes "animation m1 = Some anim" "animation m2 = Some anim" "loaded_chunk anim"
      and "scratch_allocated m1 anim" "scratch_allocated m2 anim"
  shows "map_option (map_sum id scratch_output) (decompress_frame ops m1 f) =
         map_option (map_sum id scratch_output) (decompress_frame ops m2 f)"
proof -
  have l: "length (decompressed_vertices_u8 m1) = unat (num_vertices anim)"
          "length (decompressed_vertices_u8 m2) = unat (num_vertices anim)"
          "length (current_frame_vertices m1) = unat (num_vertices anim)"
          "length (current_frame_vertices m2) = unat (num_vertices anim)"
    using assms(4,5) by (simp_all add: scratch_allocated_def)
  have ff: "first_frame ops anim (decompressed_vertices_u8 m1) = base_frame_of ops anim"
           "first_frame ops anim (decompressed_vertices_u8 m2) = base_frame_of ops anim"
    using assms(3) l by (simp_all add: first_frame_eq)
  have deq: "dequantize_loop ops anim vs 0 (current_frame_vertices m1) =
             dequantize_loop ops anim vs 0 (current_frame_vertices m2)" for vs
    using l by (intro dequantize_loop_indep) simp_all
  have fin: "map_sum id scratch_output
               (c_bind (dequantize_loop ops anim vs 0 (current_frame_vertices m1))
                  (\<lambda>cur. Inr (m1\<lparr>decompressed_vertices_u8 := vs, current_frame_vertices := cur\<rparr>))) =
             map_sum id scratch_output
               (c_bind (dequantize_loop ops anim vs 0 (current_frame_vertices m2))
                  (\<lambda>cur. Inr (m2\<lparr>decompressed_vertices_u8 := vs, current_frame_vertices := cur\<rparr>)))" for vs
    by (simp add: deq map_sum_c_bind scratch_output_def)
  show ?thesis
    using assms(1,2)
    by (auto simp: decompress_frame_def ff fin split: sum.splits option.splits)
qed

lemma frame_loop_length:
  assumes "frame_loop anim frame_index f st = Some r"
  shows "loaded_chunk anim \<longrightarrow> length (snd st) = unat (num_vertices anim) \<longrightarrow>
           (\<forall>st'. r = Inr st' \<longrightarrow> length (snd st') = unat (num_vertices anim))"
proof (rule frame_loop.raw_induct
    [where P = "\<lambda>anim frame_index f st r. loaded_chunk anim \<longrightarrow>
                  length (snd st) = unat (num_vertices anim) \<longrightarrow>
                  (\<forall>st'. r = Inr st' \<longrightarrow> length (snd st') = unat (num_vertices anim))",
     OF _ assms], goal_cases)
  case (1 frame_loop' anim frame_index f st r)
  show ?case
  proof (intro impI allI)
    fix st'
    assume lc: "loaded_chunk anim" and l: "length (snd st) = unat (num_vertices anim)"
      and r: "r = Inr st'"
    obtain off vs where st: "st = (off, vs)" by (cases st)
    show "length (snd st') = unat (num_vertices anim)"
    proof (cases "f \<le> frame_index")
      case False
      from 1(2) False have "Inr st = r" by simp
      with r have "st' = st" by simp
      with l show ?thesis by simp
    next
      case True
      have dl: "delta_loop anim 0 (off, vs) = replay_frame (delta_stream anim) off (zip (vertex_widths anim) vs)"
        using lc l unfolding st by (simp add: delta_loop_frame)
      show ?thesis
      proof (cases "delta_loop anim 0 (off, vs)")
        case (Inl e)
        with True 1(2) have "Inl e = r" unfolding st by simp
        with r show ?thesis by simp
      next
        case (Inr st1)
        have sf: "replay_frame (delta_stream anim) off (zip (vertex_widths anim) vs) = Inr (fst st1, snd st1)"
          using dl Inr by simp
        have lv: "length vs = unat (num_vertices anim)"
          using l unfolding st by simp
        have l1: "length (snd st1) = unat (num_vertices anim)"
          using lc lv sf by (rule replay_frame_keeps_length)
        have "frame_loop' anim frame_index (f + 1) st1 = Some r"
          using True Inr 1(2) unfolding st by simp
        from 1(1) [OF this] lc l1 r show ?thesis
          by blast
      qed
    qed
  qed
qed

lemma decompress_frame_result:
  assumes "animation model = Some anim" "loaded_chunk anim" "scratch_allocated model anim"
      and "decompress_frame ops model f = Some (Inr model')"
  shows "\<exists>vs cur. model' = model\<lparr>decompressed_vertices_u8 := vs, current_frame_vertices := cur\<rparr> \<and>
           length vs = unat (num_vertices anim) \<and> length cur = unat (num_vertices anim)"
proof -
  have lp: "length (decompressed_vertices_u8 model) = unat (num_vertices anim)"
    and lc: "length (current_frame_vertices model) = unat (num_vertices anim)"
    using assms(3) by (simp_all add: scratch_allocated_def)
  have ff: "first_frame ops anim (decompressed_vertices_u8 model) = base_frame_of ops anim"
    using assms(2) lp by (rule first_frame_eq)
  from assms(4) obtain base where base: "base_frame_of ops anim = Inr base"
    using assms(1) ff
    by (cases "base_frame_of ops anim") (auto simp: decompress_frame_def split: if_splits)
  have lb: "length base = unat (num_vertices anim)"
    using assms(2) base by (rule base_frame_of_length)
  obtain vs where vs: "length vs = unat (num_vertices anim)"
    and res: "c_bind (dequantize_loop ops anim vs 0 (current_frame_vertices model))
                (\<lambda>cur. Inr (model\<lparr>decompressed_vertices_u8 := vs, current_frame_vertices := cur\<rparr>))
              = Inr model'"
  proof (cases "f = 0")
    case True
    with assms(1,4) ff base lb that show ?thesis
      by (simp add: decompress_frame_def)
  next
    case False
    show ?thesis
    proof (cases "frame_loop anim f 1 (0, base)")
      case None
      with False assms(1,4) ff base show ?thesis
        by (simp add: decompress_frame_def)
    next
      case (Some r)
      show ?thesis
      proof (cases r)
        case (Inl e)
        with Some False assms(1,4) ff base show ?thesis
          by (simp add: decompress_frame_def)
      next
        case (Inr st')
        obtain off vs where st': "st' = (off, vs)" by (cases st')
        have "length vs = unat (num_vertices anim)"
          using frame_loop_length [OF Some] assms(2) lb Inr st' by simp
        with Some Inr st' False assms(1,4) ff base that show ?thesis
          by (simp add: decompress_frame_def)
      qed
    qed
  qed
  have "dequantize_loop ops anim vs 0 (current_frame_vertices model) =
          Inr (map (dequantize_vertex ops anim) vs)"
    using dequantize_loop_eq [OF vs lc, of 0 ops] by simp
  with res have "model' = model\<lparr>decompressed_vertices_u8 := vs,
                     current_frame_vertices := map (dequantize_vertex ops anim) vs\<rparr>"
    by simp
  with vs show ?thesis
    by (intro exI [of _ vs] exI [of _ "map (dequantize_vertex ops anim) vs"]) simp
qed

lemma decompress_frame_again:
  assumes "animation model = Some anim" "loaded_chunk anim" "scratch_allocated model anim"
      and "decompress_frame ops model f = Some (Inr model')"
  shows "decompress_frame ops model' f = Some (Inr model')"
proof -
  from decompress_frame_result [OF assms] obtain vs cur where
    m': "model' = model\<lparr>decompressed_vertices_u8 := vs, current_frame_vertices := cur\<rparr>"
    and l: "length vs = unat (num_vertices anim)" "length cur = unat (num_vertices anim)"
    by blast
  have a: "animation model' = Some anim"
    using assms(1) by (simp add: m')
  have sa: "scratch_allocated model' anim"
    using l by (simp add: m' scratch_allocated_def)
  have "map_option (map_sum id scratch_output) (decompress_frame ops model' f) =
        map_option (map_sum id scratch_output) (decompress_frame ops model f)"
    using a assms(1,2) sa assms(3) by (rule decompress_frame_indep)
  then have eq: "map_option (map_sum id scratch_output) (decompress_frame ops model' f) =
                   Some (Inr (scratch_output model'))"
    using assms(4) by simp
  obtain model'' where m'': "decompress_frame ops model' f = Some (Inr model'')"
    and out: "scratch_output model'' = scratch_output model'"
  proof (cases "decompress_frame ops model' f")
    case None
    with eq show ?thesis by simp
  next
    case (Some x)
    with eq that show ?thesis by (cases x) simp_all
  qed
  from decompress_frame_result [OF a assms(2) sa m''] obtain vs' cur' where
    "model'' = model'\<lparr>decompressed_vertices_u8 := vs', current_frame_vertices := cur'\<rparr>"
    by blast
  with out have "model'' = model'"
    by (simp add: scratch_output_def m')
  with m'' show ?thesis by simp
qed

lemma example_b_animation: "animation example_model_b = Some example_anim"
  by (simp add: example_model_b_def example_model_def)

lemma example_b_allocated: "scratch_allocated example_model_b example_anim"
  by (simp add: scratch_allocated_def example_model_b_def example_anim_def)

lemma example_output1:
  "map_option (map_sum id scratch_output) (decompress_frame exact_ops example_model 1) =
     Some (Inr ([\<lparr>u8_x = 1, u8_y = 1, u8_z = 1\<rparr>, \<lparr>u8_x = 9, u8_y = 9, u8_z = 9\<rparr>],
                [\<lparr>v3_x = 1, v3_y = 1, v3_z = 1\<rparr>, \<lparr>v3_x = 9, v3_y = 9, v3_z = 9\<rparr>]))"
proof -
  have "unat (1 :: u32) < 2 ^ 32 - 1" by simp
  note e = decompress_frame_eq [OF example_animation example_loaded example_allocated this, of exact_ops]
  show ?thesis
    unfolding e by code_simp
qed

subsection \<open>Where a division by zero can come from\<close>

lemma quantize_div0: "quantize ops raw mn mx = Inl DivisionByZero \<longleftrightarrow> f_is_zero ops (f_sub ops mx mn)"
  by (simp add: quantize_def Let_def split: option.splits)

lemma quantize_vertex_div0:
  "quantize_vertex ops anim raw = Inl DivisionByZero \<Longrightarrow> degenerate_box ops anim"
  by (auto simp: quantize_vertex_def degenerate_box_def c_bind_def quantize_div0 split: sum.splits)

lemma map_faulty_div0:
  "map_faulty (quantize_vertex ops anim) raws = Inl DivisionByZero \<Longrightarrow>
     degenerate_box ops anim \<and> raws \<noteq> []"
proof (induction raws)
  case Nil
  then show ?case by simp
next
  case (Cons r raws)
  then show ?case
    by (auto simp: c_bind_def split: sum.splits dest: quantize_vertex_div0)
qed

lemma base_frame_of_div0:
  assumes "loaded_chunk anim" "base_frame_of ops anim = Inl DivisionByZero"
  shows "is_first_frame_raw anim \<and> degenerate_box ops anim \<and> num_vertices anim \<noteq> 0"
proof -
  from assms(2) have raw: "is_first_frame_raw anim"
    by (auto simp: base_frame_of_def split: if_splits)
  with assms(2) have m: "map_faulty (quantize_vertex ops anim) (first_frame_raw anim) = Inl DivisionByZero"
    by (simp add: base_frame_of_def)
  from map_faulty_div0 [OF m] have "degenerate_box ops anim" "first_frame_raw anim \<noteq> []"
    by simp_all
  moreover from assms(1) raw have "length (first_frame_raw anim) = unat (num_vertices anim)"
    by (simp add: loaded_chunk_def)
  ultimately show ?thesis
    using raw by auto
qed

lemma get_bits_fault: "get_bits data off w = Inl e \<Longrightarrow> e \<noteq> DivisionByZero"
  by (auto simp: get_bits_def Let_def c_bind_def read_at_def shl32_def shr32_def
           split: if_splits sum.splits)

lemma sign_extend_fault: "sign_extend v w = Inl e \<Longrightarrow> e \<noteq> DivisionByZero"
  by (auto simp: sign_extend_def c_bind_def shl32_def split: if_splits sum.splits)

lemma read_delta_fault: "read_delta s off w = Inl e \<Longrightarrow> e \<noteq> DivisionByZero"
  by (auto simp: read_delta_def c_bind_def split: sum.splits prod.splits
           dest: get_bits_fault sign_extend_fault)

lemma vertex_deltas_fault: "vertex_deltas s off w v = Inl e \<Longrightarrow> e \<noteq> DivisionByZero"
  by (auto simp: vertex_deltas_def c_bind_def split: sum.splits prod.splits
           dest: read_delta_fault)

lemma replay_frame_fault: "replay_frame s off wvs = Inl e \<Longrightarrow> e \<noteq> DivisionByZero"
proof (induction wvs arbitrary: off)
  case Nil
  then show ?case by simp
next
  case (Cons a wvs)
  obtain w v where a: "a = (w, v)" by (cases a)
  from Cons.prems Cons.IH show ?case
    unfolding a
    by (fastforce simp: c_bind_def split: sum.splits prod.splits
          dest: vertex_deltas_fault)
qed

lemma frame_loop_fault:
  assumes "frame_loop anim frame_index f st = Some r"
  shows "loaded_chunk anim \<longrightarrow> length (snd st) = unat (num_vertices anim) \<longrightarrow>
           r \<noteq> Inl DivisionByZero"
proof (rule frame_loop.raw_induct
    [where P = "\<lambda>anim frame_index f st r. loaded_chunk anim \<longrightarrow>
                  length (snd st) = unat (num_vertices anim) \<longrightarrow> r \<noteq> Inl DivisionByZero",
     OF _ assms], goal_cases)
  case (1 frame_loop' anim frame_index f st r)
  show ?case
  proof (intro impI)
    assume lc: "loaded_chunk anim" and l: "length (snd st) = unat (num_vertices anim)"
    obtain off vs where st: "st = (off, vs)" by (cases st)
    show "r \<noteq> Inl DivisionByZero"
    proof (cases "f \<le> frame_index")
      case False
      from 1(2) False have "Inr st = r" by simp
      then show ?thesis by auto
    next
      case True
      have lv: "length vs = unat (num_vertices anim)"
        using l unfolding st by simp
      have dl: "delta_loop anim 0 (off, vs) = replay_frame (delta_stream anim) off (zip (vertex_widths anim) vs)"
        using lc lv by (simp add: delta_loop_frame)
      show ?thesis
      proof (cases "delta_loop anim 0 (off, vs)")
        case (Inl e)
        with True 1(2) have "Inl e = r" unfolding st by simp
        moreover have "e \<noteq> DivisionByZero"
          using Inl dl replay_frame_fault by metis
        ultimately show ?thesis by auto
      next
        case (Inr st1)
        have sf: "replay_frame (delta_stream anim) off (zip (vertex_widths anim) vs) = Inr (fst st1, snd st1)"
          using dl Inr by simp
        have l1: "length (snd st1) = unat (num_vertices anim)"
          using lc lv sf by (rule replay_frame_keeps_length)
        have "frame_loop' anim frame_index (f + 1) st1 = Some r"
          using True Inr 1(2) unfolding st by simp
        from 1(1) [OF this] lc l1 show ?thesis
          by blast
      qed
    qed
  qed
qed

lemma decompress_frame_div0:
  assumes "animation model = Some anim" "loaded_chunk anim" "scratch_allocated model anim"
      and "decompress_frame ops model f = Some (Inl DivisionByZero)"
  shows "base_frame_of ops anim = Inl DivisionByZero"
proof (rule ccontr)
  assume n: "base_frame_of ops anim \<noteq> Inl DivisionByZero"
  have lp: "length (decompressed_vertices_u8 model) = unat (num_vertices anim)"
    and lc: "length (current_frame_vertices model) = unat (num_vertices anim)"
    using assms(3) by (simp_all add: scratch_allocated_def)
  have ff: "first_frame ops anim (decompressed_vertices_u8 model) = base_frame_of ops anim"
    using assms(2) lp by (rule first_frame_eq)
  have deq: "dequantize_loop ops anim vs 0 (current_frame_vertices model) =
               Inr (map (dequantize_vertex ops anim) vs)"
    if "length vs = unat (num_vertices anim)" for vs
    using dequantize_loop_eq [OF that lc, of 0 ops] by simp
  show False
  proof (cases "base_frame_of ops anim")
    case (Inl e)
    with assms(1,4) ff n show ?thesis
      by (simp add: decompress_frame_def split: if_splits)
  next
    case (Inr base)
    have lb: "length base = unat (num_vertices anim)"
      using assms(2) Inr by (rule base_frame_of_length)
    show ?thesis
    proof (cases "f = 0")
      case True
      with assms(1,4) ff Inr lb show ?thesis
        by (simp add: decompress_frame_def deq)
    next
      case False
      show ?thesis
      proof (cases "frame_loop anim f 1 (0, base)")
        case None
        with False assms(1,4) ff Inr show ?thesis
          by (simp add: decompress_frame_def)
      next
        case (Some r)
        have nd: "r \<noteq> Inl DivisionByZero"
          using frame_loop_fault [OF Some] assms(2) lb by simp
        show ?thesis
        proof (cases r)
          case (Inl e)
          with Some False assms(1,4) ff Inr nd show ?thesis
            by (simp add: decompress_frame_def)
        next
          case r: (Inr st')
          have "length (snd st') = unat (num_vertices anim)"
            using frame_loop_length [OF Some] assms(2) lb r by simp
          with Some r False assms(1,4) ff Inr show ?thesis
            by (simp add: decompress_frame_def deq split_def)
        qed
      qed
    qed
  qed
qed

lemma decompress_frame_base_fault:
  assumes "animation model = Some anim" "loaded_chunk anim" "scratch_allocated model anim"
      and "base_frame_of ops anim = Inl e"
  shows "decompress_frame ops model f = Some (Inl e)"
proof -
  have "first_frame ops anim (decompressed_vertices_u8 model) = base_frame_of ops anim"
    using assms(2,3) by (intro first_frame_eq) (simp_all add: scratch_allocated_def)
  with assms(1,4) show ?thesis
    by (simp add: decompress_frame_def)
qed

lemma flat_loaded: "loaded_chunk flat_anim"
  by (simp add: loaded_chunk_def flat_anim_def)

lemma flat_allocated: "scratch_allocated flat_model flat_anim"
  by (simp add: scratch_allocated_def flat_model_def flat_anim_def)

lemma flat_animation: "animation flat_model = Some flat_anim"
  by (simp add: flat_model_def)

lemma flat_base: "base_frame_of exact_ops flat_anim = Inl DivisionByZero"
  by (simp add: base_frame_of_def flat_anim_def quantize_vertex_def quantize_def exact_ops_def)

lemma flat_degenerate: "max_x flat_anim = min_x flat_anim"
  by (simp add: flat_anim_def)

subsection \<open>The loaders\<close>

lemma lift_fault_simps [simp]:
  "lift_fault (Inl e) = Inl (Undefined e)" "lift_fault (Inr v) = Inr v"
  by (simp_all add: lift_fault_def)

lemma le32_rat3: "le32_at (rat3_bytes @ rest) 0 = RAT3_MAGIC"
  by (simp add: le32_at_def rat3_bytes_def RAT3_MAGIC_def)

lemma overlong_copy: "copy_filename overlong_name_file 0 256 = Inl OutOfBounds"
  by (simp add: copy_filename_def c_strncpy_def overlong_name_file_def rat3_bytes_def update_at_def)

lemma past_end_copy: "copy_filename name_past_end_file 63 5 = Inl OutOfBounds"
  by (simp add: copy_filename_def c_strncpy_def name_past_end_file_def rat3_bytes_def)

lemma overlong_header:
  "hdr_mesh_data_filename_offset (rat_header_of overlong_name_file) = 0"
  "hdr_mesh_data_filename_length (rat_header_of overlong_name_file) = 256"
  by (simp_all add: rat_header_of_def le32_at_def overlong_name_file_def rat3_bytes_def nth_append)

lemma past_end_header:
  "hdr_mesh_data_filename_offset (rat_header_of name_past_end_file) = 63"
  "hdr_mesh_data_filename_length (rat_header_of name_past_end_file) = 5"
  by (simp_all add: rat_header_of_def le32_at_def name_past_end_file_def rat3_bytes_def nth_append)

lemma load_rat_animation_copy_fault:
  assumes "file_read_into_buffer env path = Some buffer" "sizeof_RatHeader \<le> length buffer"
      and "hdr_magic (rat_header_of buffer) = RAT3_MAGIC" "\<not> alloc_fails env AllocAnimation"
      and "copy_filename buffer (unat (hdr_mesh_data_filename_offset (rat_header_of buffer)))
             (unat (hdr_mesh_data_filename_length (rat_header_of buffer))) = Inl e"
  shows "load_rat_animation ops env path = Inl (Undefined e)"
  using assms by (simp add: load_rat_animation_def Let_def)

lemma overlong_load:
  "load_rat_animation exact_ops (file_env overlong_name_file) [] = Inl (Undefined OutOfBounds)"
proof (rule load_rat_animation_copy_fault)
  show "file_read_into_buffer (file_env overlong_name_file) [] = Some overlong_name_file"
    by (simp add: file_env_def)
  show "sizeof_RatHeader \<le> length overlong_name_file"
    by (simp add: sizeof_RatHeader_def overlong_name_file_def rat3_bytes_def)
  show "hdr_magic (rat_header_of overlong_name_file) = RAT3_MAGIC"
    by (simp add: rat_header_of_def overlong_name_file_def le32_rat3)
  show "\<not> alloc_fails (file_env overlong_name_file) AllocAnimation"
    by (simp add: file_env_def)
  show "copy_filename overlong_name_file
          (unat (hdr_mesh_data_filename_offset (rat_header_of overlong_name_file)))
          (unat (hdr_mesh_data_filename_length (rat_header_of overlong_name_file))) = Inl OutOfBounds"
    by (simp add: overlong_header overlong_copy)
qed

lemma past_end_load:
  "load_rat_animation exact_ops (file_env name_past_end_file) [] = Inl (Undefined OutOfBounds)"
proof (rule load_rat_animation_copy_fault)
  show "file_read_into_buffer (file_env name_past_end_file) [] = Some name_past_end_file"
    by (simp add: file_env_def)
  show "sizeof_RatHeader \<le> length name_past_end_file"
    by (simp add: sizeof_RatHeader_def name_past_end_file_def rat3_bytes_def)
  show "hdr_magic (rat_header_of name_past_end_file) = RAT3_MAGIC"
    by (simp add: rat_header_of_def name_past_end_file_def le32_rat3)
  show "\<not> alloc_fails (file_env name_past_end_file) AllocAnimation"
    by (simp add: file_env_def)
  show "copy_filename name_past_end_file
          (unat (hdr_mesh_data_filename_offset (rat_header_of name_past_end_file)))
          (unat (hdr_mesh_data_filename_length (rat_header_of name_past_end_file))) = Inl OutOfBounds"
    by (simp add: past_end_header past_end_copy)
qed

lemma takeWhile_short: "length (takeWhile P xs) < length xs \<longleftrightarrow> (\<exists>x\<in>set xs. \<not> P x)"
proof
  assume "length (takeWhile P xs) < length xs"
  then have "takeWhile P xs \<noteq> xs" by (metis less_irrefl)
  then show "\<exists>x\<in>set xs. \<not> P x" by (simp add: takeWhile_eq_all_conv)
next
  assume "\<exists>x\<in>set xs. \<not> P x"
  then have "takeWhile P xs \<noteq> xs" by (simp add: takeWhile_eq_all_conv)
  moreover have "length (takeWhile P xs) \<le> length xs" by (rule length_takeWhile_le)
  ultimately show "length (takeWhile P xs) < length xs"
    by (metis le_neq_implies_less takeWhile_eq_take take_all)
qed

lemma takeWhile_nonzero_field:
  assumes "\<forall>b\<in>set s. b \<noteq> (0 :: u8)" "length s \<le> n" "n < 256"
  shows "takeWhile (\<lambda>b. b \<noteq> 0) ((s @ replicate (n - length s) 0 @ replicate (256 - n) 0)[n := 0]) = s"
proof (cases "length s < n")
  case True
  then obtain k where k: "n - length s = Suc k" by (cases "n - length s") auto
  have "(s @ replicate (n - length s) 0 @ replicate (256 - n) 0)[n := 0] =
          s @ (replicate (n - length s) 0 @ replicate (256 - n) 0)[n - length s := 0]"
    using assms(2) by (simp add: list_update_append)
  also have "\<dots> = s @ (0 # (replicate k 0 @ replicate (256 - n) 0)[k := 0])"
    unfolding k by simp
  finally show ?thesis
    using assms(1) by (simp add: takeWhile_append2)
next
  case False
  with assms(2) have e: "length s = n" by simp
  obtain k where k: "256 - n = Suc k" using assms(3) by (cases "256 - n") auto
  have "(s @ replicate (n - length s) 0 @ replicate (256 - n) 0)[n := 0] = s @ (0 # replicate k 0)"
    using e k by (simp add: list_update_append)
  then show ?thesis
    using assms(1) by (simp add: takeWhile_append2)
qed

lemma copy_filename_iff:
  "copy_filename buffer off n = Inr name \<longleftrightarrow>
     n < 256 \<and> off \<le> length buffer \<and>
     (off + n \<le> length buffer \<or> 0 \<in> set (take n (drop off buffer))) \<and>
     name = takeWhile (\<lambda>b. b \<noteq> 0) (take n (drop off buffer))"
proof -
  let ?src = "drop off buffer"
  let ?s = "takeWhile (\<lambda>b. b \<noteq> 0) (take n ?src)"
  have sn: "length ?s \<le> n"
    using length_takeWhile_le [of "\<lambda>b. b \<noteq> 0" "take n ?src"] by simp
  have nz: "\<forall>b\<in>set ?s. b \<noteq> 0"
    by (auto dest: set_takeWhileD)
  have rd: "\<not> (length ?s < n \<and> length ?src \<le> length ?s) \<longleftrightarrow>
              (off + n \<le> length buffer \<or> 0 \<in> set (take n ?src))" if "off \<le> length buffer"
  proof (cases "0 \<in> set (take n ?src)")
    case True
    then have "length ?s < length (take n ?src)"
      unfolding takeWhile_short by blast
    then have "length ?s < n" "length ?s < length ?src"
      by simp_all
    with True show ?thesis by auto
  next
    case False
    then have "?s = take n ?src"
      by (auto simp: takeWhile_eq_all_conv)
    then have "length ?s = length (take n ?src)"
      by (rule arg_cong)
    then have len: "length ?s = min n (length buffer - off)"
      by simp
    from False that show ?thesis
      unfolding len by auto
  qed
  show ?thesis
  proof (cases "n < 256 \<and> off \<le> length buffer \<and>
                (off + n \<le> length buffer \<or> 0 \<in> set (take n ?src))")
    case True
    then have ok: "\<not> (length ?s < n \<and> length ?src \<le> length ?s)"
      using rd by blast
    have "c_strncpy (replicate 256 0) buffer off n =
            Inr (?s @ replicate (n - length ?s) 0 @ replicate (256 - n) 0)"
      using True ok by (simp add: c_strncpy_def Let_def)
    moreover have "length (?s @ replicate (n - length ?s) 0 @ replicate (256 - n) 0) = 256"
      using sn True by simp
    ultimately have "copy_filename buffer off n =
        Inr (takeWhile (\<lambda>b. b \<noteq> 0) ((?s @ replicate (n - length ?s) 0 @ replicate (256 - n) 0)[n := 0]))"
      using True sn by (simp add: copy_filename_def update_at_def)
    also have "\<dots> = Inr ?s"
      using takeWhile_nonzero_field [OF nz sn] True by simp
    finally show ?thesis
      using True by auto
  next
    case False
    have "copy_filename buffer off n = Inl OutOfBounds"
    proof (cases "off \<le> length buffer")
      case off: True
      show ?thesis
      proof (cases "off + n \<le> length buffer \<or> 0 \<in> set (take n ?src)")
        case rdok: True
        with False off have big: "256 \<le> n" by simp
        have ok: "\<not> (length ?s < n \<and> length ?src \<le> length ?s)"
          using rd [OF off] rdok by blast
        show ?thesis
        proof (cases "n = 256")
          case True
          have "c_strncpy (replicate 256 0) buffer off n =
                  Inr (?s @ replicate (n - length ?s) 0 @ replicate (256 - n) 0)"
            using True off ok by (simp add: c_strncpy_def Let_def)
          moreover have "length (?s @ replicate (n - length ?s) 0 @ replicate (256 - n) 0) = 256"
            using sn True by simp
          ultimately show ?thesis
            using True sn by (simp add: copy_filename_def update_at_def)
        next
          case False
          with big have "256 < n" by simp
          then show ?thesis
            using off ok by (simp add: copy_filename_def c_strncpy_def Let_def)
        qed
      next
        case False
        then have c2: "length ?s < n \<and> length ?src \<le> length ?s"
          using rd [OF off] by blast
        have c1: "\<not> length buffer < off"
          using off by simp
        have "c_strncpy (replicate 256 0) buffer off n = Inl OutOfBounds"
          unfolding c_strncpy_def Let_def by (simp only: if_not_P [OF c1] if_P [OF c2])
        then show ?thesis
          by (simp add: copy_filename_def)
      qed
    next
      case False
      then show ?thesis
        by (simp add: copy_filename_def c_strncpy_def Let_def)
    qed
    with False show ?thesis by auto
  qed
qed

lemma example_rat_header:
  "rat_header_of example_rat_file =
     \<lparr>hdr_magic = RAT3_MAGIC, hdr_num_vertices = 2, hdr_num_frames = 2, hdr_num_indices = 0,
      hdr_delta_offset = 88, hdr_bit_widths_offset = 70, hdr_mesh_data_filename_offset = 76,
      hdr_mesh_data_filename_length = 9, hdr_min_x = 0, hdr_min_y = 0, hdr_min_z = 0,
      hdr_max_x = 0x437F0000, hdr_max_y = 0x437F0000, hdr_max_z = 0x437F0000,
      hdr_is_first_frame_raw = 0, hdr_raw_first_frame_offset = 0\<rparr>"
  by (simp add: rat_header_of_def le32_at_def example_rat_file_def RAT3_MAGIC_def)

lemma example_name: "copy_filename example_rat_file 76 9 = Inr [0x6D, 0x2E, 0x72, 0x61, 0x74, 0x6D, 0x65, 0x73, 0x68]"
  by (simp add: copy_filename_iff example_rat_file_def)

lemma b255: "binary32_value 0x437F0000 = 255"
  by (simp add: binary32_value_def Let_def)

lemma b0: "binary32_value 0 = 0"
  by (simp add: binary32_value_def Let_def)

lemma example_load_anim:
  "load_rat_animation exact_ops example_env example_path = Inr example_loaded_anim"
proof -
  have rd: "file_read_into_buffer example_env example_path = Some example_rat_file"
    by (simp add: example_env_def example_path_def)
  have len: "length example_rat_file = 92"
    by (simp add: example_rat_file_def)
  have al: "alloc_fails example_env a = False" for a
    by (simp add: example_env_def)
  have ff: "memcpy_from example_env AllocFirstFrameQuantized example_rat_file 64 6 = Inr [0, 0, 0, 10, 10, 10]"
    by (simp add: memcpy_from_def al len) (simp add: example_rat_file_def)
  have bx: "memcpy_from example_env AllocBitWidthsX example_rat_file 70 2 = Inr [4, 4]"
    by (simp add: memcpy_from_def al len) (simp add: example_rat_file_def)
  have by': "memcpy_from example_env AllocBitWidthsY example_rat_file 72 2 = Inr [4, 4]"
    by (simp add: memcpy_from_def al len) (simp add: example_rat_file_def)
  have bz: "memcpy_from example_env AllocBitWidthsZ example_rat_file 74 2 = Inr [4, 4]"
    by (simp add: memcpy_from_def al len) (simp add: example_rat_file_def)
  have ds: "memcpy_from example_env AllocDeltaStream example_rat_file 88 4 = Inr [0x11, 0xF1, 0xFF, 0]"
    by (simp add: memcpy_from_def al len) (simp add: example_rat_file_def)
  have up: "[0..<2] = [0, Suc 0]"
    by (simp add: upt_rec)
  show ?thesis
    by (simp add: load_rat_animation_def rd len sizeof_RatHeader_def example_rat_header al
          example_name ff bx by' bz ds up vertex_u8_at_def le32_at_def
          example_loaded_anim_def example_anim_def exact_ops_def b255 b0)
qed

lemma example_mesh_header:
  "rat_mesh_header_of example_mesh_file =
     \<lparr>mhdr_magic = RATM_MAGIC, mhdr_num_vertices = 2, mhdr_num_indices = 0,
      mhdr_uv_offset = 48, mhdr_color_offset = 64, mhdr_indices_offset = 96,
      mhdr_texture_filename_offset = 96, mhdr_texture_filename_length = 5\<rparr>"
  by (simp add: rat_mesh_header_of_def le32_at_def example_mesh_file_def RATM_MAGIC_def)

lemma example_texture_name:
  "copy_filename example_mesh_file 96 5 = Inr [0x74, 0x2E, 0x70, 0x6E, 0x67]"
  by (simp add: copy_filename_iff example_mesh_file_def)

lemma example_load_mesh:
  "load_rat_mesh_data exact_ops example_env (mesh_data_filename example_loaded_anim) [0x61, 0x2F]
     = Inr example_mesh"
proof -
  have rd: "file_read_into_buffer example_env
              (take 511 ([0x61, 0x2F] @ mesh_data_filename example_loaded_anim)) = Some example_mesh_file"
    by (simp add: example_env_def example_loaded_anim_def)
  have len: "length example_mesh_file = 101"
    by (simp add: example_mesh_file_def)
  have al: "alloc_fails example_env a = False" for a
    by (simp add: example_env_def)
  have uv: "memcpy_from example_env AllocUVs example_mesh_file 48 16 = Inr (replicate 16 0)"
    by (simp add: memcpy_from_def al len) (simp add: example_mesh_file_def numeral_eq_Suc)
  have co: "memcpy_from example_env AllocColors example_mesh_file 64 32 = Inr (replicate 32 0)"
    by (simp add: memcpy_from_def al len) (simp add: example_mesh_file_def numeral_eq_Suc)
  have ix: "memcpy_from example_env AllocIndices example_mesh_file 96 0 = Inr []"
    by (simp add: memcpy_from_def al len)
  have up: "[0..<2] = [0, Suc 0]"
    by (simp add: upt_rec)
  have z16: "le32_at (replicate 16 0) i = 0" if "i + 3 < 16" for i
    using that by (simp add: le32_at_def)
  have z32: "le32_at (replicate 32 0) i = 0" if "i + 3 < 32" for i
    using that by (simp add: le32_at_def)
  show ?thesis
    unfolding load_rat_mesh_data_def Let_def rd
    by (simp add: len sizeof_RatMeshHeader_def example_mesh_header al uv co ix up
          example_texture_name vertex_uv_at_def vertex_color_at_def z16 z32
          example_mesh_def exact_ops_def b0)
qed

lemma example_base_dir: "base_dir_of example_path = Inr [0x61, 0x2F]"
  by (simp add: base_dir_of_def example_path_def)

lemma memcpy_from_length: "memcpy_from env site buffer off n = Inr bs \<Longrightarrow> length bs = n"
  by (auto simp: memcpy_from_def split: if_splits)

lemma lift_fault_eq_Inr: "lift_fault r = Inr v \<longleftrightarrow> r = Inr v"
  by (cases r) simp_all

lemma load_rat_animation_loaded:
  assumes "load_rat_animation ops env path = Inr anim"
  shows "loaded_chunk anim"
proof -
  from assms obtain buffer where rd: "file_read_into_buffer env path = Some buffer"
    by (auto simp: load_rat_animation_def split: option.splits)
  let ?h = "rat_header_of buffer"
  let ?n = "unat (hdr_num_vertices ?h)"
  from assms rd obtain name quantized raw bwx bwy bwz ds where
    ff: "(if hdr_is_first_frame_raw ?h \<noteq> 0 then
            c_bind (memcpy_from env AllocFirstFrameRaw buffer
                      (unat (hdr_raw_first_frame_offset ?h)) (12 * ?n)) (\<lambda>bs.
              Inr ([], map (vector3_at ops bs) [0..<?n]))
          else
            c_bind (memcpy_from env AllocFirstFrameQuantized buffer sizeof_RatHeader (3 * ?n)) (\<lambda>bs.
              Inr (map (vertex_u8_at bs) [0..<?n], []))) = Inr (quantized, raw)"
    and bx: "memcpy_from env AllocBitWidthsX buffer (unat (hdr_bit_widths_offset ?h)) ?n = Inr bwx"
    and by': "memcpy_from env AllocBitWidthsY buffer (unat (hdr_bit_widths_offset ?h) + ?n) ?n = Inr bwy"
    and bz: "memcpy_from env AllocBitWidthsZ buffer (unat (hdr_bit_widths_offset ?h) + 2 * ?n) ?n = Inr bwz"
    and a: "num_vertices anim = hdr_num_vertices ?h" "first_frame_quantized anim = quantized"
           "first_frame_raw anim = raw" "is_first_frame_raw anim = (hdr_is_first_frame_raw ?h \<noteq> 0)"
           "bit_widths_x anim = bwx" "bit_widths_y anim = bwy" "bit_widths_z anim = bwz"
    by (auto simp: load_rat_animation_def Let_def c_bind_eq_Inr lift_fault_eq_Inr
             split: if_splits)
  have "length bwx = ?n" "length bwy = ?n" "length bwz = ?n"
    using bx by' bz by (auto dest: memcpy_from_length)
  moreover have "hdr_is_first_frame_raw ?h \<noteq> 0 \<Longrightarrow> length raw = ?n"
    using ff by (auto simp: c_bind_eq_Inr)
  moreover have "hdr_is_first_frame_raw ?h = 0 \<Longrightarrow> length quantized = ?n"
    using ff by (auto simp: c_bind_eq_Inr)
  ultimately show ?thesis
    using a by (simp add: loaded_chunk_def)
qed

lemma decompress_frame_current_frame:
  "decompress_frame ops (model\<lparr>current_frame := c\<rparr>) f =
     map_option (map_sum id (\<lambda>m. m\<lparr>current_frame := c\<rparr>)) (decompress_frame ops model f)"
  by (auto simp: decompress_frame_def map_sum_c_bind c_bind_def split: option.splits sum.splits)

lemma frame_count_after:
  assumes "animation model' = animation model"
  shows "rat_model_get_chunk_frame_count (Some model') = rat_model_get_chunk_frame_count (Some model)"
  using assms by (simp add: rat_model_get_chunk_frame_count_def)

lemma update_materializes:
  assumes "is_valid model" "animation model = Some anim" "loaded_chunk anim"
      and "scratch_allocated model anim" "f \<noteq> current_frame model"
      and "rat_model_update ops (Some model) f = Some (Inr (Some model'))"
  shows "materialized ops model'"
proof -
  let ?fc = "rat_model_get_chunk_frame_count (Some model)"
  let ?lf = "if f \<ge> ?fc then (if ?fc > 0 then ?fc - 1 else 0) else f"
  from assms(1,5,6) obtain m1 where
    d: "decompress_frame ops model ?lf = Some (Inr m1)" and m': "model' = m1\<lparr>current_frame := ?lf\<rparr>"
    by (auto simp: rat_model_update_def Let_def c_bind_eq_Inr split: if_splits)
  from decompress_frame_result [OF assms(2-4) d] obtain vs cur where
    m1: "m1 = model\<lparr>decompressed_vertices_u8 := vs, current_frame_vertices := cur\<rparr>"
    and l: "length vs = unat (num_vertices anim)" "length cur = unat (num_vertices anim)"
    by blast
  have again: "decompress_frame ops m1 ?lf = Some (Inr m1)"
    using assms(2-4) d by (rule decompress_frame_again)
  have an: "animation model' = Some anim" and iv: "is_valid model'"
    and cf: "current_frame model' = ?lf"
    using assms(1,2) by (simp_all add: m' m1)
  have sa: "scratch_allocated model' anim"
    using l by (simp add: m' m1 scratch_allocated_def)
  have fc: "rat_model_get_chunk_frame_count (Some model') = ?fc"
    using an assms(2) by (simp add: rat_model_get_chunk_frame_count_def)
  have cl: "?lf < ?fc \<or> (?fc = 0 \<and> ?lf = 0)"
  proof (cases "?fc = 0")
    case True
    then show ?thesis by simp
  next
    case False
    then have "unat (?fc - 1) = unat ?fc - 1" "0 < unat ?fc"
      by (simp_all add: unat_minus_one unat_gt_0)
    then have "?fc - 1 < ?fc" "0 < ?fc" by (simp_all add: word_less_nat_alt)
    then show ?thesis by (auto simp: not_le)
  qed
  have dd: "decompress_frame ops model' ?lf = Some (Inr model')"
    unfolding m' by (simp add: decompress_frame_current_frame again)
  show ?thesis
    unfolding materialized_def Let_def fc cf
    using iv an assms(3) sa cl dd by simp
qed

lemma update_keeps_materialized:
  assumes "materialized ops model"
      and "rat_model_update ops (Some model) f = Some (Inr (Some model'))"
  shows "materialized ops model'"
proof (cases "f = current_frame model")
  case True
  with assms(2) have "model' = model"
    by (simp add: rat_model_update_def)
  with assms(1) show ?thesis by simp
next
  case False
  from assms(1) obtain anim where "animation model = Some anim" "loaded_chunk anim"
    "scratch_allocated model anim" "is_valid model"
    by (auto simp: materialized_def split: option.splits)
  then show ?thesis
    using False assms(2) update_materializes by blast
qed

lemma create_materialized:
  assumes "rat_model_create_from_chunk ops env path tex = Some (Inr model)"
  shows "materialized ops model"
proof -
  from assms obtain anim mesh where
    la: "load_rat_animation ops env path = Inr anim"
    and up: "rat_model_update ops
               (Some \<lparr>animation = Some anim, mesh_data = Some mesh,
                      decompressed_vertices_u8 = map (fresh_u8 env) [0..<unat (num_vertices anim)],
                      current_frame_vertices = map (fresh_float env) [0..<unat (num_vertices anim)],
                      current_frame = - 1, texture_id = tex, is_valid = True\<rparr>) 0
             = Some (Inr (Some model))"
    by (auto simp: rat_model_create_from_chunk_def Let_def split: if_splits sum.splits option.splits)
  let ?m0 = "\<lparr>animation = Some anim, mesh_data = Some mesh,
              decompressed_vertices_u8 = map (fresh_u8 env) [0..<unat (num_vertices anim)],
              current_frame_vertices = map (fresh_float env) [0..<unat (num_vertices anim)],
              current_frame = - 1, texture_id = tex, is_valid = True\<rparr>"
  have "is_valid ?m0" "animation ?m0 = Some anim" "scratch_allocated ?m0 anim"
       "(0 :: u32) \<noteq> current_frame ?m0"
    by (simp_all add: scratch_allocated_def)
  moreover have "loaded_chunk anim"
    using la by (rule load_rat_animation_loaded)
  ultimately show ?thesis
    using up update_materializes by blast
qed

lemma example_loaded_anim_loaded: "loaded_chunk example_loaded_anim"
  by (simp add: loaded_chunk_def example_loaded_anim_def example_anim_def)

lemma example_create:
  "rat_model_create_from_chunk exact_ops example_env example_path 3 = Some (Inr example_created)"
proof -
  let ?m0 = "\<lparr>animation = Some example_loaded_anim, mesh_data = Some example_mesh,
              decompressed_vertices_u8 = map (fresh_u8 example_env) [0..<unat (num_vertices example_loaded_anim)],
              current_frame_vertices = map (fresh_float example_env) [0..<unat (num_vertices example_loaded_anim)],
              current_frame = - 1, texture_id = 3, is_valid = True\<rparr>"
  have al: "alloc_fails example_env a = False" for a
    by (simp add: example_env_def)
  have nv: "unat (num_vertices example_loaded_anim) = 2"
    by (simp add: example_loaded_anim_def example_anim_def)
  have sa: "scratch_allocated ?m0 example_loaded_anim"
    by (simp add: scratch_allocated_def)
  have an: "animation ?m0 = Some example_loaded_anim"
    by simp
  have "unat (0 :: u32) < 2 ^ 32 - 1" by simp
  note e = decompress_frame_eq [OF an example_loaded_anim_loaded sa this, of exact_ops]
  have d: "decompress_frame exact_ops ?m0 0 =
             Some (Inr (?m0\<lparr>decompressed_vertices_u8 := decompressed_vertices_u8 example_created,
                              current_frame_vertices := current_frame_vertices example_created\<rparr>))"
    unfolding e
    by (simp add: base_frame_of_def example_loaded_anim_def example_anim_def example_created_def
          dequantize_vertex_def dequantize_def exact_ops_def)
  have fc: "rat_model_get_chunk_frame_count (Some ?m0) = 2"
    by (simp add: rat_model_get_chunk_frame_count_def example_loaded_anim_def example_anim_def)
  have up: "rat_model_update exact_ops (Some ?m0) 0 = Some (Inr (Some example_created))"
    unfolding rat_model_update_def Let_def fc
    by (simp add: d) (simp add: example_created_def)
  show ?thesis
    unfolding rat_model_create_from_chunk_def Let_def
    by (simp add: al example_load_anim example_base_dir example_load_mesh up)
qed

lemma example_created_count: "rat_model_get_chunk_frame_count (Some example_created) = 2"
  by (simp add: rat_model_get_chunk_frame_count_def example_created_def example_loaded_anim_def
        example_anim_def)

lemma example_seek_last:
  "rat_model_update exact_ops (Some example_created) 1 = Some (Inr (Some example_last))"
proof -
  have an: "animation example_created = Some example_loaded_anim"
    by (simp add: example_created_def)
  have sa: "scratch_allocated example_created example_loaded_anim"
    by (simp add: scratch_allocated_def example_created_def example_loaded_anim_def example_anim_def)
  have "unat (1 :: u32) < 2 ^ 32 - 1" by simp
  note e = decompress_frame_eq [OF an example_loaded_anim_loaded sa this, of exact_ops]
  have s: "replay_frames (delta_stream example_loaded_anim) (vertex_widths example_loaded_anim) (Suc 0)
             (0, first_frame_quantized example_loaded_anim) =
           Inr (24, [\<lparr>u8_x = 1, u8_y = 1, u8_z = 1\<rparr>, \<lparr>u8_x = 9, u8_y = 9, u8_z = 9\<rparr>])"
    by code_simp
  have d: "decompress_frame exact_ops example_created 1 =
             Some (Inr (example_created
               \<lparr>decompressed_vertices_u8 := [\<lparr>u8_x = 1, u8_y = 1, u8_z = 1\<rparr>, \<lparr>u8_x = 9, u8_y = 9, u8_z = 9\<rparr>],
                current_frame_vertices := [\<lparr>v3_x = 1, v3_y = 1, v3_z = 1\<rparr>, \<lparr>v3_x = 9, v3_y = 9, v3_z = 9\<rparr>]\<rparr>))"
    unfolding e
    by (simp add: base_frame_of_def s del: replay_frames.simps)
       (simp add: example_loaded_anim_def example_anim_def dequantize_vertex_def
          dequantize_def exact_ops_def)
  show ?thesis
    unfolding rat_model_update_def Let_def example_created_count
    by (simp add: d) (simp add: example_created_def example_last_def)
qed

lemma update_clamped:
  assumes "materialized ops model"
      and "rat_model_get_chunk_frame_count (Some model) \<le> g \<or>
           g = (if 0 < rat_model_get_chunk_frame_count (Some model)
                then rat_model_get_chunk_frame_count (Some model) - 1 else 0)"
  shows "rat_model_update ops (Some model) g =
           map_option (\<lambda>r. c_bind r (\<lambda>m'. Inr (Some (m'\<lparr>current_frame :=
               (if 0 < rat_model_get_chunk_frame_count (Some model)
                then rat_model_get_chunk_frame_count (Some model) - 1 else 0)\<rparr>))))
             (decompress_frame ops model
               (if 0 < rat_model_get_chunk_frame_count (Some model)
                then rat_model_get_chunk_frame_count (Some model) - 1 else 0))"
proof -
  let ?fc = "rat_model_get_chunk_frame_count (Some model)"
  let ?t = "if 0 < ?fc then ?fc - 1 else 0"
  have iv: "is_valid model"
    and cl: "current_frame model < ?fc \<or> (?fc = 0 \<and> current_frame model = 0)"
    and inv: "decompress_frame ops model (current_frame model) = Some (Inr model)"
    using assms(1) by (simp_all add: materialized_def Let_def)
  have t_lt: "?t < ?fc" if "?fc \<noteq> 0"
  proof -
    from that have "unat (?fc - 1) = unat ?fc - 1" "0 < unat ?fc"
      by (simp_all add: unat_minus_one unat_gt_0)
    then have "?fc - 1 < ?fc" "0 < ?fc" by (simp_all add: word_less_nat_alt)
    then show ?thesis by simp
  qed
  show ?thesis
  proof (cases "g = current_frame model")
    case True
    have ct: "?t = current_frame model"
    proof (cases "?fc \<le> g")
      case le: True
      with True cl have "?fc = 0 \<and> current_frame model = 0"
        by auto
      then show ?thesis by simp
    next
      case False
      with assms(2) have "g = ?t" by blast
      with True show ?thesis by simp
    qed
    have "model\<lparr>current_frame := current_frame model\<rparr> = model"
      by simp
    then have "map_option (\<lambda>r. c_bind r (\<lambda>m'. Inr (Some (m'\<lparr>current_frame := current_frame model\<rparr>))))
                 (decompress_frame ops model (current_frame model)) = Some (Inr (Some model))"
      by (simp add: inv)
    moreover have "rat_model_update ops (Some model) g = Some (Inr (Some model))"
      using True by (simp add: rat_model_update_def)
    ultimately show ?thesis
      by (simp only: ct)
  next
    case False
    have lf: "(if ?fc \<le> g then ?t else g) = ?t"
      using assms(2) by auto
    show ?thesis
      using False iv unfolding rat_model_update_def Let_def
      by (simp only: lf option.case if_False simp_thms)
  qed
qed

lemma le32_ratm: "le32_at (ratm_bytes @ rest) 0 = RATM_MAGIC"
  by (simp add: le32_at_def ratm_bytes_def RATM_MAGIC_def)

lemma overlong_texture_header:
  "mhdr_magic (rat_mesh_header_of overlong_texture_file) = RATM_MAGIC"
  "mhdr_num_vertices (rat_mesh_header_of overlong_texture_file) = 0"
  "mhdr_num_indices (rat_mesh_header_of overlong_texture_file) = 0"
  "mhdr_uv_offset (rat_mesh_header_of overlong_texture_file) = 0"
  "mhdr_color_offset (rat_mesh_header_of overlong_texture_file) = 0"
  "mhdr_indices_offset (rat_mesh_header_of overlong_texture_file) = 0"
  "mhdr_texture_filename_offset (rat_mesh_header_of overlong_texture_file) = 0"
  "mhdr_texture_filename_length (rat_mesh_header_of overlong_texture_file) = 256"
  by (simp_all add: rat_mesh_header_of_def le32_at_def overlong_texture_file_def ratm_bytes_def
        RATM_MAGIC_def nth_append)

lemma overlong_texture_copy: "copy_filename overlong_texture_file 0 256 = Inl OutOfBounds"
  by (simp add: copy_filename_def c_strncpy_def overlong_texture_file_def ratm_bytes_def update_at_def)

lemma overlong_texture_load:
  "load_rat_mesh_data exact_ops (file_env overlong_texture_file) [] [] = Inl (Undefined OutOfBounds)"
proof -
  have r: "file_read_into_buffer (file_env overlong_texture_file) [] = Some overlong_texture_file"
          "\<not> alloc_fails (file_env overlong_texture_file) a" for a
    by (simp_all add: file_env_def)
  have l: "length overlong_texture_file = 48"
    by (simp add: overlong_texture_file_def ratm_bytes_def)
  show ?thesis
    by (simp add: load_rat_mesh_data_def Let_def r l sizeof_RatMeshHeader_def
          overlong_texture_header overlong_texture_copy memcpy_from_def)
qed

lemma load_rat_mesh_data_copy:
  assumes "file_read_into_buffer env (take 511 (base_dir @ filename)) = Some buffer"
      and "load_rat_mesh_data ops env filename base_dir = Inr mesh"
  shows "copy_filename buffer (unat (mhdr_texture_filename_offset (rat_mesh_header_of buffer)))
           (unat (mhdr_texture_filename_length (rat_mesh_header_of buffer))) = Inr (texture_filename mesh)"
  using assms
  by (auto simp: load_rat_mesh_data_def Let_def c_bind_eq_Inr lift_fault_eq_Inr split: if_splits)

lemma load_rat_animation_copy:
  assumes "file_read_into_buffer env path = Some buffer"
      and "load_rat_animation ops env path = Inr anim"
  shows "copy_filename buffer (unat (hdr_mesh_data_filename_offset (rat_header_of buffer)))
           (unat (hdr_mesh_data_filename_length (rat_header_of buffer))) = Inr (mesh_data_filename anim)"
  using assms
  by (auto simp: load_rat_animation_def Let_def c_bind_eq_Inr lift_fault_eq_Inr split: if_splits)

text \<open>
  What a successful parse says about the filename: the copy was in bounds, on both sides
  (\<open>copy_filename_iff\<close> spells the condition out).
\<close>

lemma filename_copy_in_bounds:
  "(file_read_into_buffer env path = Some abuffer \<and> load_rat_animation ops env path = Inr anim \<longrightarrow>
      copy_filename abuffer (unat (hdr_mesh_data_filename_offset (rat_header_of abuffer)))
        (unat (hdr_mesh_data_filename_length (rat_header_of abuffer))) = Inr (mesh_data_filename anim)) \<and>
   (file_read_into_buffer env (take 511 (base_dir @ filename)) = Some mbuffer \<and>
    load_rat_mesh_data ops env filename base_dir = Inr mesh \<longrightarrow>
      copy_filename mbuffer (unat (mhdr_texture_filename_offset (rat_mesh_header_of mbuffer)))
        (unat (mhdr_texture_filename_length (rat_mesh_header_of mbuffer))) = Inr (texture_filename mesh))"
  using load_rat_animation_copy load_rat_mesh_data_copy
  by blast

subsection \<open>The bit stream and the replay against their specification\<close>

text \<open>
  For a width of at most 31 and a field inside the stream, \<open>get_bits\<close> returns the field of the
  specification and \<open>sign_extend\<close> its two's-complement value; the loops over vertices and
  frames then compute \<open>spec_frames\<close>. Such a delta is below \<open>2 ^ 30\<close> in absolute value, so the
  \<^verbatim>\<open>int\<close> sum of \<^verbatim>\<open>prev_frame[i].x += dx\<close> is in range (\<open>delta_sum_in_range\<close>).
\<close>

lemma spec_read_bits_horner:
  "spec_read_bits ws c w = horner_sum of_bool 2 (map (\<lambda>i. spec_stream_bit ws (c + i)) [0..<w])"
proof -
  have "(\<Sum>i \<leftarrow> [0..<w]. of_bool (spec_stream_bit ws (c + i)) * 2 ^ i) =
        (\<Sum>i = 0..<w. of_bool (spec_stream_bit ws (c + i)) * 2 ^ i :: nat)"
    by (simp add: interv_sum_list_conv_sum_set_nat)
  then show ?thesis
    by (simp add: spec_read_bits_def horner_sum_eq_sum)
qed

lemma spec_read_bits_bit:
  "bit (spec_read_bits ws c w) n \<longleftrightarrow> n < w \<and> spec_stream_bit ws (c + n)"
  by (auto simp add: spec_read_bits_horner bit_horner_sum_bit_iff)

lemma spec_read_bits_less: "spec_read_bits ws c w < 2 ^ w"
proof -
  have "take_bit w (spec_read_bits ws c w) = spec_read_bits ws c w"
    by (rule bit_eqI) (auto simp add: bit_take_bit_iff spec_read_bits_bit)
  then show ?thesis
    by (simp add: take_bit_nat_eq_self_iff)
qed

lemma same_word:
  fixes c k :: nat
  assumes "c mod 32 + k < 32"
  shows "(c + k) div 32 = c div 32" "(c + k) mod 32 = c mod 32 + k"
proof -
  have e: "c + k = 32 * (c div 32) + (c mod 32 + k)" by simp
  show "(c + k) div 32 = c div 32"
    by (subst e, subst div_mult_self4) (use assms in simp_all)
  show "(c + k) mod 32 = c mod 32 + k"
    by (subst e, subst mod_mult_self4) (use assms in simp_all)
qed

lemma next_word:
  fixes c k :: nat
  assumes "32 \<le> c mod 32 + k" "k < 32"
  shows "(c + k) div 32 = c div 32 + 1" "(c + k) mod 32 = c mod 32 + k - 32"
proof -
  have r: "c mod 32 < 32" by simp
  have e: "c + k = 32 * (c div 32 + 1) + (c mod 32 + k - 32)"
    using assms by simp
  have s: "c mod 32 + k - 32 < 32" using assms r by linarith
  show "(c + k) div 32 = c div 32 + 1"
    by (subst e, subst div_mult_self4) (use s in simp_all)
  show "(c + k) mod 32 = c mod 32 + k - 32"
    by (subst e, subst mod_mult_self4) (use s in simp_all)
qed

lemma get_bits_spec:
  assumes w: "w \<le> 31" and fit: "c + unat w \<le> 32 * length ws" and len: "length ws < 2 ^ 32"
  shows "get_bits ws (word_of_nat c) w =
           Inr (word_of_nat (spec_read_bits ws c (unat w)), word_of_nat (c + unat w))"
proof (cases "w = 0")
  case True
  then show ?thesis
    by (simp add: get_bits_def spec_read_bits_def)
next
  case False
  let ?bi = "c mod 32" and ?wi = "c div 32" and ?n = "unat w"
  have n: "0 < ?n" "?n \<le> 31"
    using False w by (simp_all add: unat_gt_0 word_le_nat_alt)
  have c64: "c < 2 ^ 64"
    using fit len by simp
  have uc: "unat (word_of_nat c :: u64) = c"
    using c64 by (simp add: unat_of_nat)
  have d: "unat ((word_of_nat c :: u64) div 32) = ?wi" "unat ((word_of_nat c :: u64) mod 32) = ?bi"
    by (simp_all add: unat_div unat_mod uc)
  have wi_lt: "?wi < length ws"
    using fit n by auto
  have wi32: "?wi < 2 ^ 32"
    using wi_lt len by simp
  have uwi: "unat (ucast ((word_of_nat c :: u64) div 32) :: u32) = ?wi"
    using wi32 d(1) by (simp add: unsigned_ucast_eq take_bit_nat_eq_self)
  have ubi: "unat (ucast ((word_of_nat c :: u64) mod 32) :: u32) = ?bi"
    using d(2) by (simp add: unsigned_ucast_eq take_bit_nat_eq_self)
  have off: "(word_of_nat c :: u64) + ucast w = word_of_nat (c + ?n)"
    by (simp only: ucast_u8_u64 of_nat_add)
  show ?thesis
  proof (cases "?bi + ?n \<le> 32")
    case True
    have v: "drop_bit ?bi (ws ! ?wi) AND mask ?n = (word_of_nat (spec_read_bits ws c ?n) :: u32)"
    proof (rule bit_eqI)
      fix k
      assume "possible_bit TYPE(u32) k"
      have e: "(c + k) div 32 = ?wi \<and> (c + k) mod 32 = ?bi + k" if "k < ?n"
        using that True same_word [of c k] by simp
      show "bit (drop_bit ?bi (ws ! ?wi) AND mask ?n) k = bit (word_of_nat (spec_read_bits ws c ?n) :: u32) k"
      proof (cases "k < ?n")
        case k: True
        then have "k < 32" using n by simp
        then show ?thesis
          using k e [OF k] wi_lt
          by (simp add: bit_and_iff bit_drop_bit_eq bit_mask_iff bit_of_nat_iff spec_read_bits_bit
                spec_stream_bit_def)
      next
        case False
        then show ?thesis
          by (simp add: bit_and_iff bit_mask_iff bit_of_nat_iff spec_read_bits_bit)
      qed
    qed
    have v': "drop_bit ?bi (ws ! ?wi) AND (2 ^ ?n - 1) = (word_of_nat (spec_read_bits ws c ?n) :: u32)"
      using v by (simp add: mask_eq_exp_minus_1)
    show ?thesis
      using False True n wi_lt
      by (simp add: get_bits_def Let_def uwi ubi read_at_def shr32_def shl32_def v')
  next
    case two: False
    let ?l1 = "32 - ?bi" and ?l2 = "?n - (32 - ?bi)"
    have bi: "?bi < 32" by simp
    have l1: "0 < ?l1" "?l1 < ?n" "?l1 < 32"
      using two n by simp_all
    have l2: "0 < ?l2" "?l2 < 32"
      using two n by simp_all
    have wi1_lt: "?wi + 1 < length ws"
    proof -
      have "c = 32 * ?wi + ?bi" by simp
      then show ?thesis using fit two by linarith
    qed
    have ubi32: "unat (32 - (ucast ((word_of_nat c :: u64) mod 32) :: u32)) = ?l1"
      using ubi by (simp add: unat_sub word_le_nat_alt)
    have ul1: "unat (ucast (32 - (ucast ((word_of_nat c :: u64) mod 32) :: u32)) :: u8) = ?l1"
      using ubi32 l1 n by (simp add: unsigned_ucast_eq take_bit_nat_eq_self)
    have ul2: "unat (w - (ucast (32 - (ucast ((word_of_nat c :: u64) mod 32) :: u32)) :: u8)) = ?l2"
      using ul1 l1 by (simp add: unat_sub word_le_nat_alt)
    have uwi1: "unat ((ucast ((word_of_nat c :: u64) div 32) :: u32) + 1) = ?wi + 1"
      using uwi wi1_lt len by (simp add: unat_word_ariths)
    have v: "drop_bit ?bi (ws ! ?wi) OR push_bit ?l1 (ws ! (?wi + 1) AND mask ?l2)
               = (word_of_nat (spec_read_bits ws c ?n) :: u32)"
    proof (rule bit_eqI)
      fix k
      assume "possible_bit TYPE(u32) k"
      then have k32: "k < 32" by simp
      show "bit (drop_bit ?bi (ws ! ?wi) OR push_bit ?l1 (ws ! (?wi + 1) AND mask ?l2)) k
              = bit (word_of_nat (spec_read_bits ws c ?n) :: u32) k"
      proof (cases "?bi + k < 32")
        case low: True
        then have "k < ?n" using two by simp
        moreover have "\<not> ?l1 \<le> k" using low by simp
        ultimately show ?thesis
          using low k32 wi_lt same_word [OF low]
          by (simp add: bit_or_iff bit_and_iff bit_drop_bit_eq bit_push_bit_iff bit_mask_iff
                bit_of_nat_iff spec_read_bits_bit spec_stream_bit_def)
      next
        case high: False
        then have h: "32 \<le> ?bi + k" by simp
        have nb: "\<not> bit (ws ! ?wi) (?bi + k)"
          using h by (auto dest: bit_imp_le_length)
        have kk: "k - ?l1 < ?l2 \<longleftrightarrow> k < ?n"
          using h two by auto
        have kl: "?l1 \<le> k" using h by simp
        have idx: "?bi + k - 32 = k - ?l1" using h by simp
        have sm: "?bi + k - 32 < 32" using k32 bi by linarith
        show ?thesis
          using k32 nb kk kl sm wi1_lt next_word [OF h k32]
          by (auto simp add: bit_or_iff bit_and_iff bit_drop_bit_eq bit_push_bit_iff bit_mask_iff
                bit_of_nat_iff spec_read_bits_bit spec_stream_bit_def idx conj_commute)
      qed
    qed
    show ?thesis
      using False two n wi_lt wi1_lt l1 l2 v
      by (simp add: get_bits_def Let_def uwi ubi ul1 ul2 uwi1 read_at_def shr32_def shl32_def
            mask_eq_exp_minus_1)
  qed
qed

lemma sign_extend_spec:
  assumes w: "w \<le> 31" and v: "v < 2 ^ unat w"
  shows "sign_extend (word_of_nat v) w = Inr (word_of_int (spec_sign_extend (unat w) v))"
proof (cases "w = 0")
  case True
  then show ?thesis
    using v by (simp add: sign_extend_def spec_sign_extend_def)
next
  case False
  let ?n = "unat w"
  have n: "0 < ?n" "?n \<le> 31"
    using False w by (simp_all add: unat_gt_0 word_le_nat_alt)
  have sb: "(word_of_nat v :: u32) AND push_bit (?n - 1) 1 \<noteq> 0 \<longleftrightarrow> bit v (?n - 1)"
  proof -
    have "(word_of_nat v :: u32) AND push_bit (?n - 1) 1 \<noteq> 0 \<longleftrightarrow> bit (word_of_nat v :: u32) (?n - 1)"
      by (simp add: bit_iff_and_push_bit_not_eq_0)
    moreover have "?n - 1 < 32" using n by simp
    ultimately show ?thesis
      by (simp add: bit_of_nat_iff)
  qed
  have tb: "take_bit ?n v = v"
    using v by (simp add: take_bit_nat_eq_self)
  have top: "bit v (?n - 1) \<longleftrightarrow> 2 ^ (?n - 1) \<le> v"
  proof -
    have p: "(2 :: nat) ^ ?n = 2 * 2 ^ (?n - 1)"
      using n by (cases ?n) simp_all
    have "v div 2 ^ (?n - 1) < 2"
      using v p by (simp add: less_mult_imp_div_less mult.commute)
    moreover have "v div 2 ^ (?n - 1) = 0 \<longleftrightarrow> v < 2 ^ (?n - 1)"
      by (simp add: div_eq_0_iff)
    ultimately have "odd (v div 2 ^ (?n - 1)) \<longleftrightarrow> 2 ^ (?n - 1) \<le> v"
      by (cases "v div 2 ^ (?n - 1)") (auto simp add: less_Suc_eq numeral_2_eq_2)
    then show ?thesis
      by (simp add: bit_nat_def)
  qed
  show ?thesis
  proof (cases "2 ^ (?n - 1) \<le> v")
    case True
    have disj: "\<not> bit (word_of_nat v :: u32) k \<or> \<not> bit (- (2 ^ ?n) :: u32) k" for k
    proof (cases "k < ?n")
      case True
      then show ?thesis by (simp add: bit_minus_exp_iff)
    next
      case False
      then have "\<not> bit (take_bit ?n v) k" by (simp add: bit_take_bit_iff)
      then show ?thesis by (simp add: tb bit_of_nat_iff)
    qed
    have "(word_of_nat v :: u32) OR - (2 ^ ?n) = word_of_nat v + - (2 ^ ?n)"
      using disj by (rule disjunctive_add [symmetric])
    also have "\<dots> = word_of_int (int v - 2 ^ ?n)"
      by simp
    finally have r: "(word_of_nat v :: u32) OR - (2 ^ ?n) = word_of_int (int v - 2 ^ ?n)" .
    have r': "(word_of_nat v :: u32) OR NOT (mask ?n) = word_of_nat v - 2 ^ ?n"
      using r by (simp add: minus_exp_eq_not_mask)
    have n1: "?n - Suc 0 < 32" using n by simp
    show ?thesis
      using False True n n1 sb top r'
      by (simp add: sign_extend_def spec_sign_extend_def shl32_def)
  next
    case neg: False
    have n1: "?n - Suc 0 < 32" using n by simp
    show ?thesis
      using False neg n n1 sb top
      by (simp add: sign_extend_def spec_sign_extend_def shl32_def)
  qed
qed

lemma spec_delta_bounds:
  assumes "0 < w"
  shows "- (2 ^ (w - 1)) \<le> spec_delta ws c w" "spec_delta ws c w < 2 ^ (w - 1)"
proof -
  have p: "(2 :: int) ^ w = 2 * 2 ^ (w - 1)"
    using assms by (cases w) simp_all
  have "int (spec_read_bits ws c w) < 2 ^ w"
    using spec_read_bits_less [of ws c w] by (metis of_nat_less_iff of_nat_numeral of_nat_power)
  moreover have "2 ^ (w - 1) \<le> spec_read_bits ws c w \<longleftrightarrow> (2 :: int) ^ (w - 1) \<le> int (spec_read_bits ws c w)"
    by (metis of_nat_le_iff of_nat_numeral of_nat_power)
  ultimately show "- (2 ^ (w - 1)) \<le> spec_delta ws c w" "spec_delta ws c w < 2 ^ (w - 1)"
    using assms p by (auto simp add: spec_delta_def spec_sign_extend_def)
qed

lemma spec_delta_0: "spec_delta ws c 0 = 0"
  by (simp add: spec_delta_def spec_sign_extend_def)

lemma sint_spec_delta:
  assumes "w \<le> 31"
  shows "sint (word_of_int (spec_delta ws c w) :: s32) = spec_delta ws c w"
proof (cases "w = 0")
  case True
  then show ?thesis by (simp add: spec_delta_0)
next
  case False
  then have w: "0 < w" by simp
  have "(2 :: int) ^ (w - 1) \<le> 2 ^ 31"
    using assms by (intro power_increasing) simp_all
  then have "- (2 ^ 31) \<le> spec_delta ws c w" "spec_delta ws c w < 2 ^ 31"
    using spec_delta_bounds [OF w, of ws c] by linarith+
  then show ?thesis
    by (simp add: signed_of_int signed_take_bit_int_eq_self)
qed

lemma delta_sum_in_range:
  assumes "w \<le> 31"
  shows "- (2 ^ 31) \<le> uint (q :: u8) + spec_delta ws c w" "uint q + spec_delta ws c w < 2 ^ 31"
proof -
  have q: "uint q < 256"
    using uint_lt2p [of q] by simp
  have d: "- 1073741824 \<le> spec_delta ws c w \<and> spec_delta ws c w < 1073741824"
  proof (cases "w = 0")
    case True
    then show ?thesis by (simp add: spec_delta_0)
  next
    case False
    then have w: "0 < w" by simp
    have "(2 :: int) ^ (w - 1) \<le> 2 ^ 30"
      using assms by (intro power_increasing) simp_all
    then show ?thesis
      using spec_delta_bounds [OF w, of ws c] by simp
  qed
  have "- 2147483648 \<le> uint q + spec_delta ws c w"
    using uint_ge_0 [of q] d by linarith
  then show "- (2 ^ 31) \<le> uint q + spec_delta ws c w"
    by simp
  have "uint q + spec_delta ws c w < 2147483648"
    using q d by linarith
  then show "uint q + spec_delta ws c w < 2 ^ 31"
    by simp
qed

lemma read_delta_spec:
  assumes "w \<le> 31" "c + unat w \<le> 32 * length ws" "length ws < 2 ^ 32"
  shows "read_delta ws (word_of_nat c) w =
           Inr (word_of_int (spec_delta ws c (unat w)), word_of_nat (c + unat w))"
  using get_bits_spec [OF assms] sign_extend_spec [OF assms(1) spec_read_bits_less, of ws c]
  by (simp add: read_delta_def spec_delta_def)

lemma wrap_add_spec:
  assumes "w \<le> 31"
  shows "wrap_add q (word_of_int (spec_delta ws c w)) = spec_add_wrapping q (spec_delta ws c w)"
  by (simp only: wrap_add_def spec_add_wrapping_def sint_spec_delta [OF assms])

lemma vertex_deltas_spec:
  assumes "wx \<le> 31" "wy \<le> 31" "wz \<le> 31"
      and "c + (unat wx + unat wy + unat wz) \<le> 32 * length ws" "length ws < 2 ^ 32"
  shows "vertex_deltas ws (word_of_nat c) (wx, wy, wz) v =
           Inr (word_of_nat (c + (unat wx + unat wy + unat wz)),
                snd (spec_vertex ws c (unat wx, unat wy, unat wz) v))"
proof -
  have u: "unat wx \<le> 31" "unat wy \<le> 31" "unat wz \<le> 31"
    using assms(1-3) by (simp_all add: word_le_nat_alt)
  have x: "read_delta ws (word_of_nat c) wx =
             Inr (word_of_int (spec_delta ws c (unat wx)), word_of_nat (c + unat wx))"
    using assms by (intro read_delta_spec) simp_all
  have y: "read_delta ws (word_of_nat (c + unat wx)) wy =
             Inr (word_of_int (spec_delta ws (c + unat wx) (unat wy)), word_of_nat (c + unat wx + unat wy))"
    using assms by (intro read_delta_spec) simp_all
  have z: "read_delta ws (word_of_nat (c + unat wx + unat wy)) wz =
             Inr (word_of_int (spec_delta ws (c + unat wx + unat wy) (unat wz)),
                  word_of_nat (c + unat wx + unat wy + unat wz))"
    using assms by (intro read_delta_spec) simp_all
  show ?thesis
    using x y z
    by (simp add: vertex_deltas_def spec_vertex_def wrap_add_spec [OF u(1)]
          wrap_add_spec [OF u(2)] wrap_add_spec [OF u(3)] add.assoc)
qed

lemma replay_frame_spec:
  assumes "\<forall>((wx, wy, wz), v) \<in> set wvs. wx \<le> 31 \<and> wy \<le> 31 \<and> wz \<le> 31"
      and "c + sum_list (map (\<lambda>((wx, wy, wz), v). unat wx + unat wy + unat wz) wvs) \<le> 32 * length ws"
      and "length ws < 2 ^ 32"
  shows "replay_frame ws (word_of_nat c) wvs =
           Inr (word_of_nat (c + sum_list (map (\<lambda>((wx, wy, wz), v). unat wx + unat wy + unat wz) wvs)),
                snd (spec_frame ws c (map (\<lambda>((wx, wy, wz), v). ((unat wx, unat wy, unat wz), v)) wvs))) \<and>
         fst (spec_frame ws c (map (\<lambda>((wx, wy, wz), v). ((unat wx, unat wy, unat wz), v)) wvs)) =
           c + sum_list (map (\<lambda>((wx, wy, wz), v). unat wx + unat wy + unat wz) wvs)"
  using assms
proof (induction wvs arbitrary: c)
  case Nil
  then show ?case by simp
next
  case (Cons a wvs)
  obtain wx wy wz v where a: "a = ((wx, wy, wz), v)"
    by (cases a) auto
  let ?b = "unat wx + unat wy + unat wz"
  let ?rest = "sum_list (map (\<lambda>((wx, wy, wz), v). unat wx + unat wy + unat wz) wvs)"
  have w: "wx \<le> 31" "wy \<le> 31" "wz \<le> 31"
    using Cons.prems(1) by (simp_all add: a)
  have fit: "c + ?b \<le> 32 * length ws" "(c + ?b) + ?rest \<le> 32 * length ws"
    using Cons.prems(2) by (simp_all add: a)
  have all: "\<forall>((wx, wy, wz), v) \<in> set wvs. wx \<le> 31 \<and> wy \<le> 31 \<and> wz \<le> 31"
    using Cons.prems(1) by simp
  note v = vertex_deltas_spec [OF w fit(1) Cons.prems(3), of v]
  note ih = Cons.IH [OF all fit(2) Cons.prems(3)]
  have f: "fst (spec_vertex ws c (unat wx, unat wy, unat wz) v) = c + ?b"
    by (simp add: spec_vertex_def)
  show ?case
    using v ih f
    by (simp add: a split_def Let_def add.assoc)
qed

lemma spec_frame_length: "length (snd (spec_frame ws c l)) = length l"
  by (induction l arbitrary: c) (auto simp add: split_def Let_def)

lemma zip_spec_widths:
  "map (\<lambda>((wx, wy, wz), v). ((unat wx, unat wy, unat wz), v)) (zip (zip xs (zip ys zs)) vs) =
     zip (zip (map unat xs) (zip (map unat ys) (map unat zs))) vs"
proof (induction xs arbitrary: ys zs vs)
  case Nil
  then show ?case by simp
next
  case (Cons x xs)
  then show ?case
    by (cases ys; cases zs; cases vs) simp_all
qed

lemma replay_frames_spec:
  assumes lc: "loaded_chunk anim" and lv: "length vs = unat (num_vertices anim)"
      and wd: "\<forall>w \<in> set (bit_widths_x anim) \<union> set (bit_widths_y anim) \<union> set (bit_widths_z anim). w \<le> 31"
      and fit: "c + k * frame_bits anim \<le> 32 * length ws" and len: "length ws < 2 ^ 32"
  shows "replay_frames ws (vertex_widths anim) k (word_of_nat c, vs) =
           Inr (word_of_nat (c + k * frame_bits anim),
                snd (spec_frames ws (spec_widths anim) k (c, vs)))"
  using lv fit
proof (induction k arbitrary: c vs)
  case 0
  then show ?case by simp
next
  case (Suc k)
  let ?wvs = "zip (vertex_widths anim) vs"
  let ?sum = "sum_list (map (\<lambda>((wx, wy, wz), v). unat wx + unat wy + unat wz) ?wvs)"
  have ls: "length (bit_widths_x anim) = unat (num_vertices anim)"
           "length (bit_widths_y anim) = unat (num_vertices anim)"
           "length (bit_widths_z anim) = unat (num_vertices anim)"
    using lc by (simp_all add: loaded_chunk_def)
  have sum: "?sum = frame_bits anim"
    unfolding vertex_widths_def frame_bits_def
    using ls Suc.prems(1) by (rule sum_widths_zip)
  have all: "\<forall>((wx, wy, wz), v) \<in> set ?wvs. wx \<le> 31 \<and> wy \<le> 31 \<and> wz \<le> 31"
  proof clarify
    fix wx wy wz v
    assume "((wx, wy, wz), v) \<in> set ?wvs"
    then have "(wx, wy, wz) \<in> set (zip (bit_widths_x anim) (zip (bit_widths_y anim) (bit_widths_z anim)))"
      unfolding vertex_widths_def by (rule set_zip_leftD)
    then have x: "wx \<in> set (bit_widths_x anim)"
      and yz: "(wy, wz) \<in> set (zip (bit_widths_y anim) (bit_widths_z anim))"
      by (rule set_zip_leftD, rule set_zip_rightD)
    have "wy \<in> set (bit_widths_y anim)" "wz \<in> set (bit_widths_z anim)"
      using yz by (rule set_zip_leftD, rule set_zip_rightD)
    then show "wx \<le> 31 \<and> wy \<le> 31 \<and> wz \<le> 31"
      using wd x by simp
  qed
  have fit1: "c + ?sum \<le> 32 * length ws"
    using Suc.prems(2) by (simp add: sum)
  note fr = replay_frame_spec [OF all fit1 len]
  have m: "map (\<lambda>((wx, wy, wz), v). ((unat wx, unat wy, unat wz), v)) ?wvs = zip (spec_widths anim) vs"
    by (simp add: vertex_widths_def spec_widths_def zip_spec_widths)
  let ?r = "spec_frame ws c (zip (spec_widths anim) vs)"
  have r1: "replay_frame ws (word_of_nat c) ?wvs = Inr (word_of_nat (c + frame_bits anim), snd ?r)"
    and r2: "fst ?r = c + frame_bits anim"
    using fr by (simp_all add: m sum)
  have lr: "length (snd ?r) = unat (num_vertices anim)"
    using ls Suc.prems(1) by (simp add: spec_frame_length spec_widths_def)
  have fit2: "(c + frame_bits anim) + k * frame_bits anim \<le> 32 * length ws"
    using Suc.prems(2) by (simp add: algebra_simps)
  note ih = Suc.IH [OF lr fit2]
  have e: "?r = (c + frame_bits anim, snd ?r)"
    using r2 by (metis prod.collapse)
  have "spec_frames ws (spec_widths anim) (Suc k) (c, vs) =
          spec_frames ws (spec_widths anim) k (c + frame_bits anim, snd ?r)"
    using e by simp
  moreover have "c + frame_bits anim + k * frame_bits anim = c + Suc k * frame_bits anim"
    by (simp add: algebra_simps)
  ultimately show ?case
    using r1 ih by simp
qed

lemma quantize_amended: "amended_quantize ops raw mn mx = Some q \<Longrightarrow> quantize ops raw mn mx = Inr q"
  by (simp add: amended_quantize_def quantize_def Let_def split: if_splits)

lemma quantize_vertex_amended:
  "amended_quantize_vertex ops anim raw = Some v \<Longrightarrow> quantize_vertex ops anim raw = Inr v"
  by (auto simp add: amended_quantize_vertex_def quantize_vertex_def quantize_amended split: option.splits)

lemma map_faulty_those:
  assumes "\<And>a b. g' a = Some b \<Longrightarrow> g a = Inr b"
  shows "those (map g' as) = Some bs \<Longrightarrow> map_faulty g as = Inr bs"
proof (induction as arbitrary: bs)
  case Nil
  then show ?case by simp
next
  case (Cons a as)
  then show ?case
    using assms by (auto split: option.splits)
qed

lemma base_frame_of_amended: "amended_base ops anim = Some base \<Longrightarrow> base_frame_of ops anim = Inr base"
  using map_faulty_those [of "amended_quantize_vertex ops anim" "quantize_vertex ops anim"]
  by (auto simp add: amended_base_def base_frame_of_def quantize_vertex_amended split: if_splits)

lemma raw_loaded: "loaded_chunk raw_anim"
  by (simp add: loaded_chunk_def raw_anim_def)

lemma raw_allocated: "scratch_allocated raw_model raw_anim"
  by (simp add: scratch_allocated_def raw_model_def raw_anim_def)

lemma raw_animation: "animation raw_model = Some raw_anim"
  by (simp add: raw_model_def)

lemma raw_base:
  "amended_base exact_ops raw_anim =
     Some [\<lparr>u8_x = 0, u8_y = 127, u8_z = 199\<rparr>, \<lparr>u8_x = 63, u8_y = 1, u8_z = 255\<rparr>]"
  by code_simp

lemma raw_frame1:
  "snd (spec_frames (delta_stream raw_anim) (spec_widths raw_anim) (Suc 0)
         (0, [\<lparr>u8_x = 0, u8_y = 127, u8_z = 199\<rparr>, \<lparr>u8_x = 63, u8_y = 1, u8_z = 255\<rparr>])) =
     [\<lparr>u8_x = 1, u8_y = 128, u8_z = 200\<rparr>, \<lparr>u8_x = 62, u8_y = 0, u8_z = 254\<rparr>]"
  by code_simp

lemma raw_rounded:
  "spec_reconstruct_rounded raw_anim 1 =
     [\<lparr>u8_x = 2, u8_y = 129, u8_z = 200\<rparr>, \<lparr>u8_x = 63, u8_y = 1, u8_z = 254\<rparr>]"
  by code_simp

lemma raw_code_frame1:
  "decompressed_u8 exact_ops raw_model 1 =
     Some (Inr [\<lparr>u8_x = 1, u8_y = 128, u8_z = 200\<rparr>, \<lparr>u8_x = 62, u8_y = 0, u8_z = 254\<rparr>])"
proof -
  have "unat (1 :: u32) < 2 ^ 32 - 1" by simp
  note e = decompress_frame_eq [OF raw_animation raw_loaded raw_allocated this, of exact_ops]
  show ?thesis
    unfolding decompressed_u8_def e by code_simp
qed

lemma wide_loaded: "loaded_chunk wide_anim"
  by (simp add: loaded_chunk_def wide_anim_def example_anim_def)

lemma wide_allocated: "scratch_allocated wide_model wide_anim"
  by (simp add: scratch_allocated_def wide_model_def wide_anim_def example_model_def example_anim_def)

lemma wide_animation: "animation wide_model = Some wide_anim"
  by (simp add: wide_model_def)

lemma wide_code_frame1: "decompressed_u8 exact_ops wide_model 1 = Some (Inl ShiftOutOfRange)"
proof -
  have "unat (1 :: u32) < 2 ^ 32 - 1" by simp
  note e = decompress_frame_eq [OF wide_animation wide_loaded wide_allocated this, of exact_ops]
  show ?thesis
    unfolding decompressed_u8_def e by code_simp
qed

lemma load_rat_animation_stream_length:
  assumes "load_rat_animation ops env path = Inr anim"
  shows "length (delta_stream anim) = unat (delta_stream_word_count anim)"
proof -
  from assms obtain buffer where rd: "file_read_into_buffer env path = Some buffer"
    by (auto simp: load_rat_animation_def split: option.splits)
  let ?h = "rat_header_of buffer"
  let ?size = "(word_of_nat (length buffer) - hdr_delta_offset ?h :: u32)"
  from assms rd obtain ds where
    d: "memcpy_from env AllocDeltaStream buffer (unat (hdr_delta_offset ?h)) (unat ?size) = Inr ds"
    and a: "delta_stream anim = map (\<lambda>i. le32_at ds (4 * i)) [0..<length ds div 4]"
           "delta_stream_word_count anim = ?size div 4"
    by (auto simp: load_rat_animation_def Let_def c_bind_eq_Inr lift_fault_eq_Inr
             split: if_splits)
  have "length ds = unat ?size"
    using d by (rule memcpy_from_length)
  then show ?thesis
    using a by (simp add: unat_div)
qed

section \<open>The claims\<close>

text \<open>
  Claim C1, as the code has it. The claim fails in two ways. A raw base frame is quantized by
  the cast \<^verbatim>\<open>(uint8_t)\<close>, which truncates, where section 4.3 of the specification rounds. And a
  loaded chunk may declare a bit width of 32, for which \<^verbatim>\<open>get_bits\<close> and \<^verbatim>\<open>sign_extend\<close> shift
  by 32 and no vertices are produced (claims C2 and C3).

  What holds: take a loaded chunk whose bit widths are at most 31, whose delta stream has
  \<^verbatim>\<open>delta_stream_word_count\<close> words and holds the fields of the first \<open>f\<close> frames, and whose base
  frame is pre-quantized or has a defined quantization (\<open>amended_base\<close>: the truncating cast of
  \<^verbatim>\<open>255 * (raw - min) / (max - min)\<close>). For a target frame \<open>f < frame_count\<close>,
  \<^verbatim>\<open>decompress_frame\<close> returns, with no fault, and the quantized vertices it leaves are
  \<open>spec_frames\<close> of the base frame: for each frame from 1 through \<open>f\<close> and each vertex in index
  order, three deltas x, y, z are added modulo 256 and never clamped, each being the
  two's-complement value of the field of that vertex's bit width at the one shared cursor, which
  starts at 0 and advances by the width. The right-hand side uses no function of the code. The
  claim's \<open>1 \<le> f\<close> is not needed: frame 0 is the base frame.
\<close>

theorem decompress_frame_replays_deltas:
  assumes "animation model = Some anim" "loaded_chunk anim" "scratch_allocated model anim"
      and "f < num_frames anim"
      and "\<forall>w \<in> set (bit_widths_x anim) \<union> set (bit_widths_y anim) \<union> set (bit_widths_z anim). w \<le> 31"
      and "length (delta_stream anim) = unat (delta_stream_word_count anim)"
      and "unat f * frame_bits anim \<le> 32 * length (delta_stream anim)"
      and "amended_base ops anim = Some base"
  shows "decompressed_u8 ops model f =
           Some (Inr (snd (spec_frames (delta_stream anim) (spec_widths anim) (unat f) (0, base))))"
proof -
  have "unat f < unat (num_frames anim)"
    using assms(4) by (simp add: word_less_nat_alt)
  moreover have "unat (num_frames anim) < 2 ^ 32"
    using unsigned_less [of "num_frames anim"] by simp
  ultimately have f: "unat f < 2 ^ 32 - 1" by simp
  have len: "length (delta_stream anim) < 2 ^ 32"
    using unsigned_less [of "delta_stream_word_count anim"] assms(6) by simp
  have b: "base_frame_of ops anim = Inr base"
    using assms(8) by (rule base_frame_of_amended)
  have lb: "length base = unat (num_vertices anim)"
    using assms(2) b by (rule base_frame_of_length)
  have fit: "0 + unat f * frame_bits anim \<le> 32 * length (delta_stream anim)"
    using assms(7) by simp
  have r: "replay_frames (delta_stream anim) (vertex_widths anim) (unat f) (0, base) =
             Inr (word_of_nat (0 + unat f * frame_bits anim),
                  snd (spec_frames (delta_stream anim) (spec_widths anim) (unat f) (0, base)))"
    using replay_frames_spec [OF assms(2) lb assms(5) fit len] by simp
  show ?thesis
    using assms(1-3) f b r
    by (simp add: decompressed_u8_def decompress_frame_eq)
qed

text \<open>
  The raw example at frame 1: the base frame \<open>(1, 128, 200)\<close>, \<open>(64, 2, 256)\<close> in the box
  \<open>[0, 256]\<close> is quantized to \<open>(0, 127, 199)\<close>, \<open>(63, 1, 255)\<close>, truncated, and frame 1 adds
  \<open>(+1, +1, +1)\<close> and \<open>(-1, -1, -1)\<close>.
\<close>

theorem decompress_frame_replays_deltas_witness:
  "animation raw_model = Some raw_anim \<and> loaded_chunk raw_anim \<and>
   scratch_allocated raw_model raw_anim \<and> 1 < num_frames raw_anim \<and>
   bit_widths_x raw_anim = [4, 4] \<and> bit_widths_y raw_anim = [4, 4] \<and> bit_widths_z raw_anim = [4, 4] \<and>
   length (delta_stream raw_anim) = unat (delta_stream_word_count raw_anim) \<and>
   unat (1 :: u32) * frame_bits raw_anim \<le> 32 * length (delta_stream raw_anim) \<and>
   amended_base exact_ops raw_anim =
     Some [\<lparr>u8_x = 0, u8_y = 127, u8_z = 199\<rparr>, \<lparr>u8_x = 63, u8_y = 1, u8_z = 255\<rparr>] \<and>
   decompressed_u8 exact_ops raw_model 1 =
     Some (Inr [\<lparr>u8_x = 1, u8_y = 128, u8_z = 200\<rparr>, \<lparr>u8_x = 62, u8_y = 0, u8_z = 254\<rparr>])"
proof -
  have n: "(1 :: u32) < num_frames raw_anim"
    by (simp add: raw_anim_def)
  have w: "bit_widths_x raw_anim = [4, 4]" "bit_widths_y raw_anim = [4, 4]"
          "bit_widths_z raw_anim = [4, 4]"
    by (simp_all add: raw_anim_def)
  have wd: "\<forall>w \<in> set (bit_widths_x raw_anim) \<union> set (bit_widths_y raw_anim) \<union>
                 set (bit_widths_z raw_anim). w \<le> 31"
    by (simp add: w)
  have l: "length (delta_stream raw_anim) = unat (delta_stream_word_count raw_anim)"
    by (simp add: raw_anim_def)
  have fit: "unat (1 :: u32) * frame_bits raw_anim \<le> 32 * length (delta_stream raw_anim)"
    by (simp add: frame_bits_def raw_anim_def)
  show ?thesis
    using decompress_frame_replays_deltas
            [OF raw_animation raw_loaded raw_allocated n wd l fit raw_base]
      n w l fit raw_animation raw_loaded raw_allocated raw_base
    by (simp add: raw_frame1 del: spec_frames.simps)
qed

text \<open>
  The claim as it stands fails on both examples, which are loaded chunks with a target frame
  in its range. On \<open>raw_model\<close> the code leaves \<open>(1, 128, 200)\<close>, \<open>(62, 0, 254)\<close> where the
  quantization of the specification, which rounds, gives \<open>(2, 129, 200)\<close>, \<open>(63, 1, 254)\<close>. On
  \<open>wide_model\<close> the first read is a 32-bit field on a word boundary, and the run ends in the
  undefined shift: no vertices are produced.
\<close>

theorem decompress_frame_replays_deltas_counterexample:
  "animation raw_model = Some raw_anim \<and> loaded_chunk raw_anim \<and>
   scratch_allocated raw_model raw_anim \<and> 1 < num_frames raw_anim \<and>
   decompressed_u8 exact_ops raw_model 1 =
     Some (Inr [\<lparr>u8_x = 1, u8_y = 128, u8_z = 200\<rparr>, \<lparr>u8_x = 62, u8_y = 0, u8_z = 254\<rparr>]) \<and>
   spec_reconstruct_rounded raw_anim 1 =
     [\<lparr>u8_x = 2, u8_y = 129, u8_z = 200\<rparr>, \<lparr>u8_x = 63, u8_y = 1, u8_z = 254\<rparr>] \<and>
   animation wide_model = Some wide_anim \<and> loaded_chunk wide_anim \<and>
   scratch_allocated wide_model wide_anim \<and> 1 < num_frames wide_anim \<and>
   decompressed_u8 exact_ops wide_model 1 = Some (Inl ShiftOutOfRange)"
proof -
  have n: "(1 :: u32) < num_frames raw_anim" "(1 :: u32) < num_frames wide_anim"
    by (simp_all add: raw_anim_def wide_anim_def example_anim_def)
  show ?thesis
    by (simp only: raw_animation raw_loaded raw_allocated raw_code_frame1 raw_rounded
          wide_animation wide_loaded wide_allocated wide_code_frame1 n simp_thms)
qed

text \<open>
  Claim C9. For a loaded chunk and a frame \<open>n\<close> with \<open>1 \<le> n < frame_count\<close>, the quantized
  vertices of frame \<open>n\<close> by full replay are those of frame \<open>n - 1\<close> by full replay to which one
  more frame of deltas is applied, read from the cursor that stands after the fields of the
  first \<open>n - 1\<close> frames. Both replays return; a fault of the shorter replay is the fault of the
  longer one.
\<close>

theorem replay_one_more_frame:
  assumes "animation model = Some anim" "loaded_chunk anim" "scratch_allocated model anim"
      and "1 \<le> n" "n < num_frames anim"
  shows "decompressed_u8 ops model n =
           Option.bind (decompressed_u8 ops model (n - 1))
             (\<lambda>r. Some (c_bind r (one_more_frame anim (cursor_after anim (unat (n - 1))))))"
proof -
  let ?s = "delta_stream anim"
  let ?ws = "vertex_widths anim"
  obtain k where k: "unat n = Suc k"
    using assms(4) by (cases "unat n") (auto simp: word_le_nat_alt)
  have k1: "unat (n - 1) = k"
    using k assms(4) by (simp add: unat_sub)
  have "unat n < unat (num_frames anim)"
    using assms(5) by (simp add: word_less_nat_alt)
  moreover have "unat (num_frames anim) < 2 ^ 32"
    using unsigned_less [of "num_frames anim"] by simp
  ultimately have b: "unat n < 2 ^ 32 - 1" by simp
  then have b1: "unat (n - 1) < 2 ^ 32 - 1"
    using k k1 by simp
  have lhs: "decompressed_u8 ops model n = Some (replay_from_base ops anim n)"
    using assms(1-3) b
    by (simp add: decompressed_u8_def decompress_frame_eq replay_from_base_def map_sum_c_bind split_def)
  have rhs: "decompressed_u8 ops model (n - 1) = Some (replay_from_base ops anim (n - 1))"
    using assms(1-3) b1
    by (simp add: decompressed_u8_def decompress_frame_eq replay_from_base_def map_sum_c_bind split_def)
  have "replay_from_base ops anim n =
          c_bind (replay_from_base ops anim (n - 1)) (one_more_frame anim (cursor_after anim k))"
  proof (cases "base_frame_of ops anim")
    case (Inl e)
    then show ?thesis by (simp add: replay_from_base_def)
  next
    case (Inr base)
    have lb: "length base = unat (num_vertices anim)"
      using assms(2) Inr by (rule base_frame_of_length)
    show ?thesis
    proof (cases "replay_frames ?s ?ws k (0, base)")
      case (Inl e)
      with Inr show ?thesis
        by (simp add: replay_from_base_def k k1 replay_frames_snoc del: replay_frames.simps)
    next
      case r: (Inr r)
      obtain off vs where rr: "r = (off, vs)" by (cases r)
      have lv: "length vs = unat (num_vertices anim)"
        using replay_frames_length [OF assms(2) lb] r rr by blast
      have "off = 0 + word_of_nat (k * frame_bits anim)"
        using replay_frames_cursor [OF assms(2) lb] r rr by blast
      then have off: "off = cursor_after anim k"
        by (simp add: cursor_after_def)
      have "one_more_frame anim (cursor_after anim k) vs =
              c_bind (replay_frame ?s off (zip ?ws vs)) (\<lambda>(cursor', vs'). Inr vs')"
        using assms(2) lv by (simp add: one_more_frame_def delta_loop_frame off)
      with Inr r rr show ?thesis
        by (simp add: replay_from_base_def k k1 replay_frames_snoc del: replay_frames.simps)
    qed
  qed
  with lhs rhs k1 show ?thesis by simp
qed

theorem replay_one_more_frame_witness:
  "animation example_model = Some example_anim \<and> loaded_chunk example_anim \<and>
   scratch_allocated example_model example_anim \<and> (1 :: u32) \<le> 1 \<and> 1 < num_frames example_anim \<and>
   decompressed_u8 exact_ops example_model 1 =
     Some (Inr [\<lparr>u8_x = 1, u8_y = 1, u8_z = 1\<rparr>, \<lparr>u8_x = 9, u8_y = 9, u8_z = 9\<rparr>])"
proof -
  have n: "(1 :: u32) < num_frames example_anim"
    by (simp add: example_anim_def)
  show ?thesis
    using replay_one_more_frame
            [OF example_animation example_loaded example_allocated _ n, of exact_ops]
      n example_animation example_loaded example_allocated
    by (simp add: example_frame0 example_step)
qed

text \<open>
  Claim C10. For a loaded model and any frame index, the two scratch buffers after
  \<^verbatim>\<open>decompress_frame\<close> (the quantized vertices and the float vertices) depend on the animation
  and the frame index only: two runs from models that differ in the prior contents of both
  buffers end alike (equal outputs, the same fault, or both without returning), and a second
  run on the result of a first changes nothing.
\<close>

theorem decompress_frame_deterministic:
  assumes "animation m1 = Some anim" "animation m2 = Some anim" "loaded_chunk anim"
      and "scratch_allocated m1 anim" "scratch_allocated m2 anim"
  shows "map_option (map_sum id scratch_output) (decompress_frame ops m1 f) =
           map_option (map_sum id scratch_output) (decompress_frame ops m2 f) \<and>
         (\<forall>m1'. decompress_frame ops m1 f = Some (Inr m1') \<longrightarrow>
                 decompress_frame ops m1' f = Some (Inr m1'))"
proof (intro conjI allI impI)
  show "map_option (map_sum id scratch_output) (decompress_frame ops m1 f) =
          map_option (map_sum id scratch_output) (decompress_frame ops m2 f)"
    using assms by (rule decompress_frame_indep)
next
  fix m1'
  assume "decompress_frame ops m1 f = Some (Inr m1')"
  with assms(1,3,4) show "decompress_frame ops m1' f = Some (Inr m1')"
    by (rule decompress_frame_again)
qed

theorem decompress_frame_deterministic_witness:
  "animation example_model = Some example_anim \<and> animation example_model_b = Some example_anim \<and>
   loaded_chunk example_anim \<and> scratch_allocated example_model example_anim \<and>
   scratch_allocated example_model_b example_anim \<and>
   decompressed_vertices_u8 example_model \<noteq> decompressed_vertices_u8 example_model_b \<and>
   map_option (map_sum id scratch_output) (decompress_frame exact_ops example_model_b 1) =
     Some (Inr ([\<lparr>u8_x = 1, u8_y = 1, u8_z = 1\<rparr>, \<lparr>u8_x = 9, u8_y = 9, u8_z = 9\<rparr>],
                [\<lparr>v3_x = 1, v3_y = 1, v3_z = 1\<rparr>, \<lparr>v3_x = 9, v3_y = 9, v3_z = 9\<rparr>]))"
proof -
  have d: "decompressed_vertices_u8 example_model \<noteq> decompressed_vertices_u8 example_model_b"
    by (simp add: example_model_b_def example_model_def)
  show ?thesis
    using decompress_frame_deterministic
            [OF example_animation example_b_animation example_loaded example_allocated
                example_b_allocated, of exact_ops 1]
      example_animation example_b_animation example_loaded example_allocated example_b_allocated d
    by (simp add: example_output1)
qed

text \<open>
  Claim C2, at the input where the code leaves it. \<^verbatim>\<open>get_bits\<close> of a 32-bit field that starts
  on a word boundary takes the one-word branch and builds its mask as \<^verbatim>\<open>(1U << 32) - 1\<close>, a
  shift by the width of the type, which C leaves undefined: no 32-bit field is returned. (A
  32-bit field that straddles two words is read by the other branch, whose shifts stay below 32.)
\<close>

theorem get_bits_aligned_32_undefined:
  "get_bits [0xFFFFFFFF] 0 32 = Inl ShiftOutOfRange"
  by (simp add: get_bits_def shl32_def shr32_def Let_def)

text \<open>
  Claim C3, at the input where the code leaves it. \<^verbatim>\<open>sign_extend\<close> of a 32-bit value whose
  bit 31 is set evaluates \<^verbatim>\<open>~0U << 32\<close>, again a shift by the width of the type: no value is
  returned where the claim expects the value unchanged as a negative number.
\<close>

theorem sign_extend_negative_32_undefined:
  "sign_extend 0x80000000 32 = Inl ShiftOutOfRange"
  by (simp add: sign_extend_def shl32_def)

text \<open>
  Claim C5, as the code has it. The frame-count query returns 0 for a null model, for a model
  without animation record and also for a loaded animation that has no vertex, whatever frame
  count it records; for a loaded animation with at least one vertex it returns the recorded
  frame count.
\<close>

theorem frame_count_query:
  "rat_model_get_chunk_frame_count (None :: 'f rat_model option) = 0 \<and>
   (animation (model :: 'f rat_model) = None \<longrightarrow> rat_model_get_chunk_frame_count (Some model) = 0) \<and>
   (animation model = Some anim \<and> num_vertices anim = 0 \<longrightarrow>
      rat_model_get_chunk_frame_count (Some model) = 0) \<and>
   (animation model = Some anim \<and> num_vertices anim \<noteq> 0 \<longrightarrow>
      rat_model_get_chunk_frame_count (Some model) = num_frames anim)"
  by (simp add: rat_model_get_chunk_frame_count_def)

theorem frame_count_query_witness:
  "animation example_model = Some example_anim \<and> num_vertices example_anim \<noteq> 0 \<and>
   rat_model_get_chunk_frame_count (Some example_model) = 2 \<and>
   animation unloaded_model = None \<and> rat_model_get_chunk_frame_count (Some unloaded_model) = 0"
proof -
  have v: "num_vertices example_anim \<noteq> 0" by (simp add: example_anim_def)
  have u: "animation unloaded_model = None" by (simp add: unloaded_model_def)
  show ?thesis
    using frame_count_query [of example_model example_anim] example_animation v
      frame_count_query [of unloaded_model] u
    by (simp add: example_anim_def)
qed

text \<open>
  The claim as stated fails: \<open>no_vertex_model\<close> has an animation loaded that records seven
  frames, and the query returns 0.
\<close>

theorem frame_count_zero_vertices_counterexample:
  "animation no_vertex_model = Some no_vertex_anim \<and> num_frames no_vertex_anim = 7 \<and>
   rat_model_get_chunk_frame_count (Some no_vertex_model) = 0"
  by (simp add: rat_model_get_chunk_frame_count_def no_vertex_model_def no_vertex_anim_def)

text \<open>
  Claim C8, as the code has it. The code has no policy for a degenerate bounding box: it
  divides by \<^verbatim>\<open>max - min\<close> unguarded. For a loaded chunk, \<^verbatim>\<open>decompress_frame\<close> divides by zero
  only if the base frame is raw, the chunk has a vertex and the box is degenerate on some
  axis; and it does divide by zero, at the first vertex, whenever the base frame is raw, the
  chunk has a vertex and the x axis is degenerate. A chunk with a non-degenerate box or a
  pre-quantized base frame never divides by zero.
\<close>

theorem division_by_zero_only_degenerate:
  assumes "animation model = Some anim" "loaded_chunk anim" "scratch_allocated model anim"
  shows "(decompress_frame ops model f = Some (Inl DivisionByZero) \<longrightarrow>
            is_first_frame_raw anim \<and> degenerate_box ops anim \<and> num_vertices anim \<noteq> 0) \<and>
         (is_first_frame_raw anim \<and> num_vertices anim \<noteq> 0 \<and>
            f_is_zero ops (f_sub ops (max_x anim) (min_x anim)) \<longrightarrow>
            decompress_frame ops model f = Some (Inl DivisionByZero))"
proof (rule conjI; rule impI)
  assume "decompress_frame ops model f = Some (Inl DivisionByZero)"
  with assms have "base_frame_of ops anim = Inl DivisionByZero"
    by (rule decompress_frame_div0)
  with assms(2) show "is_first_frame_raw anim \<and> degenerate_box ops anim \<and> num_vertices anim \<noteq> 0"
    by (rule base_frame_of_div0)
next
  assume a: "is_first_frame_raw anim \<and> num_vertices anim \<noteq> 0 \<and>
             f_is_zero ops (f_sub ops (max_x anim) (min_x anim))"
  then have "length (first_frame_raw anim) = unat (num_vertices anim)"
    using assms(2) by (simp add: loaded_chunk_def)
  moreover have "unat (num_vertices anim) \<noteq> 0"
    using a by (simp add: unat_eq_0)
  ultimately obtain r rs where "first_frame_raw anim = r # rs"
    by (cases "first_frame_raw anim") auto
  with a have "base_frame_of ops anim = Inl DivisionByZero"
    by (simp add: base_frame_of_def quantize_vertex_def quantize_def)
  with assms show "decompress_frame ops model f = Some (Inl DivisionByZero)"
    by (rule decompress_frame_base_fault)
qed

theorem division_by_zero_only_degenerate_witness:
  "animation flat_model = Some flat_anim \<and> loaded_chunk flat_anim \<and>
   scratch_allocated flat_model flat_anim \<and> is_first_frame_raw flat_anim \<and>
   num_vertices flat_anim \<noteq> 0 \<and>
   f_is_zero exact_ops (f_sub exact_ops (max_x flat_anim) (min_x flat_anim)) \<and>
   decompress_frame exact_ops flat_model 0 = Some (Inl DivisionByZero) \<and>
   animation example_model = Some example_anim \<and> \<not> degenerate_box exact_ops example_anim \<and>
   decompress_frame exact_ops example_model 1 \<noteq> Some (Inl DivisionByZero)"
proof -
  have h: "is_first_frame_raw flat_anim \<and> num_vertices flat_anim \<noteq> 0 \<and>
           f_is_zero exact_ops (f_sub exact_ops (max_x flat_anim) (min_x flat_anim))"
    by (simp add: flat_anim_def exact_ops_def)
  have n: "\<not> degenerate_box exact_ops example_anim"
    by (simp add: degenerate_box_def example_anim_def exact_ops_def)
  show ?thesis
    using division_by_zero_only_degenerate
            [OF flat_animation flat_loaded flat_allocated, of exact_ops 0]
          division_by_zero_only_degenerate
            [OF example_animation example_loaded example_allocated, of exact_ops 1]
          h n flat_animation flat_loaded flat_allocated example_animation
    by blast
qed

text \<open>
  The claim as stated fails: \<open>flat_anim\<close> has \<^verbatim>\<open>max_x == min_x\<close>, and reconstructing its frame 0
  divides by zero.
\<close>

theorem degenerate_box_divides_by_zero_counterexample:
  "max_x flat_anim = min_x flat_anim \<and> animation flat_model = Some flat_anim \<and>
   decompress_frame exact_ops flat_model 0 = Some (Inl DivisionByZero)"
  using decompress_frame_base_fault [OF flat_animation flat_loaded flat_allocated flat_base, of 0]
    flat_degenerate flat_animation
  by simp

text \<open>
  Claim C4. Take a model in the state that \<^verbatim>\<open>rat_model_create_from_chunk\<close> returns and
  \<^verbatim>\<open>rat_model_update\<close> keeps (\<open>materialized\<close>: valid, loaded, the stored frame index in range and
  the buffers holding that frame). Seeking to any frame index at or past the frame count is not
  an error of its own: \<^verbatim>\<open>rat_model_update\<close> gives exactly the result, vertices and stored frame
  index included, of seeking to \<open>frame_count - 1\<close>, or to frame 0 when the frame count is 0. In
  particular seeking to \<open>frame_count + 5\<close> (when that index fits in 32 bits) gives the result of
  seeking to \<open>frame_count - 1\<close>.
\<close>

theorem seek_past_end_clamps:
  assumes "materialized ops model"
      and "rat_model_get_chunk_frame_count (Some model) \<le> f"
  shows "rat_model_update ops (Some model) f =
           rat_model_update ops (Some model)
             (if 0 < rat_model_get_chunk_frame_count (Some model)
              then rat_model_get_chunk_frame_count (Some model) - 1 else 0) \<and>
         (unat (rat_model_get_chunk_frame_count (Some model)) + 5 < 2 ^ 32 \<longrightarrow>
            rat_model_update ops (Some model) (rat_model_get_chunk_frame_count (Some model) + 5) =
            rat_model_update ops (Some model) (rat_model_get_chunk_frame_count (Some model) - 1))"
proof -
  let ?fc = "rat_model_get_chunk_frame_count (Some model)"
  let ?t = "if 0 < ?fc then ?fc - 1 else 0"
  have a: "rat_model_update ops (Some model) g = rat_model_update ops (Some model) ?t"
    if "?fc \<le> g" for g
    using update_clamped [OF assms(1), of g] update_clamped [OF assms(1), of ?t] that
    by simp
  have b: "?fc \<le> ?fc + 5" if "unat ?fc + 5 < 2 ^ 32"
    using that by (simp add: word_le_nat_alt unat_word_ariths)
  have c: "rat_model_update ops (Some model) (?fc - 1) = rat_model_update ops (Some model) ?t"
  proof (cases "?fc = 0")
    case True
    then have "?fc \<le> ?fc - 1" by simp
    then show ?thesis by (rule a)
  next
    case False
    then have "0 < ?fc" by (simp add: word_greater_zero_iff)
    then show ?thesis by simp
  qed
  show ?thesis
    using a [OF assms(2)] a [OF b] c by simp
qed

text \<open>
  The example file loaded from disk has two frames: seeking to frame 7 gives the model that
  seeking to frame 1 gives.
\<close>

theorem seek_past_end_clamps_witness:
  "materialized exact_ops example_created \<and>
   rat_model_get_chunk_frame_count (Some example_created) \<le> 7 \<and>
   rat_model_update exact_ops (Some example_created) 7 = Some (Inr (Some example_last)) \<and>
   rat_model_update exact_ops (Some example_created) 1 = Some (Inr (Some example_last))"
proof -
  have m: "materialized exact_ops example_created"
    using example_create by (rule create_materialized)
  have c: "rat_model_get_chunk_frame_count (Some example_created) \<le> 7"
    by (simp add: example_created_count)
  show ?thesis
    using seek_past_end_clamps [OF m c] m c
    by (simp add: example_created_count example_seek_last)
qed

text \<open>
  Claim C6, at the inputs where the code leaves it. Neither parser compares the declared
  filename offset and length with the buffer size or with the 256-byte field before
  \<^verbatim>\<open>strncpy\<close> and the store of the terminator. A 64-byte animation file that declares a filename
  of 256 bytes makes \<^verbatim>\<open>mesh_data_filename[256] = 0\<close> write past the field; one that declares 5
  bytes at offset 63, with no zero byte before the end of the file, makes \<^verbatim>\<open>strncpy\<close> read past
  the buffer; a 48-byte mesh file that declares a texture filename of 256 bytes writes past
  \<^verbatim>\<open>texture_filename\<close>. All three pass the size and magic checks.
\<close>

theorem filename_copy_unchecked:
  "file_read_into_buffer (file_env overlong_name_file) [] = Some overlong_name_file \<and>
   length overlong_name_file = 64 \<and>
   hdr_mesh_data_filename_offset (rat_header_of overlong_name_file) = 0 \<and>
   hdr_mesh_data_filename_length (rat_header_of overlong_name_file) = 256 \<and>
   load_rat_animation exact_ops (file_env overlong_name_file) [] = Inl (Undefined OutOfBounds) \<and>
   file_read_into_buffer (file_env name_past_end_file) [] = Some name_past_end_file \<and>
   length name_past_end_file = 64 \<and>
   hdr_mesh_data_filename_offset (rat_header_of name_past_end_file) = 63 \<and>
   hdr_mesh_data_filename_length (rat_header_of name_past_end_file) = 5 \<and>
   load_rat_animation exact_ops (file_env name_past_end_file) [] = Inl (Undefined OutOfBounds) \<and>
   file_read_into_buffer (file_env overlong_texture_file) [] = Some overlong_texture_file \<and>
   length overlong_texture_file = 48 \<and>
   mhdr_texture_filename_offset (rat_mesh_header_of overlong_texture_file) = 0 \<and>
   mhdr_texture_filename_length (rat_mesh_header_of overlong_texture_file) = 256 \<and>
   load_rat_mesh_data exact_ops (file_env overlong_texture_file) [] [] = Inl (Undefined OutOfBounds)"
proof -
  have r: "file_read_into_buffer (file_env c) [] = Some c" for c
    by (simp add: file_env_def)
  have l: "length overlong_name_file = 64" "length name_past_end_file = 64"
          "length overlong_texture_file = 48"
    by (simp_all add: overlong_name_file_def name_past_end_file_def overlong_texture_file_def
          rat3_bytes_def ratm_bytes_def)
  show ?thesis
    by (simp only: r l overlong_load past_end_load overlong_texture_load overlong_header
          past_end_header overlong_texture_header simp_thms)
qed

text \<open>
  Claim C7. When the file is read, \<^verbatim>\<open>load_rat_animation\<close> fails with \<open>Truncated\<close> if the buffer
  is shorter than \<^verbatim>\<open>sizeof(RatHeader)\<close> = 64 bytes, and with \<open>BadMagic\<close> if it is at least that
  long and the 32-bit word at offset 0 is not \<^verbatim>\<open>RAT3_MAGIC\<close>; \<^verbatim>\<open>load_rat_mesh_data\<close> does the
  same with \<^verbatim>\<open>sizeof(RatMeshHeader)\<close> = 48 bytes and \<^verbatim>\<open>RATM_MAGIC\<close>. In both cases the result is
  the error and no record. (In C both failures are the \<^verbatim>\<open>NULL\<close> result; they differ by the
  message printed, which the two error values stand for.)
\<close>

theorem parsers_check_size_then_magic:
  "(file_read_into_buffer env path = Some buffer \<and> length buffer < sizeof_RatHeader \<longrightarrow>
      load_rat_animation ops env path = Inl Truncated) \<and>
   (file_read_into_buffer env path = Some buffer \<and> sizeof_RatHeader \<le> length buffer \<and>
    le32_at buffer 0 \<noteq> RAT3_MAGIC \<longrightarrow>
      load_rat_animation ops env path = Inl BadMagic) \<and>
   (file_read_into_buffer env (take 511 (base_dir @ filename)) = Some buffer \<and>
    length buffer < sizeof_RatMeshHeader \<longrightarrow>
      load_rat_mesh_data ops env filename base_dir = Inl Truncated) \<and>
   (file_read_into_buffer env (take 511 (base_dir @ filename)) = Some buffer \<and>
    sizeof_RatMeshHeader \<le> length buffer \<and> le32_at buffer 0 \<noteq> RATM_MAGIC \<longrightarrow>
      load_rat_mesh_data ops env filename base_dir = Inl BadMagic)"
  by (simp add: load_rat_animation_def load_rat_mesh_data_def Let_def rat_header_of_def
        rat_mesh_header_of_def)

text \<open>
  An 8-byte file is truncated for both parsers; 64 bytes that start with other bytes than
  \<^verbatim>\<open>RAT3\<close> have a bad magic number for the animation parser, and the example animation file has
  one for the mesh parser.
\<close>

theorem parsers_check_size_then_magic_witness:
  "length short_file < sizeof_RatHeader \<and>
   load_rat_animation exact_ops (file_env short_file) [] = Inl Truncated \<and>
   sizeof_RatHeader \<le> length foreign_file \<and> le32_at foreign_file 0 \<noteq> RAT3_MAGIC \<and>
   load_rat_animation exact_ops (file_env foreign_file) [] = Inl BadMagic \<and>
   length short_file < sizeof_RatMeshHeader \<and>
   load_rat_mesh_data exact_ops (file_env short_file) [] [] = Inl Truncated \<and>
   sizeof_RatMeshHeader \<le> length example_rat_file \<and> le32_at example_rat_file 0 \<noteq> RATM_MAGIC \<and>
   load_rat_mesh_data exact_ops (file_env example_rat_file) [] [] = Inl BadMagic"
proof -
  have r: "file_read_into_buffer (file_env c) p = Some c" for c p
    by (simp add: file_env_def)
  have s: "length short_file < sizeof_RatHeader" "length short_file < sizeof_RatMeshHeader"
    by (simp_all add: short_file_def rat3_bytes_def sizeof_RatHeader_def sizeof_RatMeshHeader_def)
  have f: "sizeof_RatHeader \<le> length foreign_file" "le32_at foreign_file 0 \<noteq> RAT3_MAGIC"
    by (simp_all add: foreign_file_def sizeof_RatHeader_def le32_at_def RAT3_MAGIC_def)
  have e: "sizeof_RatMeshHeader \<le> length example_rat_file" "le32_at example_rat_file 0 \<noteq> RATM_MAGIC"
    by (simp_all add: example_rat_file_def sizeof_RatMeshHeader_def le32_at_def RATM_MAGIC_def)
  show ?thesis
    using parsers_check_size_then_magic [of "file_env short_file" "[]" short_file exact_ops "[]" "[]"]
          parsers_check_size_then_magic [of "file_env foreign_file" "[]" foreign_file exact_ops "[]" "[]"]
          parsers_check_size_then_magic [of "file_env example_rat_file" "[]" example_rat_file exact_ops "[]" "[]"]
          r s f e
    by simp
qed

end
